theory Spec2Isabelle
  imports Main
begin

section \<open>Strings and JSON texts\<close>

text \<open>
  JavaScript strings are modelled as \<^typ>\<open>string\<close>: a list of code units, restricted to
  the range U+0000..U+00FF that \<^typ>\<open>char\<close> offers. A JavaScript value that is a string or
  \<^verbatim>\<open>undefined\<close> is a \<^typ>\<open>string option\<close>; an optional string is truthy when it is
  present and not empty.
\<close>

definition truthy :: "string option \<Rightarrow> bool" where
  "truthy v = (case v of None \<Rightarrow> False | Some s \<Rightarrow> s \<noteq> [])"

definition or_empty :: "string option \<Rightarrow> string" where
  \<comment> \<open>\<^verbatim>\<open>v || ''\<close>\<close>
  "or_empty v = (case v of None \<Rightarrow> [] | Some s \<Rightarrow> s)"

definition js_whitespace :: "char \<Rightarrow> bool" where
  \<comment> \<open>the code units below U+0100 that \<^verbatim>\<open>String.prototype.trim\<close> strips: TAB, LF, VT, FF,
      CR, SP and NBSP\<close>
  "js_whitespace c = (c \<in> set [CHR 0x09, CHR 0x0A, CHR 0x0B, CHR 0x0C, CHR 0x0D, CHR 0x20, CHR 0xA0])"

definition trim :: "string \<Rightarrow> string" where
  "trim s = rev (dropWhile js_whitespace (rev (dropWhile js_whitespace s)))"

definition startsWith :: "string \<Rightarrow> char \<Rightarrow> bool" where
  "startsWith s c = (case s of [] \<Rightarrow> False | x # _ \<Rightarrow> x = c)"

definition endsWith :: "string \<Rightarrow> char \<Rightarrow> bool" where
  "endsWith s c = (s \<noteq> [] \<and> last s = c)"

subsection \<open>The texts \<^verbatim>\<open>JSON.parse\<close> accepts\<close>

text \<open>
  \<^verbatim>\<open>JSON.parse\<close> is a built-in of the language. The code only uses whether it returns or
  throws, so it is modelled by a recogniser of the JSON grammar (ECMA-404): a deterministic
  pushdown automaton that reads the text once, left to right. The stack holds the open
  containers; the control state says what may come next.
\<close>

datatype container = InObject | InArray

datatype json_mode =
    Reject
  | ExpectValue
  | ArrayStart
  | ObjectStart
  | ExpectKey
  | InString bool
  | InEscape bool
  | InUnicode bool nat
  | ExpectColon
  | Literal string
  | NumMinus
  | NumZero
  | NumInt
  | NumDot
  | NumFrac
  | NumE
  | NumESign
  | NumExp
  | AfterValue

type_synonym json_state = "json_mode \<times> container list"

definition json_ws :: "char \<Rightarrow> bool" where
  "json_ws c = (c \<in> set [CHR 0x20, CHR 0x09, CHR 0x0A, CHR 0x0D])"

definition digit19 :: "char \<Rightarrow> bool" where
  "digit19 c = (c \<in> set ''123456789'')"

definition digit :: "char \<Rightarrow> bool" where
  "digit c = (c = CHR ''0'' \<or> digit19 c)"

definition hexdigit :: "char \<Rightarrow> bool" where
  "hexdigit c = (digit c \<or> c \<in> set ''abcdefABCDEF'')"

definition control_char :: "char \<Rightarrow> bool" where
  "control_char c = ((of_char c :: nat) < 32)"

definition after_value :: "container list \<Rightarrow> char \<Rightarrow> json_state" where
  "after_value stack c =
     (if json_ws c then (AfterValue, stack)
      else if c = CHR '','' then
        (case stack of
           [] \<Rightarrow> (Reject, stack)
         | InArray # _ \<Rightarrow> (ExpectValue, stack)
         | InObject # _ \<Rightarrow> (ExpectKey, stack))
      else if c = CHR '']'' then
        (case stack of InArray # rest \<Rightarrow> (AfterValue, rest) | _ \<Rightarrow> (Reject, stack))
      else if c = CHR ''}'' then
        (case stack of InObject # rest \<Rightarrow> (AfterValue, rest) | _ \<Rightarrow> (Reject, stack))
      else (Reject, stack))"

definition start_value :: "container list \<Rightarrow> char \<Rightarrow> json_state" where
  "start_value stack c =
     (if c = CHR ''{'' then (ObjectStart, InObject # stack)
      else if c = CHR ''['' then (ArrayStart, InArray # stack)
      else if c = CHR 0x22 then (InString False, stack)
      else if c = CHR ''-'' then (NumMinus, stack)
      else if c = CHR ''0'' then (NumZero, stack)
      else if digit19 c then (NumInt, stack)
      else if c = CHR ''t'' then (Literal ''rue'', stack)
      else if c = CHR ''f'' then (Literal ''alse'', stack)
      else if c = CHR ''n'' then (Literal ''ull'', stack)
      else (Reject, stack))"

fun json_step :: "json_state \<Rightarrow> char \<Rightarrow> json_state" where
  "json_step (Reject, stack) c = (Reject, stack)"
| "json_step (ExpectValue, stack) c =
     (if json_ws c then (ExpectValue, stack) else start_value stack c)"
| "json_step (ArrayStart, stack) c =
     (if json_ws c then (ArrayStart, stack)
      else if c = CHR '']'' then after_value stack c
      else start_value stack c)"
| "json_step (ObjectStart, stack) c =
     (if json_ws c then (ObjectStart, stack)
      else if c = CHR 0x22 then (InString True, stack)
      else if c = CHR ''}'' then after_value stack c
      else (Reject, stack))"
| "json_step (ExpectKey, stack) c =
     (if json_ws c then (ExpectKey, stack)
      else if c = CHR 0x22 then (InString True, stack)
      else (Reject, stack))"
| "json_step (InString key, stack) c =
     (if c = CHR 0x22 then (if key then ExpectColon else AfterValue, stack)
      else if c = CHR 0x5C then (InEscape key, stack)
      else if control_char c then (Reject, stack)
      else (InString key, stack))"
| "json_step (InEscape key, stack) c =
     (if c \<in> set [CHR 0x22, CHR 0x5C, CHR ''/'', CHR ''b'', CHR ''f'', CHR ''n'', CHR ''r'', CHR ''t'']
      then (InString key, stack)
      else if c = CHR ''u'' then (InUnicode key 4, stack)
      else (Reject, stack))"
| "json_step (InUnicode key n, stack) c =
     (if hexdigit c then (if n \<le> 1 then InString key else InUnicode key (n - 1), stack)
      else (Reject, stack))"
| "json_step (ExpectColon, stack) c =
     (if json_ws c then (ExpectColon, stack)
      else if c = CHR '':'' then (ExpectValue, stack)
      else (Reject, stack))"
| "json_step (Literal [], stack) c = (Reject, stack)"
| "json_step (Literal (x # xs), stack) c =
     (if c = x then (if xs = [] then AfterValue else Literal xs, stack) else (Reject, stack))"
| "json_step (NumMinus, stack) c =
     (if c = CHR ''0'' then (NumZero, stack)
      else if digit19 c then (NumInt, stack)
      else (Reject, stack))"
| "json_step (NumZero, stack) c =
     (if c = CHR ''.'' then (NumDot, stack)
      else if c = CHR ''e'' \<or> c = CHR ''E'' then (NumE, stack)
      else after_value stack c)"
| "json_step (NumInt, stack) c =
     (if digit c then (NumInt, stack)
      else if c = CHR ''.'' then (NumDot, stack)
      else if c = CHR ''e'' \<or> c = CHR ''E'' then (NumE, stack)
      else after_value stack c)"
| "json_step (NumDot, stack) c = (if digit c then (NumFrac, stack) else (Reject, stack))"
| "json_step (NumFrac, stack) c =
     (if digit c then (NumFrac, stack)
      else if c = CHR ''e'' \<or> c = CHR ''E'' then (NumE, stack)
      else after_value stack c)"
| "json_step (NumE, stack) c =
     (if c = CHR ''+'' \<or> c = CHR ''-'' then (NumESign, stack)
      else if digit c then (NumExp, stack)
      else (Reject, stack))"
| "json_step (NumESign, stack) c = (if digit c then (NumExp, stack) else (Reject, stack))"
| "json_step (NumExp, stack) c =
     (if digit c then (NumExp, stack) else after_value stack c)"
| "json_step (AfterValue, stack) c = after_value stack c"

definition json_run :: "json_state \<Rightarrow> string \<Rightarrow> json_state" where
  "json_run st s = foldl json_step st s"

definition json_accepting :: "json_state \<Rightarrow> bool" where
  "json_accepting st =
     (snd st = [] \<and> fst st \<in> set [AfterValue, NumZero, NumInt, NumFrac, NumExp])"

definition JSON_parse_ok :: "string \<Rightarrow> bool" where
  \<comment> \<open>\<^verbatim>\<open>JSON.parse(s)\<close> returns instead of throwing a SyntaxError\<close>
  "JSON_parse_ok s = json_accepting (json_run (ExpectValue, []) s)"

section \<open>The OpenAI adapter: reassembly of streamed tool calls\<close>

subsection \<open>Data\<close>

text \<open>
  \<^verbatim>\<open>UniversalToolCall\<close>: \<^verbatim>\<open>{ id, type, function: { name, arguments } }\<close>, the arguments
  being a JSON text. The field \<^verbatim>\<open>type\<close> is the constant \<^verbatim>\<open>'function'\<close> and is never read; it is
  left out.
\<close>

record function_call =
  fn_name :: string
  fn_arguments :: string

record tool_call =
  tc_id :: string
  tc_function :: function_call

text \<open>
  A chunk of the vendor's stream, as \<^verbatim>\<open>convertOpenAIStreamChunk\<close> reads it:
  \<^verbatim>\<open>chunk.choices?.[0]?.delta\<close> with its \<^verbatim>\<open>content\<close> and \<^verbatim>\<open>tool_calls\<close>, and
  \<^verbatim>\<open>chunk.choices?.[0]?.finish_reason\<close>. A field that is absent is \<^const>\<open>None\<close>.
\<close>

record function_delta =
  fd_name :: "string option"
  fd_arguments :: "string option"

record tool_call_delta =
  tcd_index :: nat
  tcd_id :: "string option"
  tcd_function :: "function_delta option"

record delta =
  d_content :: "string option"
  d_tool_calls :: "tool_call_delta list option"

record openai_chunk =
  oc_delta :: "delta option"
  oc_finish_reason :: "string option"

text \<open>
  \<^verbatim>\<open>StreamingChunk\<close>, the provider-neutral chunk, is a union tagged by \<^verbatim>\<open>type\<close>. The consumers
  test the payload for truthiness next to the tag, so a content chunk without content
  behaves as \<open>Content []\<close>.
\<close>

datatype streaming_chunk =
    Content string
  | ToolCalls "tool_call list"
  | Done string
  | Error string
  | Response string

text \<open>
  \<^verbatim>\<open>toolCallBuffer\<close> is an object keyed by the fragment index, a non-negative integer as
  the vendor sends it. \<^verbatim>\<open>Object.values\<close> and \<^verbatim>\<open>Object.keys\<close> enumerate first the keys that
  are array indices (the integers below \<^verbatim>\<open>2^32 - 1\<close>) in ascending order, then every other
  key in the order of its creation. The buffer is an association list in that order.
\<close>

type_synonym tool_call_buffer = "(nat \<times> tool_call) list"

definition array_index :: "nat \<Rightarrow> bool" where
  "array_index k = (k < 4294967295)"

fun buffer_create :: "nat \<Rightarrow> tool_call \<Rightarrow> tool_call_buffer \<Rightarrow> tool_call_buffer" where
  \<comment> \<open>\<^verbatim>\<open>toolCallBuffer[index] = {...}\<close> for a key the buffer lacks\<close>
  "buffer_create k v [] = [(k, v)]"
| "buffer_create k v ((k', v') # rest) =
     (if array_index k \<and> (if array_index k' then k < k' else True)
      then (k, v) # (k', v') # rest
      else (k', v') # buffer_create k v rest)"

fun buffer_update :: "nat \<Rightarrow> tool_call \<Rightarrow> tool_call_buffer \<Rightarrow> tool_call_buffer" where
  \<comment> \<open>the entry under a key of the buffer is changed where it stands\<close>
  "buffer_update k v [] = []"
| "buffer_update k v ((k', v') # rest) =
     (if k = k' then (k', v) # rest else (k', v') # buffer_update k v rest)"

subsection \<open>Accumulating the fragments of one chunk\<close>

definition delta_name :: "tool_call_delta \<Rightarrow> string option" where
  \<comment> \<open>\<^verbatim>\<open>toolCallDelta.function?.name\<close>\<close>
  "delta_name t = (case tcd_function t of None \<Rightarrow> None | Some f \<Rightarrow> fd_name f)"

definition delta_arguments :: "tool_call_delta \<Rightarrow> string option" where
  \<comment> \<open>\<^verbatim>\<open>toolCallDelta.function?.arguments\<close>\<close>
  "delta_arguments t = (case tcd_function t of None \<Rightarrow> None | Some f \<Rightarrow> fd_arguments f)"

definition accumulate :: "tool_call_buffer \<Rightarrow> tool_call_delta \<Rightarrow> tool_call_buffer" where
  \<comment> \<open>the body of \<^verbatim>\<open>for (const toolCallDelta of delta.tool_calls)\<close>\<close>
  "accumulate buf t =
     (case map_of buf (tcd_index t) of
        None \<Rightarrow>
          buffer_create (tcd_index t)
            \<lparr>tc_id = or_empty (tcd_id t),
             tc_function = \<lparr>fn_name = or_empty (delta_name t),
                             fn_arguments = or_empty (delta_arguments t)\<rparr>\<rparr> buf
      | Some tc \<Rightarrow>
          buffer_update (tcd_index t)
            (tc\<lparr>tc_function :=
               \<lparr>fn_name =
                  (if truthy (delta_name t)
                   then fn_name (tc_function tc) @ the (delta_name t)
                   else fn_name (tc_function tc)),
                fn_arguments =
                  (if truthy (delta_arguments t)
                   then fn_arguments (tc_function tc) @ the (delta_arguments t)
                   else fn_arguments (tc_function tc))\<rparr>\<rparr>) buf)"

subsection \<open>The completeness check\<close>

text \<open>
  The scan over the trimmed arguments: \<^verbatim>\<open>braceCount\<close>, \<^verbatim>\<open>inString\<close>, \<^verbatim>\<open>escaped\<close>.
\<close>

type_synonym scan_state = "int \<times> bool \<times> bool"

fun scan_step :: "scan_state \<Rightarrow> char \<Rightarrow> scan_state" where
  "scan_step (braceCount, inString, escaped) c =
     (if escaped then (braceCount, inString, False)
      else if c = CHR 0x5C then (braceCount, inString, True)
      else if c = CHR 0x22 then (braceCount, \<not> inString, escaped)
      else if \<not> inString then
        ((if c = CHR ''{'' then braceCount + 1 else braceCount)
           - (if c = CHR ''}'' then 1 else 0), inString, escaped)
      else (braceCount, inString, escaped))"

definition scan :: "string \<Rightarrow> scan_state" where
  "scan args = foldl scan_step (0, False, False) args"

definition complete_arguments :: "string \<Rightarrow> bool" where
  \<comment> \<open>the \<^verbatim>\<open>try\<close> block of the filter; a throw of \<^verbatim>\<open>JSON.parse\<close> is caught and gives false\<close>
  "complete_arguments arguments =
     (let args = trim arguments in
      if \<not> startsWith args CHR ''{'' \<or> \<not> endsWith args CHR ''}'' then False
      else
        (case scan args of
           (braceCount, inString, escaped) \<Rightarrow>
             if braceCount \<noteq> 0 \<or> inString then False else JSON_parse_ok args))"

definition is_complete :: "tool_call \<Rightarrow> bool" where
  \<comment> \<open>the predicate of \<^verbatim>\<open>Object.values(toolCallBuffer).filter\<close>\<close>
  "is_complete tc =
     (if fn_name (tc_function tc) = [] \<or> fn_arguments (tc_function tc) = [] then False
      else complete_arguments (fn_arguments (tc_function tc)))"

subsection \<open>Converting one chunk, and the whole stream\<close>

definition convert_tool_calls ::
  "tool_call_delta list \<Rightarrow> tool_call_buffer \<Rightarrow> streaming_chunk option \<times> tool_call_buffer" where
  \<comment> \<open>the branch \<^verbatim>\<open>if (delta.tool_calls)\<close>: the completed calls are returned and deleted
      from the buffer (each is found by identity under its own key, a non-empty string)\<close>
  "convert_tool_calls tcs buf =
     (let buf1 = foldl accumulate buf tcs;
          completedToolCalls = filter is_complete (map snd buf1)
      in if completedToolCalls \<noteq> []
         then (Some (ToolCalls completedToolCalls), filter (\<lambda>(k, tc). \<not> is_complete tc) buf1)
         else (None, buf1))"

definition convertOpenAIStreamChunk ::
  "openai_chunk \<Rightarrow> tool_call_buffer \<Rightarrow> streaming_chunk option \<times> tool_call_buffer" where
  "convertOpenAIStreamChunk chunk buf =
     (case oc_delta chunk of
        None \<Rightarrow> (None, buf)
      | Some d \<Rightarrow>
          if truthy (d_content d) then (Some (Content (the (d_content d))), buf)
          else
            (case (case d_tool_calls d of
                     None \<Rightarrow> (None, buf)
                   | Some tcs \<Rightarrow> convert_tool_calls tcs buf) of
               (Some out, buf') \<Rightarrow> (Some out, buf')
             | (None, buf') \<Rightarrow>
                 if truthy (oc_finish_reason chunk)
                 then (Some (Done (the (oc_finish_reason chunk))), buf')
                 else (None, buf')))"

text \<open>
  What a stream delivers: a chunk, or an exception thrown while reading (a transport
  failure), after which nothing more is read.
\<close>

datatype 'a stream_item = Item 'a | Raise string

fun convert_stream ::
  "openai_chunk stream_item list \<Rightarrow> tool_call_buffer \<Rightarrow> streaming_chunk list \<times> tool_call_buffer" where
  \<comment> \<open>\<^verbatim>\<open>for await (const chunk of stream)\<close> of \<^verbatim>\<open>chatStream\<close>, inside its \<^verbatim>\<open>try\<close>: the chunks
      yielded, and the buffer when the loop ends\<close>
  "convert_stream [] buf = ([], buf)"
| "convert_stream (Raise msg # rest) buf = ([Error msg], buf)"
| "convert_stream (Item chunk # rest) buf =
     (case convertOpenAIStreamChunk chunk buf of
        (converted, buf') \<Rightarrow>
          (case convert_stream rest buf' of
             (yielded, final) \<Rightarrow>
               (case converted of None \<Rightarrow> yielded | Some c \<Rightarrow> c # yielded, final)))"

definition openai_chatStream :: "openai_chunk stream_item list \<Rightarrow> streaming_chunk list" where
  \<comment> \<open>the chunks \<^verbatim>\<open>OpenAIProvider.chatStream\<close> yields for a vendor stream, starting from
      \<^verbatim>\<open>toolCallBuffer = {}\<close>\<close>
  "openai_chatStream stream = fst (convert_stream stream [])"

text \<open>A vendor chunk that carries one tool-call fragment and nothing else.\<close>

definition fragment ::
  "nat \<Rightarrow> string option \<Rightarrow> string option \<Rightarrow> string option \<Rightarrow> openai_chunk" where
  "fragment i idPart namePart argumentsPart =
     \<lparr>oc_delta = Some \<lparr>d_content = None,
        d_tool_calls = Some [\<lparr>tcd_index = i, tcd_id = idPart,
          tcd_function = Some \<lparr>fd_name = namePart, fd_arguments = argumentsPart\<rparr>\<rparr>]\<rparr>,
      oc_finish_reason = None\<rparr>"

section \<open>Tool dispatch\<close>

text \<open>\<^verbatim>\<open>ToolResult\<close>: \<^verbatim>\<open>{ success, output?, error? }\<close>.\<close>

record tool_result =
  tr_success :: bool
  tr_output :: "string option"
  tr_error :: "string option"

text \<open>
  The tool implementations (file editor, shell, todo list) are outside the code under
  study. A call of one either returns a result or throws; it may change the world the
  tools act on (files, the shell's state), a value of the type variable \<open>'w\<close>.
  \<open>Throws msg\<close> is a thrown value whose \<^verbatim>\<open>message\<close> prints as \<open>msg\<close>, as for every
  \<^verbatim>\<open>Error\<close>; a thrown \<^verbatim>\<open>null\<close> or \<^verbatim>\<open>undefined\<close>, which has no properties to read, is not
  modelled.
\<close>

datatype outcome = Returns tool_result | Throws string

text \<open>\<^verbatim>\<open>MCPResult\<close>: the text of each content item (\<^verbatim>\<open>item.text\<close>), and \<^verbatim>\<open>isError\<close>.\<close>

record mcp_result =
  mcp_content :: "string option list"
  mcp_isError :: bool

datatype bridge_outcome = BridgeReturns mcp_result | BridgeThrows string

section \<open>Messages, chunks for the interface, and the agent\<close>

datatype role = System | User | Assistant | Tool

text \<open>
  \<^verbatim>\<open>UniversalMessage\<close>: \<^verbatim>\<open>{ role, content, tool_calls?, tool_call_id? }\<close>; a \<^verbatim>\<open>null\<close>
  content is \<^const>\<open>None\<close>.
\<close>

record message =
  msg_role :: role
  msg_content :: "string option"
  msg_tool_calls :: "tool_call list option"
  msg_tool_call_id :: "string option"

text \<open>
  \<^verbatim>\<open>GrokToolCall\<close>, as the legacy loop builds it with \<^verbatim>\<open>messageReducer\<close>: an object of which
  any part may be missing, because it is merged from the deltas as they arrive. (Its
  \<^verbatim>\<open>type\<close> is merged the same way and read by nothing; it is left out.) \<^verbatim>\<open>GrokMessage\<close>
  carries such tool calls.
\<close>

record grok_tool_call =
  gtc_index :: "nat option"
  gtc_id :: "string option"
  gtc_function :: "function_delta option"

record grok_message =
  gm_role :: role
  gm_content :: "string option"
  gm_tool_calls :: "grok_tool_call list option"
  gm_tool_call_id :: "string option"

text \<open>\<^verbatim>\<open>ChatEntry\<close> of the interface's history, without its timestamp.\<close>

datatype entry_type = EntryUser | EntryAssistant | EntryToolResult | EntryToolCall

record chat_entry =
  ce_type :: entry_type
  ce_content :: string
  ce_toolCalls :: "grok_tool_call list option"
  ce_toolCall :: "grok_tool_call option"
  ce_toolResult :: "tool_result option"

text \<open>The chunks \<^verbatim>\<open>processUserMessageStreamLegacy\<close> yields to the interface.\<close>

datatype ui_chunk =
    UContent string
  | UToolCalls "grok_tool_call list"
  | UToolResult grok_tool_call tool_result
  | UDone
  | UTokenCount nat

text \<open>What the agent emits on its \<^verbatim>\<open>EventEmitter\<close>.\<close>

datatype agent_event =
    ProviderSwitched string
  | MessageProcessed message
  | ToolExecutionStarted tool_call
  | ToolExecutionCompleted tool_call tool_result

text \<open>
  A provider adapter (\<^verbatim>\<open>BaseLLMProvider\<close>), as far as the agent uses it: its name and its
  \<^verbatim>\<open>chatStream\<close>. The tool schemas and options passed along do not change during a
  submission, so the stream is a function of the history the adapter receives.
\<close>

record llm_provider =
  prov_name :: string
  prov_chatStream :: "message list \<Rightarrow> streaming_chunk stream_item list"

text \<open>
  Everything outside the agent: the tool implementations behind \<^verbatim>\<open>executeTool\<close>'s switch
  (given the tool's name and the arguments text), the internal bridge behind the MCP client
  and the names registered with that client, the message of the SyntaxError that
  \<^verbatim>\<open>JSON.parse\<close> throws on a text and of the TypeError thrown on reading a property of
  \<^verbatim>\<open>undefined\<close>, the stream \<^verbatim>\<open>grokClient.chatStream\<close> answers a history with, the token
  counter, and the abort signal: \<open>aborted k\<close> is what the \<open>k\<close>-th reading of
  \<^verbatim>\<open>this.abortController?.signal.aborted\<close> in a submission returns.
\<close>

record 'w environment =
  tool_impl :: "string \<Rightarrow> string \<Rightarrow> 'w \<Rightarrow> outcome \<times> 'w"
  bridge_impl :: "string \<Rightarrow> string \<Rightarrow> 'w \<Rightarrow> bridge_outcome \<times> 'w"
  mcp_tools :: "string list"
  syntax_error :: "string \<Rightarrow> string"
  type_error :: "string \<Rightarrow> string"
  grok_chatStream :: "grok_message list \<Rightarrow> delta option stream_item list"
  countMessageTokens :: "grok_message list \<Rightarrow> nat"
  estimateStreamingTokens :: "string \<Rightarrow> nat"
  aborted :: "nat \<Rightarrow> bool"

text \<open>
  The agent (\<^verbatim>\<open>GrokAgent extends UniversalAgentBase\<close>): the fields of the class, the world
  of the tools, and what the agent has produced so far (the chunks its generators have
  yielded, the events it has emitted). The last five fields are observations, read by no
  function of the model: the number of readings of the abort signal so far; every request
  made to a provider adapter, with the adapter's name and the history passed; every
  request made to the Grok client, with the history passed; and every tool call handed to
  execution, with the history at that moment, on the universal path and on the legacy
  path.
\<close>

record 'w agent =
  provider :: llm_provider
  messages :: "message list"
  chatHistory :: "chat_entry list"
  legacyMessages :: "grok_message list"
  world :: 'w
  yielded :: "streaming_chunk list"
  yielded_ui :: "ui_chunk list"
  emitted :: "agent_event list"
  abort_checks :: nat
  requests :: "(string \<times> message list) list"
  grok_requests :: "grok_message list list"
  dispatched :: "(tool_call \<times> message list) list"
  dispatched_legacy :: "(grok_tool_call \<times> grok_message list) list"

subsection \<open>\<^verbatim>\<open>executeTool\<close> of the Grok agent\<close>

definition failure :: "string \<Rightarrow> tool_result" where
  \<comment> \<open>\<^verbatim>\<open>{ success: false, error }\<close>\<close>
  "failure msg = \<lparr>tr_success = False, tr_output = None, tr_error = Some msg\<rparr>"

definition known_tools :: "string list" where
  \<comment> \<open>the cases of the \<^verbatim>\<open>switch\<close>\<close>
  "known_tools = [''view_file'', ''create_file'', ''str_replace_editor'', ''bash'',
                  ''create_todo_list'', ''update_todo_list'']"

definition printed :: "string option \<Rightarrow> string" where
  \<comment> \<open>a string or \<^verbatim>\<open>undefined\<close> as a template literal and \<^verbatim>\<open>JSON.parse\<close> read it\<close>
  "printed v = (case v of None \<Rightarrow> ''undefined'' | Some s \<Rightarrow> s)"

definition executeTool :: "'w environment \<Rightarrow> grok_tool_call \<Rightarrow> 'w \<Rightarrow> tool_result \<times> 'w" where
  \<comment> \<open>Everything is inside the \<^verbatim>\<open>try\<close>. Reading \<^verbatim>\<open>toolCall.function.arguments\<close> throws a
      TypeError when \<^verbatim>\<open>function\<close> is missing; \<^verbatim>\<open>JSON.parse\<close> throws on a text it rejects,
      and reads missing arguments as the text \<^verbatim>\<open>undefined\<close>. A case of the switch reads
      fields of the parsed arguments and calls the tool: that is \<^const>\<open>tool_impl\<close>, and
      whatever it throws is caught.\<close>
  "executeTool env toolCall w =
     (case gtc_function toolCall of
        None \<Rightarrow> (failure (''Tool execution error: '' @ type_error env ''arguments''), w)
      | Some f \<Rightarrow>
          if \<not> JSON_parse_ok (printed (fd_arguments f))
          then (failure (''Tool execution error: '' @ syntax_error env (printed (fd_arguments f))), w)
          else if (case fd_name f of None \<Rightarrow> False | Some name \<Rightarrow> name \<in> set known_tools)
          then (case tool_impl env (printed (fd_name f)) (printed (fd_arguments f)) w of
                  (Returns result, w') \<Rightarrow> (result, w')
                | (Throws msg, w') \<Rightarrow> (failure (''Tool execution error: '' @ msg), w'))
          else (failure (''Unknown tool: '' @ printed (fd_name f)), w))"

definition as_grok_tool_call :: "tool_call \<Rightarrow> grok_tool_call" where
  \<comment> \<open>a complete tool call, of which no part is missing\<close>
  "as_grok_tool_call tc =
     \<lparr>gtc_index = None, gtc_id = Some (tc_id tc),
      gtc_function = Some \<lparr>fd_name = Some (fn_name (tc_function tc)),
                           fd_arguments = Some (fn_arguments (tc_function tc))\<rparr>\<rparr>"

definition executeUniversalTool_grok ::
  "'w environment \<Rightarrow> tool_call \<Rightarrow> 'w \<Rightarrow> tool_result \<times> 'w" where
  \<comment> \<open>\<^verbatim>\<open>GrokAgent.executeUniversalTool\<close>, whose body is that of \<^verbatim>\<open>executeTool\<close>, on the
      complete calls a provider adapter delivers\<close>
  "executeUniversalTool_grok env toolCall w = executeTool env (as_grok_tool_call toolCall) w"

subsection \<open>The MCP client and \<^verbatim>\<open>executeUniversalTool\<close> of the universal agent\<close>

fun join :: "string \<Rightarrow> string list \<Rightarrow> string" where
  "join sep [] = []"
| "join sep [x] = x"
| "join sep (x # y # rest) = x @ sep @ join sep (y # rest)"

definition callTool :: "'w environment \<Rightarrow> string \<Rightarrow> string \<Rightarrow> 'w \<Rightarrow> mcp_result \<times> 'w" where
  \<comment> \<open>\<^verbatim>\<open>MCPClient.callTool\<close>; the arguments object is carried as its JSON text, and
      \<^verbatim>\<open>_meta\<close> is left out\<close>
  "callTool env name arguments w =
     (if name \<notin> set (mcp_tools env)
      then (\<lparr>mcp_content =
                [Some (''Error: Tool '' @ [CHR 0x27] @ name @ [CHR 0x27]
                   @ '' not found. Available tools: '' @ join '', '' (mcp_tools env))],
              mcp_isError = True\<rparr>, w)
      else (case bridge_impl env name arguments w of
              (BridgeReturns result, w') \<Rightarrow> (result, w')
            | (BridgeThrows msg, w') \<Rightarrow>
                (\<lparr>mcp_content =
                    [Some (''Error executing tool '' @ [CHR 0x27] @ name @ [CHR 0x27] @ '': '' @ msg)],
                  mcp_isError = True\<rparr>, w')))"

function show_nat :: "nat \<Rightarrow> string" where
  "show_nat n =
     (if n < 10 then [char_of (48 + n)] else show_nat (n div 10) @ [char_of (48 + n mod 10)])"
  by pat_completeness auto
termination
  by (relation "measure id") auto

definition show_int :: "int \<Rightarrow> string" where
  "show_int i = (if i < 0 then CHR ''-'' # show_nat (nat (- i)) else show_nat (nat i))"

definition show_bool :: "bool \<Rightarrow> string" where
  "show_bool b = (if b then ''true'' else ''false'')"

definition invalid_arguments :: "string \<Rightarrow> string \<Rightarrow> tool_result" where
  \<comment> \<open>the result of the inner \<^verbatim>\<open>catch (parseError)\<close>\<close>
  "invalid_arguments msg arguments =
     failure (''Invalid tool arguments: '' @ msg @ ''. Arguments received: '' @ [CHR 0x22]
               @ take 100 arguments @ ''...'' @ [CHR 0x22])"

definition mcp_text :: "mcp_result \<Rightarrow> string" where
  \<comment> \<open>\<^verbatim>\<open>mcpResult.content.map(item => item.text || '').join('\n')\<close>\<close>
  "mcp_text r = join [CHR 0x0A] (map or_empty (mcp_content r))"

definition executeUniversalTool ::
  "'w environment \<Rightarrow> tool_call \<Rightarrow> 'w \<Rightarrow> tool_result \<times> 'w" where
  \<comment> \<open>\<^verbatim>\<open>UniversalAgent.executeUniversalTool\<close>. \<^const>\<open>callTool\<close> catches what the bridge
      throws, so the outer \<^verbatim>\<open>catch\<close> is not reached.\<close>
  "executeUniversalTool env toolCall w =
     (let arguments = fn_arguments (tc_function toolCall); argsStr = trim arguments
      in if arguments = []
         then (invalid_arguments ''Invalid or missing function arguments'' arguments, w)
         else if \<not> startsWith argsStr CHR ''{'' \<or> \<not> endsWith argsStr CHR ''}''
         then (invalid_arguments ''Incomplete JSON arguments (streaming not complete)'' arguments, w)
         else
           (case scan argsStr of
              (braceCount, inString, escaped) \<Rightarrow>
                if braceCount \<noteq> 0 \<or> inString
                then (invalid_arguments
                        (''Incomplete JSON arguments (braces: '' @ show_int braceCount
                           @ '', inString: '' @ show_bool inString @ '')'') arguments, w)
                else if \<not> JSON_parse_ok argsStr
                then (invalid_arguments (syntax_error env argsStr) arguments, w)
                else
                  (case callTool env (fn_name (tc_function toolCall)) argsStr w of
                     (mcpResult, w') \<Rightarrow>
                       (\<lparr>tr_success = \<not> mcp_isError mcpResult,
                         tr_output = Some (mcp_text mcpResult),
                         tr_error = (if mcp_isError mcpResult then Some (mcp_text mcpResult)
                                     else None)\<rparr>, w'))))"

section \<open>The legacy streaming loop of the Grok agent\<close>

subsection \<open>\<^verbatim>\<open>messageReducer\<close>\<close>

text \<open>
  The reducer merges a delta into the accumulated message key by key: a key the
  accumulator lacks (or holds \<^verbatim>\<open>null\<close> under) takes the delta's value, two strings are
  concatenated, two arrays are merged position by position, two objects are merged
  recursively, and anything else is left as it is. Here it is specialised to the keys the
  loop reads afterwards, \<^verbatim>\<open>content\<close> and \<^verbatim>\<open>tool_calls\<close> with the \<^verbatim>\<open>index\<close>, \<^verbatim>\<open>id\<close> and
  \<^verbatim>\<open>function\<close> of each entry. When \<^verbatim>\<open>tool_calls\<close> is first taken over, the \<^verbatim>\<open>index\<close> of each
  entry is deleted; a later merge sets it again.
\<close>

record accumulated =
  am_content :: "string option"
  am_tool_calls :: "grok_tool_call list option"

definition merge_text :: "string option \<Rightarrow> string option \<Rightarrow> string option" where
  "merge_text a v =
     (case a of None \<Rightarrow> v | Some x \<Rightarrow> (case v of None \<Rightarrow> Some x | Some y \<Rightarrow> Some (x @ y)))"

definition reduce_function ::
  "function_delta option \<Rightarrow> function_delta option \<Rightarrow> function_delta option" where
  "reduce_function a v =
     (case a of
        None \<Rightarrow> v
      | Some f \<Rightarrow>
          (case v of
             None \<Rightarrow> Some f
           | Some g \<Rightarrow>
               Some \<lparr>fd_name = merge_text (fd_name f) (fd_name g),
                     fd_arguments = merge_text (fd_arguments f) (fd_arguments g)\<rparr>))"

definition taken_over :: "tool_call_delta \<Rightarrow> grok_tool_call" where
  \<comment> \<open>an entry of the first \<^verbatim>\<open>tool_calls\<close> array, its \<^verbatim>\<open>index\<close> deleted\<close>
  "taken_over v = \<lparr>gtc_index = None, gtc_id = tcd_id v, gtc_function = tcd_function v\<rparr>"

definition copied :: "tool_call_delta \<Rightarrow> grok_tool_call" where
  \<comment> \<open>\<^verbatim>\<open>reduce({}, value[i])\<close>, for a position the accumulated array lacks\<close>
  "copied v = \<lparr>gtc_index = Some (tcd_index v), gtc_id = tcd_id v, gtc_function = tcd_function v\<rparr>"

definition reduce_tool_call :: "grok_tool_call \<Rightarrow> tool_call_delta \<Rightarrow> grok_tool_call" where
  "reduce_tool_call a v =
     \<lparr>gtc_index = (case gtc_index a of None \<Rightarrow> Some (tcd_index v) | Some i \<Rightarrow> Some i),
      gtc_id = merge_text (gtc_id a) (tcd_id v),
      gtc_function = reduce_function (gtc_function a) (tcd_function v)\<rparr>"

fun reduce_tool_calls :: "grok_tool_call list \<Rightarrow> tool_call_delta list \<Rightarrow> grok_tool_call list" where
  "reduce_tool_calls acc [] = acc"
| "reduce_tool_calls [] (v # vs) = copied v # reduce_tool_calls [] vs"
| "reduce_tool_calls (a # as) (v # vs) = reduce_tool_call a v # reduce_tool_calls as vs"

definition messageReducer :: "accumulated \<Rightarrow> delta \<Rightarrow> accumulated" where
  "messageReducer acc d =
     \<lparr>am_content = merge_text (am_content acc) (d_content d),
      am_tool_calls =
        (case am_tool_calls acc of
           None \<Rightarrow> map_option (map taken_over) (d_tool_calls d)
         | Some a \<Rightarrow>
             (case d_tool_calls d of None \<Rightarrow> Some a | Some v \<Rightarrow> Some (reduce_tool_calls a v)))\<rparr>"

definition accumulated_tool_calls :: "accumulated \<Rightarrow> grok_tool_call list" where
  \<comment> \<open>\<^verbatim>\<open>accumulatedMessage.tool_calls\<close>, empty when absent\<close>
  "accumulated_tool_calls acc = (case am_tool_calls acc of None \<Rightarrow> [] | Some tcs \<Rightarrow> tcs)"

definition grok_name :: "grok_tool_call \<Rightarrow> string option" where
  \<comment> \<open>\<^verbatim>\<open>tc.function?.name\<close>\<close>
  "grok_name tc = (case gtc_function tc of None \<Rightarrow> None | Some f \<Rightarrow> fd_name f)"

subsection \<open>Cancellation\<close>

definition check_aborted :: "'w environment \<Rightarrow> 'w agent \<Rightarrow> bool \<times> 'w agent" where
  \<comment> \<open>one reading of \<^verbatim>\<open>this.abortController?.signal.aborted\<close>\<close>
  "check_aborted env st = (aborted env (abort_checks st), st\<lparr>abort_checks := Suc (abort_checks st)\<rparr>)"

definition yield_ui :: "ui_chunk list \<Rightarrow> 'w agent \<Rightarrow> 'w agent" where
  "yield_ui cs st = st\<lparr>yielded_ui := yielded_ui st @ cs\<rparr>"

definition cancelled_text :: string where
  "cancelled_text = [CHR 0x0A, CHR 0x0A] @ ''[Operation cancelled by user]''"

definition cancel :: "'w agent \<Rightarrow> 'w agent" where
  \<comment> \<open>the two yields before each \<^verbatim>\<open>return\<close> on cancellation\<close>
  "cancel st = yield_ui [UContent cancelled_text, UDone] st"

subsection \<open>Reading one streamed response\<close>

datatype 'w stream_result =
    Completed accumulated bool "'w agent"
  | StreamCancelled "'w agent"
  | StreamFailed string "'w agent"

fun read_stream ::
  "'w environment \<Rightarrow> nat \<Rightarrow> delta option stream_item list \<Rightarrow> accumulated \<Rightarrow> string \<Rightarrow> bool
     \<Rightarrow> 'w agent \<Rightarrow> 'w stream_result" where
  \<comment> \<open>\<^verbatim>\<open>for await (const chunk of stream)\<close>, with \<^verbatim>\<open>accumulatedMessage\<close>,
      \<^verbatim>\<open>accumulatedContent\<close> and \<^verbatim>\<open>toolCallsYielded\<close>; a chunk without \<^verbatim>\<open>choices[0]\<close> is
      \<^const>\<open>None\<close> and is skipped, one whose \<^verbatim>\<open>choices[0]\<close> has no \<^verbatim>\<open>delta\<close> reads as a delta
      with no fields\<close>
  "read_stream env inputTokens [] acc content toolCallsYielded st =
     Completed acc toolCallsYielded st"
| "read_stream env inputTokens (Raise msg # rest) acc content toolCallsYielded st =
     StreamFailed msg st"
| "read_stream env inputTokens (Item chunk # rest) acc content toolCallsYielded st =
     (case check_aborted env st of
        (True, st1) \<Rightarrow> StreamCancelled (cancel st1)
      | (False, st1) \<Rightarrow>
          (case chunk of
             None \<Rightarrow> read_stream env inputTokens rest acc content toolCallsYielded st1
           | Some d \<Rightarrow>
               (let acc' = messageReducer acc d;
                    announce = (\<not> toolCallsYielded \<and> accumulated_tool_calls acc' \<noteq> []
                                 \<and> (\<exists>tc\<in>set (accumulated_tool_calls acc'). truthy (grok_name tc)));
                    st2 = (if announce then yield_ui [UToolCalls (accumulated_tool_calls acc')] st1
                           else st1)
                in if truthy (d_content d)
                   then
                     (let content' = content @ the (d_content d)
                      in read_stream env inputTokens rest acc' content' (toolCallsYielded \<or> announce)
                           (yield_ui [UContent (the (d_content d)),
                                      UTokenCount (inputTokens + estimateStreamingTokens env content')]
                              st2))
                   else read_stream env inputTokens rest acc' content (toolCallsYielded \<or> announce)
                          st2)))"

subsection \<open>Executing the tool calls of one response\<close>

definition result_text :: "tool_result \<Rightarrow> string \<Rightarrow> string" where
  \<comment> \<open>\<^verbatim>\<open>result.success ? result.output || 'Success' : result.error || fallback\<close>\<close>
  "result_text result fallback =
     (if tr_success result
      then (if truthy (tr_output result) then the (tr_output result) else ''Success'')
      else (if truthy (tr_error result) then the (tr_error result) else fallback))"

definition grok_tool_message :: "grok_tool_call \<Rightarrow> tool_result \<Rightarrow> grok_message" where
  \<comment> \<open>the \<^verbatim>\<open>tool\<close>-role message that carries a result\<close>
  "grok_tool_message toolCall result =
     \<lparr>gm_role = Tool, gm_content = Some (result_text result ''Error''),
      gm_tool_calls = None, gm_tool_call_id = gtc_id toolCall\<rparr>"

definition run_tool :: "'w environment \<Rightarrow> grok_tool_call \<Rightarrow> 'w agent \<Rightarrow> 'w agent" where
  \<comment> \<open>the body of the loop over the tool calls, after its cancellation check: execute, push
      the entry, yield the result, push the \<^verbatim>\<open>tool\<close> message\<close>
  "run_tool env toolCall st =
     (case executeTool env toolCall (world st) of
        (result, w') \<Rightarrow>
          (let st1 = st\<lparr>dispatched_legacy := dispatched_legacy st @ [(toolCall, legacyMessages st)],
                        world := w'\<rparr>;
               st2 = st1\<lparr>chatHistory := chatHistory st1 @
                        [\<lparr>ce_type = EntryToolResult,
                          ce_content = result_text result ''Error occurred'',
                          ce_toolCalls = None, ce_toolCall = Some toolCall,
                          ce_toolResult = Some result\<rparr>]\<rparr>;
               st3 = yield_ui [UToolResult toolCall result] st2
           in st3\<lparr>legacyMessages := legacyMessages st3 @ [grok_tool_message toolCall result]\<rparr>))"

datatype 'w tools_result = ToolsDone "'w agent" | ToolsCancelled "'w agent"

fun execute_tools :: "'w environment \<Rightarrow> grok_tool_call list \<Rightarrow> 'w agent \<Rightarrow> 'w tools_result" where
  \<comment> \<open>\<^verbatim>\<open>for (const toolCall of accumulatedMessage.tool_calls)\<close>\<close>
  "execute_tools env [] st = ToolsDone st"
| "execute_tools env (toolCall # rest) st =
     (case check_aborted env st of
        (True, st1) \<Rightarrow> ToolsCancelled (cancel st1)
      | (False, st1) \<Rightarrow> execute_tools env rest (run_tool env toolCall st1))"

subsection \<open>The agent loop\<close>

definition maxToolRounds :: nat where
  "maxToolRounds = 30"

definition assistant_message :: "accumulated \<Rightarrow> grok_message" where
  \<comment> \<open>\<^verbatim>\<open>{ role: 'assistant', content: accumulatedMessage.content || '',
      tool_calls: accumulatedMessage.tool_calls }\<close>\<close>
  "assistant_message acc =
     \<lparr>gm_role = Assistant, gm_content = Some (or_empty (am_content acc)),
      gm_tool_calls = am_tool_calls acc, gm_tool_call_id = None\<rparr>"

definition append_assistant :: "accumulated \<Rightarrow> 'w agent \<Rightarrow> 'w agent" where
  \<comment> \<open>the assistant entry and the assistant message pushed after the stream has ended\<close>
  "append_assistant acc st =
     st\<lparr>chatHistory := chatHistory st @
           [\<lparr>ce_type = EntryAssistant,
             ce_content = (if truthy (am_content acc) then the (am_content acc)
                           else ''Using tools to help you...''),
             ce_toolCalls = am_tool_calls acc,
             ce_toolCall = None, ce_toolResult = None\<rparr>],
        legacyMessages := legacyMessages st @ [assistant_message acc]\<rparr>"

definition request_grok :: "'w agent \<Rightarrow> 'w agent" where
  \<comment> \<open>observes \<^verbatim>\<open>this.grokClient.chatStream(this.legacyMessages, ...)\<close>\<close>
  "request_grok st = st\<lparr>grok_requests := grok_requests st @ [legacyMessages st]\<rparr>"

datatype 'w loop_result =
    Returned "'w agent"
  | LoopEnded nat "'w agent"
  | Thrown string "'w agent"

function agent_loop :: "'w environment \<Rightarrow> nat \<Rightarrow> nat \<Rightarrow> 'w agent \<Rightarrow> 'w loop_result" where
  \<comment> \<open>\<^verbatim>\<open>while (toolRounds < maxToolRounds)\<close>: the generator returns from inside the loop
      (cancellation), or the loop ends with some \<^verbatim>\<open>toolRounds\<close> (by \<^verbatim>\<open>break\<close> or by its
      condition), or the stream throws\<close>
  "agent_loop env inputTokens toolRounds st =
     (if toolRounds < maxToolRounds then
        (case check_aborted env st of
           (True, st1) \<Rightarrow> Returned (cancel st1)
         | (False, st1) \<Rightarrow>
             (case read_stream env inputTokens (grok_chatStream env (legacyMessages st1))
                     \<lparr>am_content = None, am_tool_calls = None\<rparr> [] False (request_grok st1) of
                StreamCancelled st2 \<Rightarrow> Returned st2
              | StreamFailed msg st2 \<Rightarrow> Thrown msg st2
              | Completed acc toolCallsYielded st2 \<Rightarrow>
                  (let st3 = append_assistant acc st2 in
                   if accumulated_tool_calls acc \<noteq> [] then
                     (case execute_tools env (accumulated_tool_calls acc)
                             (if toolCallsYielded then st3
                              else yield_ui [UToolCalls (accumulated_tool_calls acc)] st3) of
                        ToolsCancelled st4 \<Rightarrow> Returned st4
                      | ToolsDone st4 \<Rightarrow> agent_loop env inputTokens (toolRounds + 1) st4)
                   else LoopEnded toolRounds st3)))
      else LoopEnded toolRounds st)"
  by pat_completeness auto
termination
  by (relation "measure (\<lambda>(env, inputTokens, toolRounds, st). maxToolRounds - toolRounds)") auto

definition round_cap_text :: string where
  "round_cap_text = [CHR 0x0A, CHR 0x0A]
     @ ''Maximum tool execution rounds reached. Stopping to prevent infinite loops.''"

definition processUserMessageStreamLegacy :: "'w environment \<Rightarrow> string \<Rightarrow> 'w agent \<Rightarrow> 'w agent" where
  \<comment> \<open>a submission starts with a new \<^verbatim>\<open>AbortController\<close>, so the readings of its signal are
      counted from 0\<close>
  "processUserMessageStreamLegacy env message st =
     (let st1 = st\<lparr>abort_checks := 0,
                   chatHistory := chatHistory st @
                     [\<lparr>ce_type = EntryUser, ce_content = message, ce_toolCalls = None,
                       ce_toolCall = None, ce_toolResult = None\<rparr>],
                   legacyMessages := legacyMessages st @
                     [\<lparr>gm_role = User, gm_content = Some message, gm_tool_calls = None,
                       gm_tool_call_id = None\<rparr>]\<rparr>;
          inputTokens = countMessageTokens env (legacyMessages st1)
      in case agent_loop env inputTokens 0 (yield_ui [UTokenCount inputTokens] st1) of
           Returned st2 \<Rightarrow> st2
         | LoopEnded toolRounds st2 \<Rightarrow>
             yield_ui [UDone]
               (if toolRounds \<ge> maxToolRounds then yield_ui [UContent round_cap_text] st2 else st2)
         | Thrown msg st2 \<Rightarrow>
             (case check_aborted env st2 of
                (True, st3) \<Rightarrow> cancel st3
              | (False, st3) \<Rightarrow>
                  yield_ui [UContent (''Sorry, I encountered an error: '' @ msg), UDone]
                    (st3\<lparr>chatHistory := chatHistory st3 @
                       [\<lparr>ce_type = EntryAssistant,
                         ce_content = ''Sorry, I encountered an error: '' @ msg,
                         ce_toolCalls = None, ce_toolCall = None, ce_toolResult = None\<rparr>]\<rparr>)))"

section \<open>The universal agent\<close>

definition addMessage :: "message \<Rightarrow> 'w agent \<Rightarrow> 'w agent" where
  "addMessage m st = st\<lparr>messages := messages st @ [m], emitted := emitted st @ [MessageProcessed m]\<rparr>"

definition switchProvider :: "llm_provider \<Rightarrow> 'w agent \<Rightarrow> 'w agent" where
  \<comment> \<open>the listeners moved from the old provider to the new one are not modelled\<close>
  "switchProvider newProvider st =
     st\<lparr>provider := newProvider, emitted := emitted st @ [ProviderSwitched (prov_name newProvider)]\<rparr>"

definition yield :: "streaming_chunk \<Rightarrow> 'w agent \<Rightarrow> 'w agent" where
  "yield c st = st\<lparr>yielded := yielded st @ [c]\<rparr>"

definition request_provider :: "'w agent \<Rightarrow> 'w agent" where
  \<comment> \<open>observes \<^verbatim>\<open>this.provider.chatStream(this.messages, this.tools, ...)\<close>\<close>
  "request_provider st = st\<lparr>requests := requests st @ [(prov_name (provider st), messages st)]\<rparr>"

definition empty_assistant :: message where
  \<comment> \<open>\<^verbatim>\<open>{ role: 'assistant', content: '' }\<close>\<close>
  "empty_assistant =
     \<lparr>msg_role = Assistant, msg_content = Some [], msg_tool_calls = None, msg_tool_call_id = None\<rparr>"

definition append_content :: "message \<Rightarrow> string \<Rightarrow> message" where
  \<comment> \<open>\<^verbatim>\<open>m.content = (m.content || '') + chunk.content\<close>\<close>
  "append_content m c = m\<lparr>msg_content := Some (or_empty (msg_content m) @ c)\<rparr>"

subsection \<open>\<^verbatim>\<open>handleToolCalls\<close>\<close>

text \<open>
  The method of the base class is a placeholder that executes nothing; both agents
  override it, with bodies that differ only in the function that executes one call
  (\<^const>\<open>executeUniversalTool_grok\<close> in the Grok agent, \<^const>\<open>executeUniversalTool\<close> in the
  universal agent). Both functions catch whatever a tool throws, so the \<^verbatim>\<open>catch\<close> around
  the body is not reached by a tool.
\<close>

definition tool_message :: "tool_call \<Rightarrow> tool_result \<Rightarrow> message" where
  \<comment> \<open>the \<^verbatim>\<open>tool\<close>-role message that carries a result\<close>
  "tool_message toolCall result =
     \<lparr>msg_role = Tool, msg_content = Some (result_text result ''Error''),
      msg_tool_calls = None, msg_tool_call_id = Some (tc_id toolCall)\<rparr>"

definition handle_tool_call ::
  "(tool_call \<Rightarrow> 'w \<Rightarrow> tool_result \<times> 'w) \<Rightarrow> tool_call \<Rightarrow> 'w agent \<Rightarrow> 'w agent" where
  "handle_tool_call exec toolCall st =
     (let st1 = st\<lparr>emitted := emitted st @ [ToolExecutionStarted toolCall],
                   dispatched := dispatched st @ [(toolCall, messages st)]\<rparr>
      in case exec toolCall (world st1) of
           (result, w') \<Rightarrow>
             (let st2 = addMessage (tool_message toolCall result) (st1\<lparr>world := w'\<rparr>);
                  st3 = yield (Content
                          (if tr_success result
                           then (if truthy (tr_output result) then the (tr_output result)
                                 else ''Success'')
                           else ''Error: '' @ (if truthy (tr_error result) then the (tr_error result)
                                               else ''Unknown error''))) st2
              in st3\<lparr>emitted := emitted st3 @ [ToolExecutionCompleted toolCall result]\<rparr>))"

fun handleToolCalls ::
  "(tool_call \<Rightarrow> 'w \<Rightarrow> tool_result \<times> 'w) \<Rightarrow> tool_call list \<Rightarrow> 'w agent \<Rightarrow> 'w agent" where
  "handleToolCalls exec [] st = st"
| "handleToolCalls exec (toolCall # rest) st =
     handleToolCalls exec rest (handle_tool_call exec toolCall st)"

subsection \<open>\<^verbatim>\<open>continueAfterToolExecution\<close> and \<^verbatim>\<open>processUserMessageStream\<close>\<close>

text \<open>
  \<^verbatim>\<open>continueAfterToolExecution\<close> calls itself for every chunk of tool calls it reads, with
  nothing that bounds the depth. The model carries fuel, the depth of calls still allowed:
  a run either finishes, or it needs a call beyond that depth and stops there.
\<close>

datatype 'a run = Finished 'a | OutOfFuel 'a

definition has_text :: "message \<Rightarrow> bool" where
  \<comment> \<open>\<^verbatim>\<open>m.content && m.content.trim()\<close>\<close>
  "has_text m = (truthy (msg_content m) \<and> trim (the (msg_content m)) \<noteq> [])"

fun continue_chunks ::
  "(tool_call \<Rightarrow> 'w \<Rightarrow> tool_result \<times> 'w) \<Rightarrow> nat \<Rightarrow> streaming_chunk stream_item list \<Rightarrow> message
     \<Rightarrow> 'w agent \<Rightarrow> 'w agent run"
and continueAfterToolExecution ::
  "(tool_call \<Rightarrow> 'w \<Rightarrow> tool_result \<times> 'w) \<Rightarrow> nat \<Rightarrow> 'w agent \<Rightarrow> 'w agent run" where
  "continue_chunks exec fuel [] current st = Finished st"
| "continue_chunks exec fuel (Raise msg # rest) current st = Finished (yield (Error msg) st)"
| "continue_chunks exec fuel (Item (Content c) # rest) current st =
     (if c \<noteq> []
      then continue_chunks exec fuel rest (append_content current c) (yield (Response c) st)
      else continue_chunks exec fuel rest current st)"
| "continue_chunks exec fuel (Item (ToolCalls tool_calls) # rest) current st =
     (case continueAfterToolExecution exec fuel
             (handleToolCalls exec tool_calls
                (yield (ToolCalls tool_calls)
                   (addMessage (current\<lparr>msg_tool_calls := Some tool_calls\<rparr>) st))) of
        Finished st' \<Rightarrow> continue_chunks exec fuel rest empty_assistant st'
      | OutOfFuel st' \<Rightarrow> OutOfFuel st')"
| "continue_chunks exec fuel (Item (Done reason) # rest) current st =
     Finished (yield (Done reason) (if has_text current then addMessage current st else st))"
| "continue_chunks exec fuel (Item (Error e) # rest) current st = Finished (yield (Error e) st)"
| "continue_chunks exec fuel (Item (Response c) # rest) current st =
     continue_chunks exec fuel rest current st"
| "continueAfterToolExecution exec 0 st = OutOfFuel st"
| "continueAfterToolExecution exec (Suc fuel) st =
     continue_chunks exec fuel (prov_chatStream (provider st) (messages st)) empty_assistant
       (request_provider st)"

fun process_chunks ::
  "(tool_call \<Rightarrow> 'w \<Rightarrow> tool_result \<times> 'w) \<Rightarrow> nat \<Rightarrow> streaming_chunk stream_item list \<Rightarrow> message
     \<Rightarrow> 'w agent \<Rightarrow> 'w agent run" where
  \<comment> \<open>the loop over the chunks in \<^verbatim>\<open>processUserMessageStream\<close>\<close>
  "process_chunks exec fuel [] current st = Finished st"
| "process_chunks exec fuel (Raise msg # rest) current st = Finished (yield (Error msg) st)"
| "process_chunks exec fuel (Item (Content c) # rest) current st =
     (if c \<noteq> []
      then process_chunks exec fuel rest (append_content current c) (yield (Content c) st)
      else process_chunks exec fuel rest current st)"
| "process_chunks exec fuel (Item (ToolCalls tool_calls) # rest) current st =
     (case continueAfterToolExecution exec fuel
             (handleToolCalls exec tool_calls
                (addMessage (current\<lparr>msg_tool_calls := Some tool_calls\<rparr>)
                   (yield (ToolCalls tool_calls) st))) of
        Finished st' \<Rightarrow> process_chunks exec fuel rest empty_assistant st'
      | OutOfFuel st' \<Rightarrow> OutOfFuel st')"
| "process_chunks exec fuel (Item (Done reason) # rest) current st =
     Finished (yield (Done reason) (addMessage current st))"
| "process_chunks exec fuel (Item (Error e) # rest) current st = Finished (yield (Error e) st)"
| "process_chunks exec fuel (Item (Response c) # rest) current st =
     process_chunks exec fuel rest current st"

definition processUserMessageStream ::
  "(tool_call \<Rightarrow> 'w \<Rightarrow> tool_result \<times> 'w) \<Rightarrow> nat \<Rightarrow> string \<Rightarrow> 'w agent \<Rightarrow> 'w agent run" where
  "processUserMessageStream exec fuel message st =
     (let st1 = addMessage \<lparr>msg_role = User, msg_content = Some message, msg_tool_calls = None,
                            msg_tool_call_id = None\<rparr> st
      in process_chunks exec fuel (prov_chatStream (provider st1) (messages st1)) empty_assistant
           (request_provider st1))"

definition OpenAIProvider :: "(message list \<Rightarrow> openai_chunk stream_item list) \<Rightarrow> llm_provider" where
  \<comment> \<open>the OpenAI adapter over a vendor that answers a request with a stream of chunks;
      \<^verbatim>\<open>validateMessages\<close> throws on an empty history, before the \<^verbatim>\<open>try\<close>\<close>
  "OpenAIProvider vendor =
     \<lparr>prov_name = ''openai'',
      prov_chatStream = (\<lambda>history.
        if history = [] then [Raise ''Messages array cannot be empty'']
        else map Item (openai_chatStream (vendor history)))\<rparr>"

section \<open>The public configuration of a provider\<close>

text \<open>
  A provider configuration is an object: a finite map from its keys (\<^verbatim>\<open>type\<close>, \<^verbatim>\<open>name\<close>,
  \<^verbatim>\<open>apiKey\<close>, \<^verbatim>\<open>baseURL\<close>, \<^verbatim>\<open>timeout\<close>, ...) to values.
\<close>

datatype config_value = Str string | Num int | Bool bool

definition js_truthy :: "config_value option \<Rightarrow> bool" where
  \<comment> \<open>\<^verbatim>\<open>!!v\<close>\<close>
  "js_truthy v =
     (case v of
        None \<Rightarrow> False
      | Some (Str s) \<Rightarrow> s \<noteq> []
      | Some (Num n) \<Rightarrow> n \<noteq> 0
      | Some (Bool b) \<Rightarrow> b)"

definition getPublicConfig :: "(string \<rightharpoonup> config_value) \<Rightarrow> (string \<rightharpoonup> config_value)" where
  \<comment> \<open>\<^verbatim>\<open>const { apiKey, ...publicConfig } = this.config;
      return { ...publicConfig, hasApiKey: !!apiKey }\<close>\<close>
  "getPublicConfig config =
     (config(''apiKey'' := None))(''hasApiKey'' \<mapsto> Bool (js_truthy (config ''apiKey'')))"

section \<open>Notions used in the proofs\<close>

text \<open>
  A state of the JSON automaton from which the top-level value is still open, or already
  closed with nothing but whitespace read since: what every state is once the text has
  begun with an opening brace.
\<close>

definition value_open :: "json_state \<Rightarrow> bool" where
  "value_open st = (snd st \<noteq> [] \<or> fst st = AfterValue \<or> fst st = Reject)"

text \<open>
  The brace scan and the automaton read the same text. They agree when the scan counts the
  open objects of the automaton's stack, is inside a string exactly when the automaton is,
  and has seen a backslash exactly when the automaton is about to read an escape.
\<close>

definition in_string_mode :: "json_mode \<Rightarrow> bool" where
  "in_string_mode m =
     (case m of InString _ \<Rightarrow> True | InEscape _ \<Rightarrow> True | InUnicode _ _ \<Rightarrow> True | _ \<Rightarrow> False)"

definition escape_mode :: "json_mode \<Rightarrow> bool" where
  "escape_mode m = (case m of InEscape _ \<Rightarrow> True | _ \<Rightarrow> False)"

definition plain_literal :: "json_mode \<Rightarrow> bool" where
  "plain_literal m = (case m of Literal s \<Rightarrow> set s \<subseteq> set ''aelrsu'' | _ \<Rightarrow> True)"

definition agrees :: "json_state \<Rightarrow> scan_state \<Rightarrow> bool" where
  "agrees st sc =
     (fst st = Reject \<or>
      (fst sc = int (count_list (snd st) InObject) \<and> fst (snd sc) = in_string_mode (fst st) \<and>
       snd (snd sc) = escape_mode (fst st) \<and> plain_literal (fst st)))"

definition outside_string :: "json_mode \<Rightarrow> bool" where
  "outside_string m = (m \<noteq> Reject \<and> \<not> in_string_mode m \<and> plain_literal m)"

definition keeps_braces :: "container list \<Rightarrow> json_state \<Rightarrow> bool" where
  "keeps_braces stack r =
     (fst r = Reject \<or>
      (outside_string (fst r) \<and> count_list (snd r) InObject = count_list stack InObject))"

abbreviation mk :: "string \<Rightarrow> string \<Rightarrow> string \<Rightarrow> tool_call" where
  "mk i n a \<equiv> \<lparr>tc_id = i, tc_function = \<lparr>fn_name = n, fn_arguments = a\<rparr>\<rparr>"

text \<open>
  The vendor stream in which one tool call arrives in pieces: the first chunk carries the
  id, the name and the first part of the arguments, every later chunk one more part.
\<close>

definition split_stream ::
  "nat \<Rightarrow> string option \<Rightarrow> string \<Rightarrow> string list \<Rightarrow> openai_chunk stream_item list" where
  "split_stream i idPart name parts =
     (case parts of
        [] \<Rightarrow> []
      | part # rest \<Rightarrow>
          Item (fragment i idPart (Some name) (Some part))
            # map (\<lambda>p. Item (fragment i None None (Some p))) rest)"

text \<open>
  Two fragments for index 0: the first carries a part of the name and no id, the second
  carries an id and the rest of the name.
\<close>

definition two_fragments :: "tool_call_delta list" where
  "two_fragments =
     [\<lparr>tcd_index = 0, tcd_id = None,
       tcd_function = Some \<lparr>fd_name = Some ''ba'', fd_arguments = Some ''{''\<rparr>\<rparr>,
      \<lparr>tcd_index = 0, tcd_id = Some ''call_1'',
       tcd_function = Some \<lparr>fd_name = Some ''sh'', fd_arguments = Some ''}''\<rparr>\<rparr>]"

text \<open>
  A vendor chunk that carries the given tool-call fragments and nothing else, and the
  buffer entry that a creating fragment and the fragments after it add up to: the id of
  the creating fragment, and the name parts and the arguments parts of all of them, each
  concatenated in order.
\<close>

definition fragments_chunk :: "tool_call_delta list \<Rightarrow> openai_chunk" where
  "fragments_chunk fs =
     \<lparr>oc_delta = Some \<lparr>d_content = None, d_tool_calls = Some fs\<rparr>, oc_finish_reason = None\<rparr>"

definition entry_of :: "tool_call_delta \<Rightarrow> tool_call_delta list \<Rightarrow> tool_call" where
  "entry_of first later =
     \<lparr>tc_id = or_empty (tcd_id first),
      tc_function =
        \<lparr>fn_name = concat (map (\<lambda>t. or_empty (delta_name t)) (first # later)),
         fn_arguments = concat (map (\<lambda>t. or_empty (delta_arguments t)) (first # later))\<rparr>\<rparr>"

text \<open>
  Concrete surroundings for the examples: an environment over a world with nothing in it,
  given the script of the Grok client, the behaviour of the tools and the abort signal. Its
  MCP client has one registered tool, whose bridge throws.
\<close>

definition scripted ::
  "(grok_message list \<Rightarrow> delta option stream_item list) \<Rightarrow> (string \<Rightarrow> string \<Rightarrow> unit \<Rightarrow> outcome \<times> unit)
     \<Rightarrow> (nat \<Rightarrow> bool) \<Rightarrow> unit environment" where
  "scripted grok tool signal =
     \<lparr>tool_impl = tool,
      bridge_impl = (\<lambda>name arguments w. (BridgeThrows ''EACCES'', w)),
      mcp_tools = [''bash''],
      syntax_error = (\<lambda>text. ''Unexpected end of JSON input''),
      type_error = (\<lambda>property. ''Cannot read properties of undefined''),
      grok_chatStream = grok,
      countMessageTokens = length,
      estimateStreamingTokens = length,
      aborted = signal\<rparr>"

definition succeeds :: "string \<Rightarrow> string \<Rightarrow> unit \<Rightarrow> outcome \<times> unit" where
  "succeeds name arguments w =
     (Returns \<lparr>tr_success = True, tr_output = Some ''ok'', tr_error = None\<rparr>, w)"

definition throws :: "string \<Rightarrow> string \<Rightarrow> unit \<Rightarrow> outcome \<times> unit" where
  "throws name arguments w = (Throws ''ENOENT'', w)"

definition quiet :: "unit environment" where
  "quiet = scripted (\<lambda>history. []) succeeds (\<lambda>k. False)"

text \<open>A configuration of the Grok provider with the given key.\<close>

definition grok_config :: "string \<Rightarrow> (string \<rightharpoonup> config_value)" where
  "grok_config key =
     [''type'' \<mapsto> Str ''grok'', ''name'' \<mapsto> Str ''Grok'', ''apiKey'' \<mapsto> Str key,
      ''timeout'' \<mapsto> Num 360000]"

text \<open>The agent in the result of a stream, of a run of tools, and of the loop.\<close>

definition stream_state :: "'w stream_result \<Rightarrow> 'w agent" where
  "stream_state r =
     (case r of Completed acc ty st \<Rightarrow> st | StreamCancelled st \<Rightarrow> st | StreamFailed msg st \<Rightarrow> st)"

definition tools_state :: "'w tools_result \<Rightarrow> 'w agent" where
  "tools_state r = (case r of ToolsDone st \<Rightarrow> st | ToolsCancelled st \<Rightarrow> st)"

definition loop_state :: "'w loop_result \<Rightarrow> 'w agent" where
  "loop_state r = (case r of Returned st \<Rightarrow> st | LoopEnded n st \<Rightarrow> st | Thrown msg st \<Rightarrow> st)"

definition user_message :: "string \<Rightarrow> grok_message" where
  "user_message text =
     \<lparr>gm_role = User, gm_content = Some text, gm_tool_calls = None, gm_tool_call_id = None\<rparr>"

definition user_entry :: "string \<Rightarrow> chat_entry" where
  "user_entry text =
     \<lparr>ce_type = EntryUser, ce_content = text, ce_toolCalls = None, ce_toolCall = None,
      ce_toolResult = None\<rparr>"

text \<open>
  For the examples: the call of \<^verbatim>\<open>bash\<close> as the provider adapters deliver it and as the
  legacy loop accumulates it, two chunks of the Grok client (one with text, one with this
  call), and an agent that has done nothing yet.
\<close>

definition bash_call :: tool_call where
  "bash_call =
     \<lparr>tc_id = ''call_1'',
      tc_function = \<lparr>fn_name = ''bash'', fn_arguments = ''{\"command\":\"ls\"}''\<rparr>\<rparr>"

definition grok_bash_call :: grok_tool_call where
  "grok_bash_call =
     \<lparr>gtc_index = None, gtc_id = Some ''call_1'',
      gtc_function = Some \<lparr>fd_name = Some ''bash'', fd_arguments = Some ''{\"command\":\"ls\"}''\<rparr>\<rparr>"

definition call_chunk :: "delta option" where
  "call_chunk = Some \<lparr>d_content = None, d_tool_calls = Some
     [\<lparr>tcd_index = 0, tcd_id = Some ''call_1'',
       tcd_function = Some \<lparr>fd_name = Some ''bash'', fd_arguments = Some ''{\"command\":\"ls\"}''\<rparr>\<rparr>]\<rparr>"

definition hello_chunk :: "delta option" where
  "hello_chunk = Some \<lparr>d_content = Some ''Hi'', d_tool_calls = None\<rparr>"

definition blank :: "unit agent" where
  "blank = \<lparr>provider = OpenAIProvider (\<lambda>history. []), messages = [], chatHistory = [],
            legacyMessages = [], world = (), yielded = [], yielded_ui = [], emitted = [],
            abort_checks = 0, requests = [], grok_requests = [], dispatched = [],
            dispatched_legacy = []\<rparr>"

text \<open>
  A Grok client that answers the first request with the call of \<^verbatim>\<open>bash\<close> and every later
  one with text.
\<close>

definition call_then_text :: "grok_message list \<Rightarrow> delta option stream_item list" where
  "call_then_text history = (if length history < 2 then [Item call_chunk] else [Item hello_chunk])"

text \<open>
  What the two logs of dispatches are compared with. Given the history at the first
  dispatch, the dispatches \<open>ds\<close> (each call with the history at that moment) and the
  messages \<open>new\<close> appended since are in order for the calls when the \<open>k\<close>-th dispatch is of
  the \<open>k\<close>-th call, the \<open>k\<close>-th new message answers it, and the history at the \<open>k\<close>-th
  dispatch is the first history followed by the answers to all calls before it.
\<close>

fun in_order ::
  "('c \<Rightarrow> 'm \<Rightarrow> bool) \<Rightarrow> 'm list \<Rightarrow> ('c \<times> 'm list) list \<Rightarrow> 'm list \<Rightarrow> 'c list \<Rightarrow> bool" where
  "in_order answers history ds new [] = (ds = [] \<and> new = [])"
| "in_order answers history ds new (call # calls) =
     (case (ds, new) of
        ((c, h) # ds', m # new') \<Rightarrow>
          c = call \<and> h = history \<and> answers call m \<and> in_order answers (history @ [m]) ds' new' calls
      | _ \<Rightarrow> False)"

definition answers :: "tool_call \<Rightarrow> message \<Rightarrow> bool" where
  "answers call m = (msg_role m = Tool \<and> msg_tool_call_id m = Some (tc_id call))"

definition answers_legacy :: "grok_tool_call \<Rightarrow> grok_message \<Rightarrow> bool" where
  "answers_legacy call m = (gm_role m = Tool \<and> gm_tool_call_id m = gtc_id call)"

text \<open>
  A provider stub that answers every request with one more tool call, and a chunk of the
  Grok client that carries the given tool-call fragments.
\<close>

definition runaway :: "tool_call \<Rightarrow> llm_provider" where
  "runaway call =
     \<lparr>prov_name = ''stub'', prov_chatStream = (\<lambda>history. [Item (ToolCalls [call])])\<rparr>"

text \<open>The agent a run ends with, and an agent in the middle of a session.\<close>

definition run_state :: "'a run \<Rightarrow> 'a" where
  "run_state r = (case r of Finished s \<Rightarrow> s | OutOfFuel s \<Rightarrow> s)"

definition mid_session :: "unit agent" where
  "mid_session =
     blank\<lparr>messages :=
             [\<lparr>msg_role = User, msg_content = Some ''run ls'', msg_tool_calls = None,
               msg_tool_call_id = None\<rparr>,
              \<lparr>msg_role = Assistant, msg_content = Some [], msg_tool_calls = Some [bash_call],
               msg_tool_call_id = None\<rparr>,
              \<lparr>msg_role = Tool, msg_content = Some ''ok'', msg_tool_calls = None,
               msg_tool_call_id = Some ''call_1''\<rparr>],
           legacyMessages :=
             [user_message ''run ls'',
              \<lparr>gm_role = Assistant, gm_content = Some [], gm_tool_calls = Some [grok_bash_call],
               gm_tool_call_id = None\<rparr>,
              \<lparr>gm_role = Tool, gm_content = Some ''ok'', gm_tool_calls = None,
               gm_tool_call_id = Some ''call_1''\<rparr>]\<rparr>"

text \<open>
  The vendor stream of the example: the text \<^verbatim>\<open>Hello\<close>, a call of \<^verbatim>\<open>bash\<close> whose arguments
  \<^verbatim>\<open>{"command":"ls"}\<close> arrive in two fragments for index 0, and the end of the response. A
  vendor that answers the first request of a session with it, and every later request
  with the end of the response alone.
\<close>

definition done_chunk :: openai_chunk where
  "done_chunk = \<lparr>oc_delta = Some \<lparr>d_content = None, d_tool_calls = None\<rparr>,
                 oc_finish_reason = Some ''stop''\<rparr>"

definition scenario :: "openai_chunk stream_item list" where
  "scenario =
     [Item \<lparr>oc_delta = Some \<lparr>d_content = Some ''Hello'', d_tool_calls = None\<rparr>,
            oc_finish_reason = None\<rparr>,
      Item (fragment 0 None (Some ''bash'') (Some ''{\"comm'')),
      Item (fragment 0 None None (Some ''and\":\"ls\"}'')),
      Item done_chunk]"

definition scenario_vendor :: "message list \<Rightarrow> openai_chunk stream_item list" where
  "scenario_vendor history = (if length history = 1 then scenario else [Item done_chunk])"

section \<open>The JSON automaton and the completeness check\<close>

subsection \<open>After a complete object only whitespace is accepted\<close>

lemma json_run_append: "json_run st (xs @ ys) = json_run (json_run st xs) ys"
  by (simp add: json_run_def)

lemma json_run_Cons: "json_run st (x # xs) = json_run (json_step st x) xs"
  by (simp add: json_run_def)

lemma json_run_Nil: "json_run st [] = st"
  by (simp add: json_run_def)

lemma after_value_open: "value_open (after_value stack c)"
  by (auto simp: value_open_def after_value_def split: list.splits container.splits)

lemma start_value_open: "stack \<noteq> [] \<Longrightarrow> value_open (start_value stack c)"
  by (auto simp: value_open_def start_value_def)

lemma json_step_open: "value_open st \<Longrightarrow> value_open (json_step st c)"
proof (cases "snd st = []")
  case True
  assume "value_open st"
  with True have "fst st = AfterValue \<or> fst st = Reject" by (simp add: value_open_def)
  then show ?thesis using True
    by (cases st) (auto simp: after_value_open, simp add: value_open_def)
next
  case False
  then obtain m stack where st: "st = (m, stack)" and ne: "stack \<noteq> []" by (cases st) auto
  show ?thesis unfolding st using ne
    by (cases "((m, stack), c)" rule: json_step.cases)
       (auto simp: after_value_open start_value_open, auto simp: value_open_def)
qed

lemma json_run_open: "value_open st \<Longrightarrow> value_open (json_run st s)"
  by (induction s arbitrary: st) (auto simp: json_run_Nil json_run_Cons json_step_open)

lemma json_run_Reject: "json_run (Reject, stack) s = (Reject, stack)"
  by (induction s) (auto simp: json_run_Nil json_run_Cons)

lemma after_top_level:
  "json_accepting (json_run (AfterValue, []) r) \<Longrightarrow> \<forall>c\<in>set r. json_ws c"
proof (induction r)
  case Nil
  then show ?case by simp
next
  case (Cons c r)
  show ?case
  proof (cases "json_ws c")
    case True
    with Cons show ?thesis by (simp add: json_run_Cons after_value_def)
  next
    case False
    then have "json_step (AfterValue, []) c = (Reject, [])"
      by (simp add: after_value_def)
    with Cons.prems show ?thesis
      by (simp add: json_run_Cons json_run_Reject json_accepting_def)
  qed
qed

lemma object_text_prefix_free:
  assumes "JSON_parse_ok q" and "startsWith q CHR ''{''" and "JSON_parse_ok (q @ r)"
  shows "\<forall>c\<in>set r. json_ws c"
proof -
  from assms(2) obtain q' where q: "q = CHR ''{'' # q'"
    by (auto simp: startsWith_def split: list.splits)
  let ?st = "json_run (ObjectStart, [InObject]) q'"
  have run_q: "json_run (ExpectValue, []) q = ?st"
    by (simp add: q json_run_Cons json_ws_def start_value_def)
  have "value_open ?st"
    by (rule json_run_open) (simp add: value_open_def)
  moreover have "json_accepting ?st"
    using assms(1) by (simp add: JSON_parse_ok_def run_q)
  ultimately have "?st = (AfterValue, [])"
    by (cases ?st) (auto simp: value_open_def json_accepting_def)
  with assms(3) show ?thesis
    using after_top_level [of r]
    by (simp add: JSON_parse_ok_def json_run_append run_q)
qed

subsection \<open>Trimming\<close>

lemma dropWhile_stop: "\<forall>c\<in>set w. P c \<Longrightarrow> \<not> P a \<Longrightarrow> dropWhile P (w @ a # l) = a # l"
  by (induction w) auto

lemma takeWhile_stop: "\<forall>c\<in>set w. P c \<Longrightarrow> \<not> P a \<Longrightarrow> takeWhile P (w @ a # l) = w"
  by (induction w) auto

lemma trim_framed:
  assumes "\<forall>c\<in>set w1. js_whitespace c" and "\<forall>c\<in>set w2. js_whitespace c"
    and "m \<noteq> []" and "\<not> js_whitespace (hd m)" and "\<not> js_whitespace (last m)"
  shows "trim (w1 @ m @ w2) = m"
proof -
  have a: "dropWhile js_whitespace (w1 @ m @ w2) = m @ w2"
    using assms(1,3,4) by (cases m) (simp_all add: dropWhile_stop)
  have "dropWhile js_whitespace (rev w2 @ rev m) = rev m"
  proof -
    obtain a l where rm: "rev m = a # l" using assms(3) by (cases "rev m") auto
    then have "a = last m" by (metis hd_rev list.sel(1))
    then have na: "\<not> js_whitespace a" using assms(5) by simp
    have "\<forall>c\<in>set (rev w2). js_whitespace c" using assms(2) by simp
    then show ?thesis unfolding rm using na by (rule dropWhile_stop)
  qed
  then show ?thesis by (simp add: trim_def a)
qed

lemma trim_frame:
  "\<exists>w1 w2. s = w1 @ trim s @ w2 \<and> (\<forall>c\<in>set w1. js_whitespace c) \<and> (\<forall>c\<in>set w2. js_whitespace c)"
proof -
  let ?u = "dropWhile js_whitespace s"
  let ?w1 = "takeWhile js_whitespace s"
  let ?w2 = "rev (takeWhile js_whitespace (rev ?u))"
  have "?u = trim s @ ?w2"
    unfolding trim_def
    by (metis rev_append rev_rev_ident takeWhile_dropWhile_id)
  then have "s = ?w1 @ trim s @ ?w2"
    by (metis takeWhile_dropWhile_id)
  moreover have "\<forall>c\<in>set ?w1. js_whitespace c" by (auto dest: set_takeWhileD)
  moreover have "\<forall>c\<in>set ?w2. js_whitespace c" by (auto dest: set_takeWhileD)
  ultimately show ?thesis by blast
qed

lemma brace_not_whitespace [simp]:
  "\<not> js_whitespace CHR ''{''" "\<not> js_whitespace CHR ''}''" "\<not> json_ws CHR ''}''"
  by (simp_all add: js_whitespace_def json_ws_def)

lemma ws_prefix_unique:
  assumes "v1 @ a # x = w1 @ b # y"
    and "\<forall>c\<in>set v1. P c" and "\<forall>c\<in>set w1. P c" and "\<not> P a" and "\<not> P b"
  shows "v1 = w1 \<and> a # x = b # y"
proof -
  have "takeWhile P (v1 @ a # x) = v1" using assms(2,4) by (rule takeWhile_stop)
  moreover have "takeWhile P (w1 @ b # y) = w1" using assms(3,5) by (rule takeWhile_stop)
  ultimately have "v1 = w1" using assms(1) by simp
  with assms(1) show ?thesis by simp
qed

subsection \<open>No proper prefix of a complete arguments text is complete\<close>

lemma complete_arguments_iff:
  "complete_arguments s \<longleftrightarrow>
     startsWith (trim s) CHR ''{'' \<and> endsWith (trim s) CHR ''}'' \<and>
     fst (scan (trim s)) = 0 \<and> \<not> fst (snd (scan (trim s))) \<and> JSON_parse_ok (trim s)"
  by (auto simp: complete_arguments_def Let_def split: prod.splits)

lemma complete_arguments_prefix_free:
  assumes full: "complete_arguments args" and tail: "endsWith args CHR ''}''"
    and split: "args = p @ r" and rest: "r \<noteq> []"
  shows "\<not> complete_arguments p"
proof
  assume part: "complete_arguments p"
  define t where "t = trim args"
  define q where "q = trim p"
  have full': "startsWith t CHR ''{''" "endsWith t CHR ''}''" "JSON_parse_ok t"
    using full by (simp_all add: complete_arguments_iff t_def)
  have part': "startsWith q CHR ''{''" "JSON_parse_ok q"
    using part by (simp_all add: complete_arguments_iff q_def)
  obtain t' where t: "t = CHR ''{'' # t'"
    using full'(1) by (auto simp: startsWith_def split: list.splits)
  obtain q' where q: "q = CHR ''{'' # q'"
    using part'(1) by (auto simp: startsWith_def split: list.splits)
  obtain w1 w2 where args: "w1 @ t @ w2 = args"
    and w1: "\<forall>c\<in>set w1. js_whitespace c" and w2: "\<forall>c\<in>set w2. js_whitespace c"
    using trim_frame [of args] unfolding t_def by metis
  have "w2 = []"
  proof (rule ccontr)
    assume ne: "w2 \<noteq> []"
    have "last (w1 @ t @ w2) = last w2" using ne by simp
    then have "last args = last w2" by (simp only: args)
    moreover have "last w2 \<in> set w2" using ne by simp
    ultimately show False using tail w2 by (auto simp: endsWith_def)
  qed
  with args have args': "w1 @ t = args" by simp
  obtain v1 v2 where p: "v1 @ q @ v2 = p"
    and v1: "\<forall>c\<in>set v1. js_whitespace c" and v2: "\<forall>c\<in>set v2. js_whitespace c"
    using trim_frame [of p] unfolding q_def by metis
  have "(v1 @ q @ v2) @ r = w1 @ t"
    by (simp only: p args' split)
  then have "v1 @ CHR ''{'' # (q' @ v2 @ r) = w1 @ CHR ''{'' # t'"
    by (simp add: q t)
  then have "CHR ''{'' # (q' @ v2 @ r) = CHR ''{'' # t'"
    using ws_prefix_unique [of v1 _ _ w1 _ _ js_whitespace] v1 w1 by simp
  then have whole: "t = q @ (v2 @ r)" by (simp add: q t)
  have "JSON_parse_ok (q @ (v2 @ r))"
    using full'(3) by (simp only: whole)
  with part'(2,1) have "\<forall>c\<in>set (v2 @ r). json_ws c"
    by (rule object_text_prefix_free)
  moreover have "last (v2 @ r) = CHR ''}''"
    using full'(2) rest unfolding whole by (simp add: endsWith_def)
  moreover have "last (v2 @ r) \<in> set (v2 @ r)" using rest by (intro last_in_set) simp
  ultimately show False by (metis brace_not_whitespace(3))
qed

subsection \<open>The brace scan agrees with the automaton\<close>

lemmas mode_defs = outside_string_def in_string_mode_def escape_mode_def plain_literal_def

lemma step_backslash:
  "outside_string m \<Longrightarrow> fst (json_step (m, stack) CHR 0x5C) = Reject"
  by (cases "((m, stack), CHR 0x5C)" rule: json_step.cases)
     (auto simp: mode_defs after_value_def start_value_def json_ws_def digit_def digit19_def
        split: list.splits container.splits)

lemma step_quote:
  "outside_string m \<Longrightarrow>
   fst (json_step (m, stack) CHR 0x22) = Reject \<or>
   (\<exists>k. json_step (m, stack) CHR 0x22 = (InString k, stack))"
  by (cases "((m, stack), CHR 0x22)" rule: json_step.cases)
     (auto simp: mode_defs after_value_def start_value_def json_ws_def digit_def digit19_def
        split: list.splits container.splits)

lemma step_open_brace:
  "outside_string m \<Longrightarrow>
   fst (json_step (m, stack) CHR ''{'') = Reject \<or>
   json_step (m, stack) CHR ''{'' = (ObjectStart, InObject # stack)"
  by (cases "((m, stack), CHR ''{'')" rule: json_step.cases)
     (auto simp: mode_defs after_value_def start_value_def json_ws_def digit_def digit19_def
        split: list.splits container.splits)

lemma step_close_brace:
  "outside_string m \<Longrightarrow>
   fst (json_step (m, stack) CHR ''}'') = Reject \<or>
   (\<exists>rest. stack = InObject # rest \<and> json_step (m, stack) CHR ''}'' = (AfterValue, rest))"
  by (cases "((m, stack), CHR ''}'')" rule: json_step.cases)
     (auto simp: mode_defs after_value_def start_value_def json_ws_def digit_def digit19_def
        split: list.splits container.splits)

lemma after_value_other: "c \<noteq> CHR ''}'' \<Longrightarrow> keeps_braces stack (after_value stack c)"
  by (auto simp: keeps_braces_def mode_defs after_value_def split: list.splits container.splits)

lemma start_value_other:
  "c \<noteq> CHR ''{'' \<Longrightarrow> c \<noteq> CHR 0x22 \<Longrightarrow> keeps_braces stack (start_value stack c)"
  by (auto simp: keeps_braces_def mode_defs start_value_def)

lemma keeps_braces_same:
  "outside_string m' \<Longrightarrow> keeps_braces stack (m', stack)"
  by (simp add: keeps_braces_def)

lemma keeps_braces_Reject: "keeps_braces stack (Reject, s)"
  by (simp add: keeps_braces_def)

lemma outside_consts:
  "outside_string ExpectValue" "outside_string ArrayStart" "outside_string ObjectStart"
  "outside_string ExpectKey" "outside_string ExpectColon" "outside_string NumMinus"
  "outside_string NumZero" "outside_string NumInt" "outside_string NumDot"
  "outside_string NumFrac" "outside_string NumE" "outside_string NumESign"
  "outside_string NumExp" "outside_string AfterValue"
  by (simp_all add: mode_defs)

lemma not_outside:
  "\<not> outside_string (InString k)" "\<not> outside_string (InEscape k)"
  "\<not> outside_string (InUnicode k n)" "\<not> outside_string Reject"
  by (simp_all add: mode_defs)

lemma step_other:
  assumes "outside_string m" and "c \<noteq> CHR 0x5C" and "c \<noteq> CHR 0x22"
    and "c \<noteq> CHR ''{''" and "c \<noteq> CHR ''}''"
  shows "keeps_braces stack (json_step (m, stack) c)"
proof (cases m)
  case (Literal s)
  show ?thesis
  proof (cases s)
    case Nil
    then show ?thesis unfolding Literal by (simp add: keeps_braces_Reject)
  next
    case (Cons x xs)
    have "set (x # xs) \<subseteq> set ''aelrsu''"
      using assms(1) unfolding Literal Cons outside_string_def plain_literal_def by simp
    then have "set xs \<subseteq> set ''aelrsu''" by simp
    then have "outside_string (Literal xs)"
      unfolding outside_string_def plain_literal_def in_string_mode_def by simp
    moreover have "outside_string AfterValue" by (simp add: mode_defs)
    ultimately show ?thesis unfolding Literal Cons
      by (simp add: keeps_braces_same keeps_braces_Reject)
  qed
qed (use assms in \<open>simp_all add: after_value_other start_value_other keeps_braces_Reject
      keeps_braces_same outside_consts not_outside\<close>)

lemma escape_in_string: "escape_mode m \<Longrightarrow> in_string_mode m"
  by (cases m) (auto simp: in_string_mode_def escape_mode_def)

lemma hexdigit_plain: "hexdigit c \<Longrightarrow> c \<noteq> CHR 0x5C \<and> c \<noteq> CHR 0x22"
  by (auto simp: hexdigit_def digit_def digit19_def)

lemma step_agrees_InString:
  "agrees (InString k, stack) sc \<Longrightarrow> agrees (json_step (InString k, stack) c) (scan_step sc c)"
  by (cases sc) (auto simp: agrees_def mode_defs)

lemma step_agrees_InEscape:
  "agrees (InEscape k, stack) sc \<Longrightarrow> agrees (json_step (InEscape k, stack) c) (scan_step sc c)"
  by (cases sc) (simp add: agrees_def mode_defs)

lemma step_agrees_InUnicode:
  "agrees (InUnicode k n, stack) sc \<Longrightarrow>
   agrees (json_step (InUnicode k n, stack) c) (scan_step sc c)"
  using hexdigit_plain [of c] by (cases sc) (auto simp: agrees_def mode_defs)

lemma json_step_agrees: "agrees st sc \<Longrightarrow> agrees (json_step st c) (scan_step sc c)"
proof (cases "fst st = Reject")
  case True
  then show ?thesis by (cases st) (simp add: agrees_def)
next
  case False
  assume a: "agrees st sc"
  obtain m stack where st: "st = (m, stack)" by (cases st)
  obtain bc ins esc where sc: "sc = (bc, ins, esc)" by (cases sc)
  show ?thesis
  proof (cases "in_string_mode m")
    case True
    then show ?thesis
    proof (cases m)
      case (InString k)
      with a show ?thesis unfolding st by (simp only: step_agrees_InString)
    next
      case (InEscape k)
      with a show ?thesis unfolding st by (simp only: step_agrees_InEscape)
    next
      case (InUnicode k n)
      with a show ?thesis unfolding st by (simp only: step_agrees_InUnicode)
    qed (simp_all add: in_string_mode_def)
  next
    case nostr: False
    then have noesc: "\<not> escape_mode m"
      by (cases m) (auto simp: in_string_mode_def escape_mode_def)
    have out: "outside_string m"
      using a False nostr unfolding st by (auto simp: agrees_def outside_string_def)
    have base: "bc = int (count_list stack InObject)" "\<not> ins" "\<not> esc"
      using a False nostr noesc unfolding st sc by (auto simp: agrees_def)
    consider (bs) "c = CHR 0x5C" | (qu) "c = CHR 0x22" | (ob) "c = CHR ''{''" | (cb) "c = CHR ''}''"
      | (other) "c \<noteq> CHR 0x5C" "c \<noteq> CHR 0x22" "c \<noteq> CHR ''{''" "c \<noteq> CHR ''}''"
      by blast
    then show ?thesis
    proof cases
      case bs
      with step_backslash [OF out, of stack] show ?thesis
        unfolding st by (cases "json_step (m, stack) CHR 0x5C") (simp add: agrees_def)
    next
      case qu
      with step_quote [OF out, of stack] base show ?thesis
        unfolding st sc by (auto simp: agrees_def mode_defs)
    next
      case ob
      with step_open_brace [OF out, of stack] base show ?thesis
        unfolding st sc by (auto simp: agrees_def mode_defs)
    next
      case cb
      with step_close_brace [OF out, of stack] base show ?thesis
        unfolding st sc by (auto simp: agrees_def mode_defs)
    next
      case other
      with step_other [OF out, of c stack] base show ?thesis
        unfolding st sc
        by (cases "json_step (m, stack) c")
           (auto simp: agrees_def keeps_braces_def outside_string_def dest: escape_in_string)
    qed
  qed
qed

lemma json_run_agrees: "agrees st sc \<Longrightarrow> agrees (json_run st s) (foldl scan_step sc s)"
  by (induction s arbitrary: st sc) (simp_all add: json_run_Nil json_run_Cons json_step_agrees)

lemma parsed_text_balanced:
  assumes "JSON_parse_ok t"
  shows "fst (scan t) = 0 \<and> \<not> fst (snd (scan t))"
proof -
  have "agrees (ExpectValue, []) (0, False, False)"
    by (simp add: agrees_def mode_defs)
  from json_run_agrees [OF this, of t] assms show ?thesis
    by (cases "json_run (ExpectValue, []) t")
       (auto simp: JSON_parse_ok_def json_accepting_def scan_def agrees_def mode_defs)
qed

lemma trim_idem_ends:
  assumes "endsWith args c" and "\<not> js_whitespace c"
  shows "endsWith (trim args) c"
proof -
  obtain w1 w2 where a: "w1 @ trim args @ w2 = args"
    and w1: "\<forall>c\<in>set w1. js_whitespace c" and w2: "\<forall>c\<in>set w2. js_whitespace c"
    using trim_frame [of args] by metis
  have ne: "args \<noteq> []" and l: "last args = c" using assms(1) by (auto simp: endsWith_def)
  have "w2 = []"
  proof (rule ccontr)
    assume n: "w2 \<noteq> []"
    then have "last (w1 @ trim args @ w2) = last w2" by simp
    then have "last w2 = c" using l by (simp only: a)
    moreover have "last w2 \<in> set w2" using n by simp
    ultimately show False using w2 assms(2) by auto
  qed
  with a have a': "w1 @ trim args = args" by simp
  have "trim args \<noteq> []"
  proof
    assume e: "trim args = []"
    with a' have "w1 = args" by simp
    with w1 have "\<forall>c\<in>set args. js_whitespace c" by simp
    moreover have "last args \<in> set args" using ne by simp
    ultimately show False using l assms(2) by auto
  qed
  moreover then have "last (w1 @ trim args) = last (trim args)" by simp
  then have "last (trim args) = c" using l by (simp only: a')
  ultimately show ?thesis by (simp add: endsWith_def)
qed

lemma object_text_complete:
  assumes "JSON_parse_ok (trim args)" and "startsWith (trim args) CHR ''{''"
    and "endsWith args CHR ''}''"
  shows "complete_arguments args"
  using assms parsed_text_balanced [OF assms(1)] trim_idem_ends [OF assms(3)]
  by (simp add: complete_arguments_iff)

section \<open>Reassembly of one tool call from its fragments\<close>

lemma step_first:
  "convertOpenAIStreamChunk (fragment i idp (Some name) (Some p)) [] =
     (if is_complete (mk (or_empty idp) name p)
      then (Some (ToolCalls [mk (or_empty idp) name p]), [])
      else (None, [(i, mk (or_empty idp) name p)]))"
  by (simp add: convertOpenAIStreamChunk_def fragment_def truthy_def convert_tool_calls_def
      accumulate_def delta_name_def delta_arguments_def or_empty_def)

lemma step_pending:
  "convertOpenAIStreamChunk (fragment i None None (Some p)) [(i, mk idv name a)] =
     (if is_complete (mk idv name (a @ p))
      then (Some (ToolCalls [mk idv name (a @ p)]), [])
      else (None, [(i, mk idv name (a @ p))]))"
  by (simp add: convertOpenAIStreamChunk_def fragment_def truthy_def convert_tool_calls_def
      accumulate_def delta_name_def delta_arguments_def)

lemma not_complete_unnamed: "fn_name (tc_function tc) = [] \<Longrightarrow> \<not> is_complete tc"
  by (simp add: is_complete_def)

lemma step_junk:
  assumes "buf = [] \<or> (\<exists>J. buf = [(i, J)] \<and> fn_name (tc_function J) = [])"
  shows "\<exists>J'. convertOpenAIStreamChunk (fragment i None None (Some [])) buf = (None, [(i, J')])
           \<and> fn_name (tc_function J') = []"
  using assms
  by (auto simp: convertOpenAIStreamChunk_def fragment_def truthy_def convert_tool_calls_def
      accumulate_def delta_name_def delta_arguments_def or_empty_def not_complete_unnamed)

lemma junk_run:
  assumes "buf = [] \<or> (\<exists>J. buf = [(i, J)] \<and> fn_name (tc_function J) = [])"
    and "\<forall>p\<in>set ps. p = []"
  shows "fst (convert_stream (map (\<lambda>p. Item (fragment i None None (Some p))) ps) buf) = []"
  using assms
proof (induction ps arbitrary: buf)
  case Nil
  then show ?case by simp
next
  case (Cons p ps)
  then have p: "p = []" by simp
  from step_junk [OF Cons.prems(1)] obtain J' where
    J': "convertOpenAIStreamChunk (fragment i None None (Some [])) buf = (None, [(i, J')])"
      "fn_name (tc_function J') = []" by blast
  have "fst (convert_stream (map (\<lambda>p. Item (fragment i None None (Some p))) ps) [(i, J')]) = []"
    using Cons.prems(2) J'(2) by (intro Cons.IH) auto
  then show ?case by (simp add: p J'(1) split: prod.splits)
qed

lemma complete_arguments_nonempty: "complete_arguments args \<Longrightarrow> args \<noteq> []"
  by (auto simp: complete_arguments_iff trim_def startsWith_def)

lemma pending_run:
  assumes "complete_arguments args" and "endsWith args CHR ''}''" and "name \<noteq> []"
    and "a @ concat ps = args" and "a \<noteq> args"
  shows "fst (convert_stream (map (\<lambda>p. Item (fragment i None None (Some p))) ps) [(i, mk idv name a)])
           = [ToolCalls [mk idv name args]]
         \<and> (last ps \<noteq> [] \<longrightarrow>
              snd (convert_stream (map (\<lambda>p. Item (fragment i None None (Some p))) ps) [(i, mk idv name a)]) = [])"
  using assms(4,5)
proof (induction ps arbitrary: a)
  case Nil
  then show ?case by simp
next
  case (Cons p ps)
  let ?rest = "map (\<lambda>p. Item (fragment i None None (Some p))) ps"
  show ?case
  proof (cases "a @ p = args")
    case True
    then have emits: "is_complete (mk idv name (a @ p))"
      using assms(1,3) complete_arguments_nonempty [OF assms(1)] by (simp add: is_complete_def)
    from True Cons.prems(1) have empties: "\<forall>q\<in>set ps. q = []" by auto
    then have "fst (convert_stream ?rest []) = []" by (intro junk_run) auto
    moreover have "ps \<noteq> [] \<Longrightarrow> last ps = []" using empties by auto
    ultimately show ?thesis
      using emits True by (auto simp: step_pending split: prod.splits)
  next
    case False
    have "concat ps \<noteq> []" using False Cons.prems(1) by auto
    moreover have "args = (a @ p) @ concat ps" using Cons.prems(1) by simp
    ultimately have "\<not> complete_arguments (a @ p)"
      using complete_arguments_prefix_free [OF assms(1,2)] by blast
    then have pend: "\<not> is_complete (mk idv name (a @ p))" by (simp add: is_complete_def)
    have ne: "ps \<noteq> []" using \<open>concat ps \<noteq> []\<close> by auto
    have "(a @ p) @ concat ps = args" using Cons.prems(1) by simp
    from Cons.IH [OF this False] show ?thesis
      using pend ne by (auto simp: step_pending split: prod.splits)
  qed
qed

subsection \<open>The emitted call does not depend on where the arguments are split\<close>

text \<open>
  Claim C2, as amended. Let the arguments of a tool call be a JSON object text (after
  trimming, \<^verbatim>\<open>JSON.parse\<close> accepts it and it begins with an opening brace) that ends with its
  closing brace, so that no whitespace follows it, and let the call have a non-empty name.
  However the text is cut into parts, sent as fragments for one index in their order, the
  adapter yields exactly one chunk of tool calls, holding exactly this call with the
  concatenation of the parts as its arguments; and if the last part is not empty, the
  buffer is empty when the stream ends: the call was removed when it was emitted.
\<close>

theorem reassembly_independent_of_split:
  assumes "JSON_parse_ok (trim args)" and "startsWith (trim args) CHR ''{''"
    and "endsWith args CHR ''}''" and "name \<noteq> []" and "concat parts = args"
  shows "openai_chatStream (split_stream i idPart name parts) =
           [ToolCalls [\<lparr>tc_id = or_empty idPart,
              tc_function = \<lparr>fn_name = name, fn_arguments = args\<rparr>\<rparr>]]
         \<and> (last parts \<noteq> [] \<longrightarrow> snd (convert_stream (split_stream i idPart name parts) []) = [])"
proof -
  have full: "complete_arguments args" using assms(1-3) by (rule object_text_complete)
  then have ne: "args \<noteq> []" by (rule complete_arguments_nonempty)
  then obtain part rest where parts: "parts = part # rest"
    using assms(5) by (cases parts) auto
  let ?tail = "map (\<lambda>p. Item (fragment i None None (Some p))) rest"
  let ?mk = "\<lambda>a. mk (or_empty idPart) name a"
  show ?thesis
  proof (cases "part = args")
    case True
    then have emits: "is_complete (?mk part)"
      using full ne assms(4) by (simp add: is_complete_def)
    from True assms(5) have empties: "\<forall>q\<in>set rest. q = []" by (auto simp: parts)
    then have "fst (convert_stream ?tail []) = []" by (intro junk_run) auto
    moreover have "rest \<noteq> [] \<Longrightarrow> last rest = []" using empties by auto
    ultimately show ?thesis
      using emits True
      by (auto simp: openai_chatStream_def split_stream_def parts step_first split: prod.splits)
  next
    case False
    have cat: "part @ concat rest = args" using assms(5) by (simp add: parts)
    then have "concat rest \<noteq> []" using False by auto
    then have "\<not> complete_arguments part"
      using complete_arguments_prefix_free [OF full assms(3), of part "concat rest"] cat by simp
    then have pend: "\<not> is_complete (?mk part)" by (simp add: is_complete_def)
    have nr: "rest \<noteq> []" using \<open>concat rest \<noteq> []\<close> by auto
    from pending_run [OF full assms(3,4) cat False, of i "or_empty idPart"]
    show ?thesis
      using pend nr
      by (auto simp: openai_chatStream_def split_stream_def parts step_first split: prod.splits)
  qed
qed

theorem reassembly_independent_of_split_witness:
  "JSON_parse_ok (trim ''{\"a\":1}'') \<and> startsWith (trim ''{\"a\":1}'') CHR ''{''
   \<and> endsWith ''{\"a\":1}'' CHR ''}'' \<and> ''f'' \<noteq> [] \<and> concat [''{\"a'', ''\":1}''] = ''{\"a\":1}''
   \<and> openai_chatStream (split_stream 0 (Some ''call_1'') ''f'' [''{\"a'', ''\":1}'']) =
        [ToolCalls [\<lparr>tc_id = ''call_1'',
           tc_function = \<lparr>fn_name = ''f'', fn_arguments = ''{\"a\":1}''\<rparr>\<rparr>]]
   \<and> last [''{\"a'', ''\":1}''] \<noteq> []
   \<and> snd (convert_stream (split_stream 0 (Some ''call_1'') ''f'' [''{\"a'', ''\":1}'']) []) = []"
proof -
  have h1: "JSON_parse_ok (trim ''{\"a\":1}'')" by code_simp
  have h2: "startsWith (trim ''{\"a\":1}'') CHR ''{''" by code_simp
  have h3: "endsWith ''{\"a\":1}'' CHR ''}''" by code_simp
  have h4: "''f'' \<noteq> []" by simp
  have h5: "concat [''{\"a'', ''\":1}''] = ''{\"a\":1}''" by simp
  from reassembly_independent_of_split [OF h1 h2 h3 h4 h5, of 0 "Some ''call_1''"]
  show ?thesis using h1 h2 h3 by (simp add: or_empty_def)
qed

text \<open>
  The claim as stated fails on two kinds of valid JSON. A text that is not an object is
  never emitted; and when whitespace follows the object, the call is emitted as soon as
  the closing brace has arrived, so the emitted arguments depend on whether the whitespace
  comes in the same fragment.
\<close>

theorem reassembly_split_counterexample:
  "JSON_parse_ok ''[1]'' \<and> openai_chatStream (split_stream 0 None ''f'' [''[1]'']) = []
   \<and> JSON_parse_ok ''{\"a\":1} ''
   \<and> openai_chatStream (split_stream 0 None ''f'' [''{\"a\":1}'', '' '']) =
        [ToolCalls [\<lparr>tc_id = [], tc_function = \<lparr>fn_name = ''f'', fn_arguments = ''{\"a\":1}''\<rparr>\<rparr>]]
   \<and> openai_chatStream (split_stream 0 None ''f'' [''{\"a\":1} '']) =
        [ToolCalls [\<lparr>tc_id = [], tc_function = \<lparr>fn_name = ''f'', fn_arguments = ''{\"a\":1} ''\<rparr>\<rparr>]]"
  by code_simp

section \<open>Accumulation of the fragments for one index\<close>

lemma accumulate_created:
  "accumulate [] first = [(tcd_index first, entry_of first [])]"
  by (simp add: accumulate_def entry_of_def)

lemma accumulate_pending:
  "tcd_index t = i \<Longrightarrow> accumulate [(i, entry_of first later)] t = [(i, entry_of first (later @ [t]))]"
  by (simp add: accumulate_def entry_of_def truthy_def or_empty_def split: option.splits)

lemma accumulate_group:
  "\<forall>t\<in>set g. tcd_index t = i \<Longrightarrow>
   foldl accumulate [(i, entry_of first later)] g = [(i, entry_of first (later @ g))]"
proof (induction g arbitrary: later)
  case Nil
  then show ?case by simp
next
  case (Cons t g)
  then have "foldl accumulate [(i, entry_of first (later @ [t]))] g
               = [(i, entry_of first ((later @ [t]) @ g))]"
    by (intro Cons.IH) simp
  with Cons.prems show ?case by (simp add: accumulate_pending)
qed

lemma chunk_pending:
  assumes "\<forall>t\<in>set g. tcd_index t = i"
  shows "convertOpenAIStreamChunk (fragments_chunk g) [(i, entry_of first later)] =
           (if is_complete (entry_of first (later @ g))
            then (Some (ToolCalls [entry_of first (later @ g)]), [])
            else (None, [(i, entry_of first (later @ g))]))"
  using accumulate_group [OF assms, of first later]
  by (simp add: convertOpenAIStreamChunk_def fragments_chunk_def truthy_def convert_tool_calls_def)

lemma chunk_first:
  assumes "\<forall>t\<in>set (first # others). tcd_index t = i"
  shows "convertOpenAIStreamChunk (fragments_chunk (first # others)) [] =
           (if is_complete (entry_of first others)
            then (Some (ToolCalls [entry_of first others]), [])
            else (None, [(i, entry_of first others)]))"
proof -
  have "\<forall>t\<in>set others. tcd_index t = i" using assms by simp
  from accumulate_group [OF this, of first "[]"] assms
  have "foldl accumulate [] (first # others) = [(i, entry_of first others)]"
    by (simp add: accumulate_created)
  then show ?thesis
    by (simp add: convertOpenAIStreamChunk_def fragments_chunk_def truthy_def convert_tool_calls_def
          del: foldl_Cons)
qed

lemma pending_stream:
  assumes "\<forall>t\<in>set (concat groups). tcd_index t = i"
    and "\<not> is_complete (entry_of first later)"
    and "\<forall>n. 0 < n \<and> n < length groups \<longrightarrow> \<not> is_complete (entry_of first (later @ concat (take n groups)))"
  shows "convert_stream (map (\<lambda>g. Item (fragments_chunk g)) groups) [(i, entry_of first later)] =
           (if is_complete (entry_of first (later @ concat groups))
            then ([ToolCalls [entry_of first (later @ concat groups)]], [])
            else ([], [(i, entry_of first (later @ concat groups))]))"
  using assms
proof (induction groups arbitrary: later)
  case Nil
  then show ?case by simp
next
  case (Cons g gs)
  have ig: "\<forall>t\<in>set g. tcd_index t = i" using Cons.prems(1) by simp
  have igs: "\<forall>t\<in>set (concat gs). tcd_index t = i" using Cons.prems(1) by simp
  show ?case
  proof (cases "gs = []")
    case True
    then show ?thesis by (simp add: chunk_pending [OF ig])
  next
    case False
    then have "0 < (1::nat) \<and> 1 < length (g # gs)" by (cases gs) auto
    with Cons.prems(3) have pend: "\<not> is_complete (entry_of first (later @ g))"
      by (metis append_Nil2 concat.simps(1,2) take0 take_Suc_Cons One_nat_def)
    have rest: "\<forall>n. 0 < n \<and> n < length gs \<longrightarrow>
                 \<not> is_complete (entry_of first ((later @ g) @ concat (take n gs)))"
    proof (intro allI impI)
      fix n assume "0 < n \<and> n < length gs"
      then have "0 < Suc n \<and> Suc n < length (g # gs)" by simp
      with Cons.prems(3) have "\<not> is_complete (entry_of first (later @ concat (take (Suc n) (g # gs))))"
        by blast
      then show "\<not> is_complete (entry_of first ((later @ g) @ concat (take n gs)))" by simp
    qed
    from Cons.IH [OF igs pend rest] show ?thesis
      using pend by (simp add: chunk_pending [OF ig])
  qed
qed

text \<open>
  Claim C5, as amended. Take the fragments for one index from the one that creates the
  buffer entry (the buffer holds nothing for the index: here, the first fragment of the
  stream) for as long as the call has not been emitted, delivered in any number of
  chunks. The entry then has the id of the creating fragment (empty if that fragment has
  none), whatever ids later fragments carry; its name is the concatenation of the name
  parts of all the fragments, and its arguments are the concatenation of their arguments
  parts. With the chunk that makes this entry complete the adapter yields the call and
  deletes the entry; until then it yields nothing and keeps the entry under the index.
\<close>

theorem accumulation_until_emitted:
  assumes "\<forall>t\<in>set (first # others @ concat groups). tcd_index t = i"
    and "\<forall>n<length groups. \<not> is_complete (entry_of first (others @ concat (take n groups)))"
  shows "convert_stream
           (Item (fragments_chunk (first # others)) # map (\<lambda>g. Item (fragments_chunk g)) groups) [] =
           (if is_complete (entry_of first (others @ concat groups))
            then ([ToolCalls [entry_of first (others @ concat groups)]], [])
            else ([], [(i, entry_of first (others @ concat groups))]))"
proof (cases "groups = []")
  case True
  have "\<forall>t\<in>set (first # others). tcd_index t = i" using assms(1) by simp
  from chunk_first [OF this] True show ?thesis by simp
next
  case False
  have i1: "\<forall>t\<in>set (first # others). tcd_index t = i" using assms(1) by simp
  have i2: "\<forall>t\<in>set (concat groups). tcd_index t = i" using assms(1) by simp
  have "0 < length groups" using False by simp
  with assms(2) have p0: "\<not> is_complete (entry_of first (others @ concat (take 0 groups)))" by blast
  then have pend: "\<not> is_complete (entry_of first others)" by simp
  have rest: "\<forall>n. 0 < n \<and> n < length groups \<longrightarrow>
                \<not> is_complete (entry_of first (others @ concat (take n groups)))"
    using assms(2) by blast
  from pending_stream [OF i2 pend rest] show ?thesis
    using pend by (simp add: chunk_first [OF i1])
qed

theorem accumulation_until_emitted_witness:
  "map tcd_index two_fragments = [0, 0]
   \<and> \<not> is_complete (entry_of (hd two_fragments) [])
   \<and> convert_stream
        [Item (fragments_chunk [hd two_fragments]), Item (fragments_chunk (tl two_fragments))] [] =
        ([ToolCalls [\<lparr>tc_id = [], tc_function = \<lparr>fn_name = ''bash'', fn_arguments = ''{}''\<rparr>\<rparr>]], [])"
proof -
  have h1: "\<forall>t\<in>set (hd two_fragments # [] @ concat [tl two_fragments]). tcd_index t = 0"
    by (simp add: two_fragments_def)
  have p: "\<not> is_complete (entry_of (hd two_fragments) [])" by code_simp
  have h2: "\<forall>n<length [tl two_fragments].
              \<not> is_complete (entry_of (hd two_fragments) ([] @ concat (take n [tl two_fragments])))"
    using p by simp
  have c: "is_complete (entry_of (hd two_fragments) (tl two_fragments))" by code_simp
  have e: "entry_of (hd two_fragments) (tl two_fragments) =
             \<lparr>tc_id = [], tc_function = \<lparr>fn_name = ''bash'', fn_arguments = ''{}''\<rparr>\<rparr>"
    by (simp add: entry_of_def two_fragments_def or_empty_def delta_name_def delta_arguments_def)
  from accumulation_until_emitted [OF h1 h2] show ?thesis
    using p c e by (simp add: two_fragments_def)
qed

text \<open>
  The claim as stated fails: a name part of a later fragment is appended to the name, and
  an id that arrives after the first fragment is dropped. So the call the adapter yields
  for the two fragments, sent in two chunks, has the name of both and no id.
\<close>

theorem accumulation_counterexample:
  "map_of (foldl accumulate [] two_fragments) 0 =
     Some \<lparr>tc_id = [], tc_function = \<lparr>fn_name = ''bash'', fn_arguments = ''{}''\<rparr>\<rparr>
   \<and> map_of (foldl accumulate [] two_fragments) 0 \<noteq>
     Some \<lparr>tc_id = ''call_1'', tc_function = \<lparr>fn_name = ''ba'', fn_arguments = ''{}''\<rparr>\<rparr>
   \<and> openai_chatStream
       [Item (fragments_chunk [hd two_fragments]), Item (fragments_chunk (tl two_fragments))] =
       [ToolCalls [\<lparr>tc_id = [], tc_function = \<lparr>fn_name = ''bash'', fn_arguments = ''{}''\<rparr>\<rparr>]]"
  by code_simp

text \<open>
  Once a call has been emitted its entry is gone, so the next fragment for the index
  creates a new entry, with its own id and name.
\<close>

lemma new_entry_after_emission:
  "openai_chatStream
     [Item (fragment 0 (Some ''call_1'') (Some ''f'') (Some ''{}'')),
      Item (fragment 0 (Some ''call_2'') (Some ''g'') (Some ''{}''))] =
     [ToolCalls [\<lparr>tc_id = ''call_1'', tc_function = \<lparr>fn_name = ''f'', fn_arguments = ''{}''\<rparr>\<rparr>],
      ToolCalls [\<lparr>tc_id = ''call_2'', tc_function = \<lparr>fn_name = ''g'', fn_arguments = ''{}''\<rparr>\<rparr>]]"
  by code_simp

section \<open>A tool name that is not registered\<close>

lemma complete_arguments_passes:
  assumes "complete_arguments arguments"
  shows "arguments \<noteq> []" "startsWith (trim arguments) CHR ''{''" "endsWith (trim arguments) CHR ''}''"
    "scan (trim arguments) = (0, False, snd (snd (scan (trim arguments))))"
    "JSON_parse_ok (trim arguments)"
  using assms complete_arguments_nonempty [OF assms]
  by (auto simp: complete_arguments_iff prod_eq_iff)

text \<open>
  Claim C6, as amended. Dispatching a call whose name is not a case of \<^verbatim>\<open>executeTool\<close>'s
  switch returns a result with \<^verbatim>\<open>success: false\<close> and leaves the world of the tools as it
  was; nothing is thrown (the function returns a result on every input). When the
  arguments parse, the error is \<^verbatim>\<open>Unknown tool: \<close> followed by the name, and
  \<^verbatim>\<open>Unknown tool: undefined\<close> for a call that has no name. The MCP client answers a name it
  has not registered with an error result whose text is
  \<^verbatim>\<open>Error: Tool '<name>' not found. Available tools: <the registered names>\<close>, and
  \<^verbatim>\<open>executeUniversalTool\<close> of the universal agent turns that into a result with
  \<^verbatim>\<open>success: false\<close> that carries this text as its output and its error.
\<close>

theorem unknown_tool_is_failure:
  "(name \<notin> set known_tools \<longrightarrow>
      tr_success (fst (executeTool env
        \<lparr>gtc_index = ix, gtc_id = callId,
         gtc_function = Some \<lparr>fd_name = Some name, fd_arguments = Some arguments\<rparr>\<rparr> w)) = False
      \<and> snd (executeTool env
        \<lparr>gtc_index = ix, gtc_id = callId,
         gtc_function = Some \<lparr>fd_name = Some name, fd_arguments = Some arguments\<rparr>\<rparr> w) = w
      \<and> (JSON_parse_ok arguments \<longrightarrow>
           executeTool env
             \<lparr>gtc_index = ix, gtc_id = callId,
              gtc_function = Some \<lparr>fd_name = Some name, fd_arguments = Some arguments\<rparr>\<rparr> w =
             (\<lparr>tr_success = False, tr_output = None,
               tr_error = Some (''Unknown tool: '' @ name)\<rparr>, w)))
   \<and> (JSON_parse_ok arguments \<longrightarrow>
        executeTool env
          \<lparr>gtc_index = ix, gtc_id = callId,
           gtc_function = Some \<lparr>fd_name = None, fd_arguments = Some arguments\<rparr>\<rparr> w =
          (\<lparr>tr_success = False, tr_output = None, tr_error = Some ''Unknown tool: undefined''\<rparr>, w))
   \<and> (name \<notin> set (mcp_tools env) \<longrightarrow>
        callTool env name arguments w =
          (\<lparr>mcp_content =
              [Some (''Error: Tool '' @ [CHR 0x27] @ name @ [CHR 0x27]
                 @ '' not found. Available tools: '' @ join '', '' (mcp_tools env))],
            mcp_isError = True\<rparr>, w)
        \<and> (complete_arguments arguments \<longrightarrow>
             executeUniversalTool env
               \<lparr>tc_id = toolCallId, tc_function = \<lparr>fn_name = name, fn_arguments = arguments\<rparr>\<rparr> w =
               (\<lparr>tr_success = False,
                 tr_output = Some (''Error: Tool '' @ [CHR 0x27] @ name @ [CHR 0x27]
                   @ '' not found. Available tools: '' @ join '', '' (mcp_tools env)),
                 tr_error = Some (''Error: Tool '' @ [CHR 0x27] @ name @ [CHR 0x27]
                   @ '' not found. Available tools: '' @ join '', '' (mcp_tools env))\<rparr>, w)))"
proof -
  have u: "name \<notin> set (mcp_tools env) \<Longrightarrow> complete_arguments arguments \<Longrightarrow>
             executeUniversalTool env
               \<lparr>tc_id = toolCallId, tc_function = \<lparr>fn_name = name, fn_arguments = arguments\<rparr>\<rparr> w =
               (\<lparr>tr_success = False,
                 tr_output = Some (''Error: Tool '' @ [CHR 0x27] @ name @ [CHR 0x27]
                   @ '' not found. Available tools: '' @ join '', '' (mcp_tools env)),
                 tr_error = Some (''Error: Tool '' @ [CHR 0x27] @ name @ [CHR 0x27]
                   @ '' not found. Available tools: '' @ join '', '' (mcp_tools env))\<rparr>, w)"
  proof -
    assume n: "name \<notin> set (mcp_tools env)" and c: "complete_arguments arguments"
    note p = complete_arguments_passes [OF c]
    obtain e where s: "scan (trim arguments) = (0, False, e)"
      using p(4) by blast
    show ?thesis
      by (simp add: executeUniversalTool_def Let_def s p(1,2,3,5) n callTool_def mcp_text_def
            or_empty_def)
  qed
  show ?thesis
    using u by (simp add: executeTool_def callTool_def failure_def printed_def)
qed

theorem unknown_tool_is_failure_witness:
  "''nonexistent'' \<notin> set known_tools \<and> JSON_parse_ok ''{}''
   \<and> executeTool quiet
        \<lparr>gtc_index = None, gtc_id = Some ''call_1'',
         gtc_function = Some \<lparr>fd_name = Some ''nonexistent'', fd_arguments = Some ''{}''\<rparr>\<rparr> ()
       = (\<lparr>tr_success = False, tr_output = None, tr_error = Some ''Unknown tool: nonexistent''\<rparr>, ())
   \<and> ''nonexistent'' \<notin> set (mcp_tools quiet) \<and> complete_arguments ''{}''
   \<and> callTool quiet ''nonexistent'' ''{}'' ()
       = (\<lparr>mcp_content = [Some (''Error: Tool '' @ [CHR 0x27] @ ''nonexistent'' @ [CHR 0x27]
                 @ '' not found. Available tools: bash'')], mcp_isError = True\<rparr>, ())
   \<and> tr_success (fst (executeUniversalTool quiet
        \<lparr>tc_id = ''call_1'', tc_function = \<lparr>fn_name = ''nonexistent'', fn_arguments = ''{}''\<rparr>\<rparr> ()))
       = False"
proof -
  have h1: "''nonexistent'' \<notin> set known_tools" by (simp add: known_tools_def)
  have h2: "JSON_parse_ok ''{}''" by code_simp
  have h3: "''nonexistent'' \<notin> set (mcp_tools quiet)" by (simp add: quiet_def scripted_def)
  have h4: "complete_arguments ''{}''" by code_simp
  note t = unknown_tool_is_failure [of "''nonexistent''" quiet None "Some ''call_1''" "''{}''" "()" "''call_1''"]
  have a: "executeTool quiet
        \<lparr>gtc_index = None, gtc_id = Some ''call_1'',
         gtc_function = Some \<lparr>fd_name = Some ''nonexistent'', fd_arguments = Some ''{}''\<rparr>\<rparr> ()
       = (\<lparr>tr_success = False, tr_output = None, tr_error = Some ''Unknown tool: nonexistent''\<rparr>, ())"
    using t h1 h2 by simp
  have b: "callTool quiet ''nonexistent'' ''{}'' ()
       = (\<lparr>mcp_content = [Some (''Error: Tool '' @ [CHR 0x27] @ ''nonexistent'' @ [CHR 0x27]
                 @ '' not found. Available tools: bash'')], mcp_isError = True\<rparr>, ())"
    using t h3 by (simp add: quiet_def scripted_def)
  have c: "tr_success (fst (executeUniversalTool quiet
        \<lparr>tc_id = ''call_1'', tc_function = \<lparr>fn_name = ''nonexistent'', fn_arguments = ''{}''\<rparr>\<rparr> ()))
       = False"
    using t h3 h4 by simp
  show ?thesis using h1 h2 h3 h4 a b c by simp
qed

text \<open>
  The claim as stated fails on the text of the error: no dispatch returns
  \<^verbatim>\<open>Tool not found\<close>.
\<close>

theorem unknown_tool_counterexample:
  "executeTool quiet
     \<lparr>gtc_index = None, gtc_id = Some ''call_1'',
      gtc_function = Some \<lparr>fd_name = Some ''nonexistent'', fd_arguments = Some ''{}''\<rparr>\<rparr> ()
     \<noteq> (\<lparr>tr_success = False, tr_output = None, tr_error = Some ''Tool not found''\<rparr>, ())
   \<and> tr_error (fst (executeTool quiet
     \<lparr>gtc_index = None, gtc_id = Some ''call_1'',
      gtc_function = Some \<lparr>fd_name = Some ''nonexistent'', fd_arguments = Some ''{}''\<rparr>\<rparr> ()))
     = Some ''Unknown tool: nonexistent''
   \<and> fst (callTool quiet ''nonexistent'' ''{}'' ())
     = \<lparr>mcp_content = [Some (''Error: Tool '' @ [CHR 0x27] @ ''nonexistent'' @ [CHR 0x27]
          @ '' not found. Available tools: bash'')], mcp_isError = True\<rparr>"
proof -
  have "JSON_parse_ok ''{}''" by code_simp
  then show ?thesis
    by (simp add: executeTool_def known_tools_def failure_def printed_def callTool_def quiet_def
          scripted_def)
qed

section \<open>The public configuration hides the key\<close>

text \<open>
  Claim C10, as amended. The public configuration has no \<^verbatim>\<open>apiKey\<close>; its \<^verbatim>\<open>hasApiKey\<close> is
  \<^verbatim>\<open>!!apiKey\<close>, true exactly when the key is present and truthy (for a string: not empty);
  every other field is that of the configuration. So two configurations that differ only
  in their key, both keys truthy, have the same public configuration.
\<close>

theorem public_config:
  "getPublicConfig config ''apiKey'' = None
   \<and> getPublicConfig config ''hasApiKey'' = Some (Bool (js_truthy (config ''apiKey'')))
   \<and> (\<forall>key. key \<noteq> ''apiKey'' \<and> key \<noteq> ''hasApiKey'' \<longrightarrow> getPublicConfig config key = config key)
   \<and> ((\<forall>key. key \<noteq> ''apiKey'' \<longrightarrow> config key = other key)
        \<and> js_truthy (config ''apiKey'') \<and> js_truthy (other ''apiKey'')
        \<longrightarrow> getPublicConfig config = getPublicConfig other)"
  by (auto simp: getPublicConfig_def fun_eq_iff)

theorem public_config_witness:
  "getPublicConfig (grok_config ''xai-1'') ''name'' = Some (Str ''Grok'')
   \<and> js_truthy (grok_config ''xai-1'' ''apiKey'') \<and> js_truthy (grok_config ''xai-2'' ''apiKey'')
   \<and> getPublicConfig (grok_config ''xai-1'') = getPublicConfig (grok_config ''xai-2'')"
proof -
  have h: "\<forall>key. key \<noteq> ''apiKey'' \<longrightarrow> grok_config ''xai-1'' key = grok_config ''xai-2'' key"
    by (simp add: grok_config_def)
  have t1: "js_truthy (grok_config ''xai-1'' ''apiKey'')" by (simp add: grok_config_def js_truthy_def)
  have t2: "js_truthy (grok_config ''xai-2'' ''apiKey'')" by (simp add: grok_config_def js_truthy_def)
  note pc = public_config [of "grok_config ''xai-1''" "grok_config ''xai-2''"]
  have "getPublicConfig (grok_config ''xai-1'') ''name'' = grok_config ''xai-1'' ''name''"
    using pc [THEN conjunct2, THEN conjunct2, THEN conjunct1, rule_format, of "''name''"] by simp
  then have a: "getPublicConfig (grok_config ''xai-1'') ''name'' = Some (Str ''Grok'')"
    by (simp add: grok_config_def)
  have b: "getPublicConfig (grok_config ''xai-1'') = getPublicConfig (grok_config ''xai-2'')"
    using pc h t1 t2 by blast
  show ?thesis using a b t1 t2 by simp
qed

text \<open>
  The claim as stated fails for a key that is present and empty: \<^verbatim>\<open>hasApiKey\<close> is false,
  and the public configuration differs from that of a configuration with another key.
\<close>

theorem public_config_counterexample:
  "grok_config '''' ''apiKey'' = Some (Str '''')
   \<and> getPublicConfig (grok_config '''') ''hasApiKey'' = Some (Bool False)
   \<and> getPublicConfig (grok_config '''') \<noteq> getPublicConfig (grok_config ''xai-1'')"
proof -
  have "getPublicConfig (grok_config '''') ''hasApiKey'' \<noteq> getPublicConfig (grok_config ''xai-1'') ''hasApiKey''"
    by (simp add: getPublicConfig_def grok_config_def js_truthy_def)
  then have "getPublicConfig (grok_config '''') \<noteq> getPublicConfig (grok_config ''xai-1'')"
    by metis
  then show ?thesis by (simp add: getPublicConfig_def grok_config_def js_truthy_def)
qed

section \<open>The legacy loop: what each step changes\<close>

declare agent_loop.simps [simp del]

lemma stream_state_simps [simp]:
  "stream_state (Completed acc ty st) = st" "stream_state (StreamCancelled st) = st"
  "stream_state (StreamFailed msg st) = st"
  by (simp_all add: stream_state_def)

lemma tools_state_simps [simp]:
  "tools_state (ToolsDone st) = st" "tools_state (ToolsCancelled st) = st"
  by (simp_all add: tools_state_def)

lemma loop_state_simps [simp]:
  "loop_state (Returned st) = st" "loop_state (LoopEnded n st) = st" "loop_state (Thrown msg st) = st"
  by (simp_all add: loop_state_def)

lemma yield_ui_fields [simp]:
  "legacyMessages (yield_ui cs st) = legacyMessages st"
  "dispatched_legacy (yield_ui cs st) = dispatched_legacy st"
  "world (yield_ui cs st) = world st" "grok_requests (yield_ui cs st) = grok_requests st"
  "abort_checks (yield_ui cs st) = abort_checks st" "messages (yield_ui cs st) = messages st"
  "chatHistory (yield_ui cs st) = chatHistory st" "provider (yield_ui cs st) = provider st"
  "requests (yield_ui cs st) = requests st" "dispatched (yield_ui cs st) = dispatched st"
  "yielded_ui (yield_ui cs st) = yielded_ui st @ cs"
  by (simp_all add: yield_ui_def)

lemma cancel_fields [simp]:
  "legacyMessages (cancel st) = legacyMessages st"
  "dispatched_legacy (cancel st) = dispatched_legacy st"
  "world (cancel st) = world st" "grok_requests (cancel st) = grok_requests st"
  "abort_checks (cancel st) = abort_checks st" "messages (cancel st) = messages st"
  "chatHistory (cancel st) = chatHistory st" "provider (cancel st) = provider st"
  "requests (cancel st) = requests st" "dispatched (cancel st) = dispatched st"
  "yielded_ui (cancel st) = yielded_ui st @ [UContent cancelled_text, UDone]"
  by (simp_all add: cancel_def)

lemma request_grok_fields [simp]:
  "legacyMessages (request_grok st) = legacyMessages st"
  "dispatched_legacy (request_grok st) = dispatched_legacy st"
  "world (request_grok st) = world st" "abort_checks (request_grok st) = abort_checks st"
  "messages (request_grok st) = messages st" "yielded_ui (request_grok st) = yielded_ui st"
  "chatHistory (request_grok st) = chatHistory st" "provider (request_grok st) = provider st"
  "requests (request_grok st) = requests st" "dispatched (request_grok st) = dispatched st"
  "grok_requests (request_grok st) = grok_requests st @ [legacyMessages st]"
  by (simp_all add: request_grok_def)

lemma append_assistant_fields [simp]:
  "world (append_assistant acc st) = world st"
  "dispatched_legacy (append_assistant acc st) = dispatched_legacy st"
  "abort_checks (append_assistant acc st) = abort_checks st"
  "grok_requests (append_assistant acc st) = grok_requests st"
  "messages (append_assistant acc st) = messages st"
  "yielded_ui (append_assistant acc st) = yielded_ui st"
  "provider (append_assistant acc st) = provider st"
  "requests (append_assistant acc st) = requests st"
  "dispatched (append_assistant acc st) = dispatched st"
  "legacyMessages (append_assistant acc st) = legacyMessages st @ [assistant_message acc]"
  by (simp_all add: append_assistant_def)

lemma run_tool_fields:
  assumes "executeTool env toolCall (world st) = (result, w')"
  shows "legacyMessages (run_tool env toolCall st) =
           legacyMessages st @ [grok_tool_message toolCall result]"
    and "world (run_tool env toolCall st) = w'"
    and "dispatched_legacy (run_tool env toolCall st) =
           dispatched_legacy st @ [(toolCall, legacyMessages st)]"
    and "yielded_ui (run_tool env toolCall st) = yielded_ui st @ [UToolResult toolCall result]"
  using assms by (simp_all add: run_tool_def Let_def yield_ui_def)

lemma run_tool_frame [simp]:
  "abort_checks (run_tool env toolCall st) = abort_checks st"
  "grok_requests (run_tool env toolCall st) = grok_requests st"
  "messages (run_tool env toolCall st) = messages st"
  "requests (run_tool env toolCall st) = requests st"
  "dispatched (run_tool env toolCall st) = dispatched st"
  "provider (run_tool env toolCall st) = provider st"
  by (simp_all add: run_tool_def Let_def yield_ui_def split: prod.splits)

lemma run_tool_appends:
  "dispatched_legacy (run_tool env toolCall st) = dispatched_legacy st @ [(toolCall, legacyMessages st)]"
  "legacyMessages (run_tool env toolCall st) =
     legacyMessages st @ [grok_tool_message toolCall (fst (executeTool env toolCall (world st)))]"
  "yielded_ui (run_tool env toolCall st) =
     yielded_ui st @ [UToolResult toolCall (fst (executeTool env toolCall (world st)))]"
  by (simp_all add: run_tool_def Let_def yield_ui_def split: prod.splits)

lemma read_stream_frame:
  "legacyMessages (stream_state (read_stream env it items acc content ty st)) = legacyMessages st
   \<and> chatHistory (stream_state (read_stream env it items acc content ty st)) = chatHistory st
   \<and> dispatched_legacy (stream_state (read_stream env it items acc content ty st)) = dispatched_legacy st
   \<and> world (stream_state (read_stream env it items acc content ty st)) = world st
   \<and> grok_requests (stream_state (read_stream env it items acc content ty st)) = grok_requests st"
proof (induction items arbitrary: acc content ty st)
  case Nil
  then show ?case by simp
next
  case (Cons item rest)
  show ?case
  proof (cases item)
    case (Raise msg)
    then show ?thesis by simp
  next
    case (Item chunk)
    show ?thesis
    proof (cases "aborted env (abort_checks st)")
      case True
      then show ?thesis by (simp add: Item check_aborted_def)
    next
      case False
      then show ?thesis
        by (cases chunk) (simp_all add: Item check_aborted_def Let_def Cons.IH)
    qed
  qed
qed




section \<open>Cancellation\<close>



section \<open>A tool that throws\<close>

lemma executeTool_throws:
  assumes "tool_impl env name arguments w = (Throws msg, w')"
    and "name \<in> set known_tools" and "JSON_parse_ok arguments"
  shows "executeTool env
           \<lparr>gtc_index = ix, gtc_id = callId,
            gtc_function = Some \<lparr>fd_name = Some name, fd_arguments = Some arguments\<rparr>\<rparr> w
         = (failure (''Tool execution error: '' @ msg), w')"
  using assms by (simp add: executeTool_def printed_def)

lemma failure_text [simp]:
  "text \<noteq> [] \<Longrightarrow> result_text (failure text) fallback = text"
  by (simp add: failure_def result_text_def truthy_def)

lemma addMessage_fields [simp]:
  "messages (addMessage m st) = messages st @ [m]" "world (addMessage m st) = world st"
  "provider (addMessage m st) = provider st" "requests (addMessage m st) = requests st"
  "dispatched (addMessage m st) = dispatched st" "yielded (addMessage m st) = yielded st"
  "legacyMessages (addMessage m st) = legacyMessages st"
  by (simp_all add: addMessage_def)

lemma yield_fields [simp]:
  "messages (yield c st) = messages st" "world (yield c st) = world st"
  "provider (yield c st) = provider st" "requests (yield c st) = requests st"
  "dispatched (yield c st) = dispatched st" "yielded (yield c st) = yielded st @ [c]"
  "legacyMessages (yield c st) = legacyMessages st"
  by (simp_all add: yield_def)

lemma request_provider_fields [simp]:
  "messages (request_provider st) = messages st" "world (request_provider st) = world st"
  "provider (request_provider st) = provider st"
  "requests (request_provider st) = requests st @ [(prov_name (provider st), messages st)]"
  "dispatched (request_provider st) = dispatched st" "yielded (request_provider st) = yielded st"
  "legacyMessages (request_provider st) = legacyMessages st"
  by (simp_all add: request_provider_def)

lemma handle_tool_call_fields:
  assumes "exec toolCall (world st) = (result, w')"
  shows "messages (handle_tool_call exec toolCall st) = messages st @ [tool_message toolCall result]"
    and "world (handle_tool_call exec toolCall st) = w'"
    and "dispatched (handle_tool_call exec toolCall st) = dispatched st @ [(toolCall, messages st)]"
  using assms by (simp_all add: handle_tool_call_def Let_def)

lemma handle_tool_call_frame [simp]:
  "provider (handle_tool_call exec toolCall st) = provider st"
  "requests (handle_tool_call exec toolCall st) = requests st"
  "legacyMessages (handle_tool_call exec toolCall st) = legacyMessages st"
  by (simp_all add: handle_tool_call_def Let_def split: prod.splits)

lemma agent_loop_continue:
  assumes "toolRounds < maxToolRounds" and "\<not> aborted env (abort_checks st)"
    and "read_stream env it (grok_chatStream env (legacyMessages st))
           \<lparr>am_content = None, am_tool_calls = None\<rparr> [] False
           (request_grok (st\<lparr>abort_checks := Suc (abort_checks st)\<rparr>)) = Completed acc ty st2"
    and "accumulated_tool_calls acc \<noteq> []"
    and "execute_tools env (accumulated_tool_calls acc)
           (if ty then append_assistant acc st2
            else yield_ui [UToolCalls (accumulated_tool_calls acc)] (append_assistant acc st2))
         = ToolsDone st4"
  shows "agent_loop env it toolRounds st = agent_loop env it (Suc toolRounds) st4"
  using assms by (subst agent_loop.simps) (simp add: check_aborted_def Let_def)

text \<open>
  Claim C7. Let the implementation of a tool throw when it is called with the arguments
  of a call (the name is one of \<^verbatim>\<open>executeTool\<close>'s switch and the arguments parse, so the
  tool is reached). Then \<^verbatim>\<open>executeTool\<close> returns a result with \<^verbatim>\<open>success: false\<close> and the
  error \<^verbatim>\<open>Tool execution error: \<close> followed by the message thrown. In the legacy loop the
  run of the tools appends the \<^verbatim>\<open>tool\<close> message with that text to the history and goes on
  with the calls that remain; when the call was the only one of its response, the loop
  goes on with the next round, the failure in its history. On the universal path of the
  Grok agent \<^verbatim>\<open>handleToolCalls\<close> appends the same \<^verbatim>\<open>tool\<close> message and goes on with the calls
  that remain, and the next request to the provider is made with a history that ends with
  the assistant message and the failure. In the universal agent the tools are behind the
  MCP client: what the bridge throws is caught there, \<^verbatim>\<open>executeUniversalTool\<close> returns a
  result with \<^verbatim>\<open>success: false\<close> whose error is \<^verbatim>\<open>Error executing tool '<name>': \<close>
  followed by the message thrown, and \<^verbatim>\<open>handleToolCalls\<close> appends it in the same way.
\<close>

theorem tool_failure_is_recorded:
  assumes "tool_impl env name arguments (world st) = (Throws msg, w')"
    and "name \<in> set known_tools" and "JSON_parse_ok arguments"
  shows "executeTool env
           \<lparr>gtc_index = ix, gtc_id = callId,
            gtc_function = Some \<lparr>fd_name = Some name, fd_arguments = Some arguments\<rparr>\<rparr> (world st) =
           (\<lparr>tr_success = False, tr_output = None,
             tr_error = Some (''Tool execution error: '' @ msg)\<rparr>, w')
         \<and> (\<not> aborted env (abort_checks st) \<longrightarrow>
              (\<exists>st'. execute_tools env
                        (\<lparr>gtc_index = ix, gtc_id = callId,
                          gtc_function = Some \<lparr>fd_name = Some name, fd_arguments = Some arguments\<rparr>\<rparr>
                         # rest) st = execute_tools env rest st'
                 \<and> legacyMessages st' = legacyMessages st @
                      [\<lparr>gm_role = Tool, gm_content = Some (''Tool execution error: '' @ msg),
                        gm_tool_calls = None, gm_tool_call_id = callId\<rparr>]
                 \<and> world st' = w'))
         \<and> (toolRounds < maxToolRounds \<and> \<not> aborted env (abort_checks st)
              \<and> read_stream env inputTokens (grok_chatStream env (legacyMessages st))
                    \<lparr>am_content = None, am_tool_calls = None\<rparr> [] False
                    (request_grok (st\<lparr>abort_checks := Suc (abort_checks st)\<rparr>))
                  = Completed acc toolCallsYielded st2
              \<and> accumulated_tool_calls acc =
                  [\<lparr>gtc_index = ix, gtc_id = callId,
                    gtc_function = Some \<lparr>fd_name = Some name, fd_arguments = Some arguments\<rparr>\<rparr>]
              \<and> \<not> aborted env (abort_checks st2)
            \<longrightarrow> (\<exists>st4. agent_loop env inputTokens toolRounds st
                          = agent_loop env inputTokens (Suc toolRounds) st4
                     \<and> legacyMessages st4 = legacyMessages st @
                          [assistant_message acc,
                           \<lparr>gm_role = Tool, gm_content = Some (''Tool execution error: '' @ msg),
                            gm_tool_calls = None, gm_tool_call_id = callId\<rparr>]
                     \<and> world st4 = w'))
         \<and> (\<exists>st'. handleToolCalls (executeUniversalTool_grok env)
                     (\<lparr>tc_id = toolCallId,
                       tc_function = \<lparr>fn_name = name, fn_arguments = arguments\<rparr>\<rparr> # others) st
                   = handleToolCalls (executeUniversalTool_grok env) others st'
                 \<and> messages st' = messages st @
                      [\<lparr>msg_role = Tool, msg_content = Some (''Tool execution error: '' @ msg),
                        msg_tool_calls = None, msg_tool_call_id = Some toolCallId\<rparr>]
                 \<and> world st' = w')
         \<and> (\<exists>st'. process_chunks (executeUniversalTool_grok env) (Suc fuel)
                     (Item (ToolCalls [\<lparr>tc_id = toolCallId,
                        tc_function = \<lparr>fn_name = name, fn_arguments = arguments\<rparr>\<rparr>]) # chunks)
                     current st
                   = (case continue_chunks (executeUniversalTool_grok env) fuel
                             (prov_chatStream (provider st) (messages st')) empty_assistant st' of
                        Finished s \<Rightarrow>
                          process_chunks (executeUniversalTool_grok env) (Suc fuel) chunks
                            empty_assistant s
                      | OutOfFuel s \<Rightarrow> OutOfFuel s)
                 \<and> messages st' = messages st @
                      [current\<lparr>msg_tool_calls := Some [\<lparr>tc_id = toolCallId,
                         tc_function = \<lparr>fn_name = name, fn_arguments = arguments\<rparr>\<rparr>]\<rparr>,
                       \<lparr>msg_role = Tool, msg_content = Some (''Tool execution error: '' @ msg),
                        msg_tool_calls = None, msg_tool_call_id = Some toolCallId\<rparr>]
                 \<and> requests st' = requests st @ [(prov_name (provider st), messages st')])
         \<and> (bridge_impl env name (trim arguments) (world st) = (BridgeThrows thrown, w'')
              \<and> name \<in> set (mcp_tools env) \<and> complete_arguments arguments
            \<longrightarrow> executeUniversalTool env
                  \<lparr>tc_id = toolCallId,
                   tc_function = \<lparr>fn_name = name, fn_arguments = arguments\<rparr>\<rparr> (world st) =
                  (\<lparr>tr_success = False,
                    tr_output = Some (''Error executing tool '' @ [CHR 0x27] @ name @ [CHR 0x27]
                                        @ '': '' @ thrown),
                    tr_error = Some (''Error executing tool '' @ [CHR 0x27] @ name @ [CHR 0x27]
                                       @ '': '' @ thrown)\<rparr>, w'')
                \<and> (\<exists>st'. handleToolCalls (executeUniversalTool env)
                            (\<lparr>tc_id = toolCallId,
                              tc_function = \<lparr>fn_name = name, fn_arguments = arguments\<rparr>\<rparr> # others) st
                          = handleToolCalls (executeUniversalTool env) others st'
                       \<and> messages st' = messages st @
                            [\<lparr>msg_role = Tool,
                              msg_content = Some (''Error executing tool '' @ [CHR 0x27] @ name
                                                    @ [CHR 0x27] @ '': '' @ thrown),
                              msg_tool_calls = None, msg_tool_call_id = Some toolCallId\<rparr>]
                       \<and> world st' = w''))"
proof -
  let ?g = "\<lparr>gtc_index = ix, gtc_id = callId,
             gtc_function = Some \<lparr>fd_name = Some name, fd_arguments = Some arguments\<rparr>\<rparr>"
  let ?u = "\<lparr>tc_id = toolCallId, tc_function = \<lparr>fn_name = name, fn_arguments = arguments\<rparr>\<rparr>"
  let ?exec = "executeUniversalTool_grok env"
  let ?gm = "\<lparr>gm_role = Tool, gm_content = Some (''Tool execution error: '' @ msg),
               gm_tool_calls = None, gm_tool_call_id = callId\<rparr>"
  let ?m = "\<lparr>msg_role = Tool, msg_content = Some (''Tool execution error: '' @ msg),
              msg_tool_calls = None, msg_tool_call_id = Some toolCallId\<rparr>"
  have ex: "\<And>ix callId. executeTool env
              \<lparr>gtc_index = ix, gtc_id = callId,
               gtc_function = Some \<lparr>fd_name = Some name, fd_arguments = Some arguments\<rparr>\<rparr> (world st)
            = (failure (''Tool execution error: '' @ msg), w')"
    using assms by (rule executeTool_throws)
  have exu: "?exec ?u (world st) = (failure (''Tool execution error: '' @ msg), w')"
    using ex by (simp add: executeUniversalTool_grok_def as_grok_tool_call_def)
  have gm: "grok_tool_message ?g (failure (''Tool execution error: '' @ msg)) = ?gm"
    by (simp add: grok_tool_message_def)
  have tm: "tool_message ?u (failure (''Tool execution error: '' @ msg)) = ?m"
    by (simp add: tool_message_def)
  have one: "executeTool env ?g (world st) =
           (\<lparr>tr_success = False, tr_output = None,
             tr_error = Some (''Tool execution error: '' @ msg)\<rparr>, w')"
    using ex by (simp add: failure_def)
  have two: "\<not> aborted env (abort_checks st) \<longrightarrow>
              (\<exists>st'. execute_tools env (?g # rest) st = execute_tools env rest st'
                 \<and> legacyMessages st' = legacyMessages st @ [?gm] \<and> world st' = w')"
  proof
    assume na: "\<not> aborted env (abort_checks st)"
    let ?st1 = "st\<lparr>abort_checks := Suc (abort_checks st)\<rparr>"
    have e: "executeTool env ?g (world ?st1) = (failure (''Tool execution error: '' @ msg), w')"
      using ex by simp
    have "execute_tools env (?g # rest) st = execute_tools env rest (run_tool env ?g ?st1)"
      using na by (simp add: check_aborted_def)
    moreover have "legacyMessages (run_tool env ?g ?st1) = legacyMessages st @ [?gm]"
      using run_tool_fields(1) [OF e] gm by simp
    moreover have "world (run_tool env ?g ?st1) = w'"
      using run_tool_fields(2) [OF e] by simp
    ultimately show "\<exists>st'. execute_tools env (?g # rest) st = execute_tools env rest st'
                 \<and> legacyMessages st' = legacyMessages st @ [?gm] \<and> world st' = w'" by blast
  qed
  have three: "toolRounds < maxToolRounds \<and> \<not> aborted env (abort_checks st)
              \<and> read_stream env inputTokens (grok_chatStream env (legacyMessages st))
                    \<lparr>am_content = None, am_tool_calls = None\<rparr> [] False
                    (request_grok (st\<lparr>abort_checks := Suc (abort_checks st)\<rparr>))
                  = Completed acc toolCallsYielded st2
              \<and> accumulated_tool_calls acc = [?g] \<and> \<not> aborted env (abort_checks st2)
            \<longrightarrow> (\<exists>st4. agent_loop env inputTokens toolRounds st
                          = agent_loop env inputTokens (Suc toolRounds) st4
                     \<and> legacyMessages st4 = legacyMessages st @ [assistant_message acc, ?gm]
                     \<and> world st4 = w')"
  proof
    assume h: "toolRounds < maxToolRounds \<and> \<not> aborted env (abort_checks st)
              \<and> read_stream env inputTokens (grok_chatStream env (legacyMessages st))
                    \<lparr>am_content = None, am_tool_calls = None\<rparr> [] False
                    (request_grok (st\<lparr>abort_checks := Suc (abort_checks st)\<rparr>))
                  = Completed acc toolCallsYielded st2
              \<and> accumulated_tool_calls acc = [?g] \<and> \<not> aborted env (abort_checks st2)"
    let ?st0 = "request_grok (st\<lparr>abort_checks := Suc (abort_checks st)\<rparr>)"
    from read_stream_frame [of env inputTokens "grok_chatStream env (legacyMessages st)"
           "\<lparr>am_content = None, am_tool_calls = None\<rparr>" "[]" False ?st0] h
    have fr: "legacyMessages st2 = legacyMessages st" "world st2 = world st" by simp_all
    let ?st3 = "if toolCallsYielded then append_assistant acc st2
                else yield_ui [UToolCalls (accumulated_tool_calls acc)] (append_assistant acc st2)"
    let ?st3' = "?st3\<lparr>abort_checks := Suc (abort_checks ?st3)\<rparr>"
    have w3: "world ?st3' = world st" using fr by simp
    have l3: "legacyMessages ?st3' = legacyMessages st @ [assistant_message acc]"
      using fr by simp
    have a3: "\<not> aborted env (abort_checks ?st3)" using h by simp
    have e: "executeTool env ?g (world ?st3') = (failure (''Tool execution error: '' @ msg), w')"
      using ex w3 by simp
    let ?st4 = "run_tool env ?g ?st3'"
    have "execute_tools env [?g] ?st3 = ToolsDone ?st4"
      using a3 by (simp add: check_aborted_def)
    then have "execute_tools env (accumulated_tool_calls acc) ?st3 = ToolsDone ?st4"
      using h by simp
    with h have "agent_loop env inputTokens toolRounds st
                   = agent_loop env inputTokens (Suc toolRounds) ?st4"
      by (intro agent_loop_continue [of _ _ _ _ acc toolCallsYielded st2]) simp_all
    moreover have "legacyMessages ?st4 = legacyMessages st @ [assistant_message acc, ?gm]"
      using run_tool_fields(1) [OF e] gm l3 by simp
    moreover have "world ?st4 = w'" using run_tool_fields(2) [OF e] by simp
    ultimately show "\<exists>st4. agent_loop env inputTokens toolRounds st
                          = agent_loop env inputTokens (Suc toolRounds) st4
                     \<and> legacyMessages st4 = legacyMessages st @ [assistant_message acc, ?gm]
                     \<and> world st4 = w'" by blast
  qed
  have four: "\<exists>st'. handleToolCalls ?exec (?u # others) st = handleToolCalls ?exec others st'
                 \<and> messages st' = messages st @ [?m] \<and> world st' = w'"
  proof -
    have "messages (handle_tool_call ?exec ?u st) = messages st @ [?m]"
      using handle_tool_call_fields(1) [of ?exec ?u st, OF exu] tm by simp
    moreover have "world (handle_tool_call ?exec ?u st) = w'"
      using handle_tool_call_fields(2) [of ?exec ?u st, OF exu] by simp
    ultimately show ?thesis by (intro exI [of _ "handle_tool_call ?exec ?u st"]) simp
  qed
  have five: "\<exists>st'. process_chunks ?exec (Suc fuel) (Item (ToolCalls [?u]) # chunks) current st
                   = (case continue_chunks ?exec fuel
                             (prov_chatStream (provider st) (messages st')) empty_assistant st' of
                        Finished s \<Rightarrow> process_chunks ?exec (Suc fuel) chunks empty_assistant s
                      | OutOfFuel s \<Rightarrow> OutOfFuel s)
                 \<and> messages st' = messages st @ [current\<lparr>msg_tool_calls := Some [?u]\<rparr>, ?m]
                 \<and> requests st' = requests st @ [(prov_name (provider st), messages st')]"
  proof -
    let ?st0 = "addMessage (current\<lparr>msg_tool_calls := Some [?u]\<rparr>) (yield (ToolCalls [?u]) st)"
    have exu0: "?exec ?u (world ?st0) = (failure (''Tool execution error: '' @ msg), w')"
      using exu by simp
    let ?st1 = "handle_tool_call ?exec ?u ?st0"
    have m1: "messages ?st1 = messages st @ [current\<lparr>msg_tool_calls := Some [?u]\<rparr>, ?m]"
      using handle_tool_call_fields(1) [of ?exec ?u ?st0, OF exu0] tm by simp
    show ?thesis
      by (intro exI [of _ "request_provider ?st1"]) (simp add: m1)
  qed
  have six: "bridge_impl env name (trim arguments) (world st) = (BridgeThrows thrown, w'')
              \<and> name \<in> set (mcp_tools env) \<and> complete_arguments arguments
            \<longrightarrow> executeUniversalTool env ?u (world st) =
                  (\<lparr>tr_success = False,
                    tr_output = Some (''Error executing tool '' @ [CHR 0x27] @ name @ [CHR 0x27]
                                        @ '': '' @ thrown),
                    tr_error = Some (''Error executing tool '' @ [CHR 0x27] @ name @ [CHR 0x27]
                                       @ '': '' @ thrown)\<rparr>, w'')
                \<and> (\<exists>st'. handleToolCalls (executeUniversalTool env) (?u # others) st
                          = handleToolCalls (executeUniversalTool env) others st'
                       \<and> messages st' = messages st @
                            [\<lparr>msg_role = Tool,
                              msg_content = Some (''Error executing tool '' @ [CHR 0x27] @ name
                                                    @ [CHR 0x27] @ '': '' @ thrown),
                              msg_tool_calls = None, msg_tool_call_id = Some toolCallId\<rparr>]
                       \<and> world st' = w'')"
  proof
    assume h: "bridge_impl env name (trim arguments) (world st) = (BridgeThrows thrown, w'')
              \<and> name \<in> set (mcp_tools env) \<and> complete_arguments arguments"
    let ?t = "''Error executing tool '' @ [CHR 0x27] @ name @ [CHR 0x27] @ '': '' @ thrown"
    let ?r = "\<lparr>tr_success = False, tr_output = Some ?t, tr_error = Some ?t\<rparr>"
    from h have c: "complete_arguments arguments" by simp
    note p = complete_arguments_passes [OF c]
    obtain e where s: "scan (trim arguments) = (0, False, e)" using p(4) by blast
    have r: "executeUniversalTool env ?u (world st) = (?r, w'')"
      using h by (simp add: executeUniversalTool_def Let_def s p(1,2,3,5) callTool_def mcp_text_def
            or_empty_def)
    have tm': "tool_message ?u ?r = \<lparr>msg_role = Tool, msg_content = Some ?t,
                 msg_tool_calls = None, msg_tool_call_id = Some toolCallId\<rparr>"
      by (simp add: tool_message_def result_text_def truthy_def)
    let ?st' = "handle_tool_call (executeUniversalTool env) ?u st"
    have "messages ?st' = messages st @ [\<lparr>msg_role = Tool, msg_content = Some ?t,
                 msg_tool_calls = None, msg_tool_call_id = Some toolCallId\<rparr>]"
      using handle_tool_call_fields(1) [of "executeUniversalTool env" ?u st, OF r] tm' by simp
    moreover have "world ?st' = w''"
      using handle_tool_call_fields(2) [of "executeUniversalTool env" ?u st, OF r] by simp
    ultimately have "\<exists>st'. handleToolCalls (executeUniversalTool env) (?u # others) st
                          = handleToolCalls (executeUniversalTool env) others st'
                       \<and> messages st' = messages st @ [\<lparr>msg_role = Tool, msg_content = Some ?t,
                 msg_tool_calls = None, msg_tool_call_id = Some toolCallId\<rparr>]
                       \<and> world st' = w''"
      by (intro exI [of _ ?st']) simp
    with r show "executeUniversalTool env ?u (world st) = (?r, w'')
                \<and> (\<exists>st'. handleToolCalls (executeUniversalTool env) (?u # others) st
                          = handleToolCalls (executeUniversalTool env) others st'
                       \<and> messages st' = messages st @
                            [\<lparr>msg_role = Tool, msg_content = Some ?t,
                              msg_tool_calls = None, msg_tool_call_id = Some toolCallId\<rparr>]
                       \<and> world st' = w'')" by blast
  qed
  from one two three four five six show ?thesis by blast
qed

lemma bash_args_ok: "JSON_parse_ok ''{\"command\":\"ls\"}''"
  by code_simp

lemma bash_args_complete: "complete_arguments ''{\"command\":\"ls\"}''"
  by code_simp

lemma accumulated_call:
  "accumulated_tool_calls (messageReducer \<lparr>am_content = None, am_tool_calls = None\<rparr> (the call_chunk))
     = [grok_bash_call]"
  by (simp add: accumulated_tool_calls_def messageReducer_def call_chunk_def taken_over_def
      grok_bash_call_def)

theorem tool_failure_is_recorded_witness:
  "tool_impl (scripted call_then_text throws (\<lambda>k. False)) ''bash'' ''{\"command\":\"ls\"}''
      (world blank) = (Throws ''ENOENT'', ())
   \<and> ''bash'' \<in> set known_tools \<and> JSON_parse_ok ''{\"command\":\"ls\"}''
   \<and> executeTool (scripted call_then_text throws (\<lambda>k. False)) grok_bash_call ()
       = (\<lparr>tr_success = False, tr_output = None, tr_error = Some ''Tool execution error: ENOENT''\<rparr>, ())
   \<and> \<not> aborted (scripted call_then_text throws (\<lambda>k. False)) (abort_checks blank)
   \<and> legacyMessages (tools_state
        (execute_tools (scripted call_then_text throws (\<lambda>k. False)) [grok_bash_call] blank))
       = [\<lparr>gm_role = Tool, gm_content = Some ''Tool execution error: ENOENT'',
           gm_tool_calls = None, gm_tool_call_id = Some ''call_1''\<rparr>]
   \<and> (0::nat) < maxToolRounds
   \<and> accumulated_tool_calls
        (messageReducer \<lparr>am_content = None, am_tool_calls = None\<rparr> (the call_chunk))
       = [grok_bash_call]
   \<and> (\<exists>st4. agent_loop (scripted call_then_text throws (\<lambda>k. False)) 0 0 blank
               = agent_loop (scripted call_then_text throws (\<lambda>k. False)) 0 1 st4
          \<and> legacyMessages st4 =
               [\<lparr>gm_role = Assistant, gm_content = Some [], gm_tool_calls = Some [grok_bash_call],
                 gm_tool_call_id = None\<rparr>,
                \<lparr>gm_role = Tool, gm_content = Some ''Tool execution error: ENOENT'',
                 gm_tool_calls = None, gm_tool_call_id = Some ''call_1''\<rparr>])
   \<and> grok_requests (processUserMessageStreamLegacy (scripted call_then_text throws (\<lambda>k. False))
        ''run ls'' blank)
       = [[user_message ''run ls''],
          [user_message ''run ls'',
           \<lparr>gm_role = Assistant, gm_content = Some [], gm_tool_calls = Some [grok_bash_call],
            gm_tool_call_id = None\<rparr>,
           \<lparr>gm_role = Tool, gm_content = Some ''Tool execution error: ENOENT'',
            gm_tool_calls = None, gm_tool_call_id = Some ''call_1''\<rparr>]]
   \<and> messages (handleToolCalls
        (executeUniversalTool_grok (scripted call_then_text throws (\<lambda>k. False))) [bash_call] blank)
       = [\<lparr>msg_role = Tool, msg_content = Some ''Tool execution error: ENOENT'',
           msg_tool_calls = None, msg_tool_call_id = Some ''call_1''\<rparr>]
   \<and> bridge_impl (scripted call_then_text throws (\<lambda>k. False)) ''bash''
        (trim ''{\"command\":\"ls\"}'') (world blank) = (BridgeThrows ''EACCES'', ())
   \<and> ''bash'' \<in> set (mcp_tools (scripted call_then_text throws (\<lambda>k. False)))
   \<and> complete_arguments ''{\"command\":\"ls\"}''
   \<and> executeUniversalTool (scripted call_then_text throws (\<lambda>k. False)) bash_call ()
       = (\<lparr>tr_success = False,
           tr_output = Some (''Error executing tool '' @ [CHR 0x27] @ ''bash'' @ [CHR 0x27] @ '': EACCES''),
           tr_error = Some (''Error executing tool '' @ [CHR 0x27] @ ''bash'' @ [CHR 0x27] @ '': EACCES'')\<rparr>,
          ())"
proof -
  let ?E = "scripted call_then_text throws (\<lambda>k. False)"
  let ?args = "''{\"command\":\"ls\"}''"
  let ?acc = "messageReducer \<lparr>am_content = None, am_tool_calls = None\<rparr> (the call_chunk)"
  let ?r = "read_stream ?E 0 (grok_chatStream ?E (legacyMessages blank))
              \<lparr>am_content = None, am_tool_calls = None\<rparr> [] False
              (request_grok (blank\<lparr>abort_checks := Suc (abort_checks blank)\<rparr>))"
  let ?gm = "\<lparr>gm_role = Tool, gm_content = Some ''Tool execution error: ENOENT'',
               gm_tool_calls = None, gm_tool_call_id = Some ''call_1''\<rparr>"
  have h1: "tool_impl ?E ''bash'' ?args (world blank) = (Throws ''ENOENT'', ())"
    by (simp add: scripted_def throws_def)
  have h2: "''bash'' \<in> set known_tools" by (simp add: known_tools_def)
  note h3 = bash_args_ok
  have na: "\<not> aborted ?E (abort_checks blank)" by (simp add: scripted_def)
  have cc: "call_chunk = Some (the call_chunk)" by (simp add: call_chunk_def)
  have nt: "\<not> truthy (d_content (the call_chunk))" by (simp add: call_chunk_def truthy_def)
  have nm: "truthy (grok_name grok_bash_call)"
    by (simp add: grok_bash_call_def grok_name_def truthy_def)
  have st: "grok_chatStream ?E (legacyMessages blank) = [Item call_chunk]"
    by (simp add: scripted_def call_then_text_def blank_def)
  have h4: "?r = Completed ?acc True (stream_state ?r)"
    unfolding st
    by (subst (1 2) cc) (simp add: check_aborted_def Let_def nt nm accumulated_call scripted_def)
  have h5: "\<not> aborted ?E (abort_checks (stream_state ?r))" by (simp add: scripted_def)
  have h6: "bridge_impl ?E ''bash'' (trim ?args) (world blank) = (BridgeThrows ''EACCES'', ())"
    by (simp add: scripted_def)
  have h7: "''bash'' \<in> set (mcp_tools ?E)" by (simp add: scripted_def)
  note h8 = bash_args_complete
  note t = tool_failure_is_recorded [OF h1 h2 h3, of None "Some ''call_1''" "[]" 0 0 ?acc True
             "stream_state ?r" "''call_1''" "[]" _ _ _ "''EACCES''" "()"]
  have a: "executeTool ?E grok_bash_call () =
             (\<lparr>tr_success = False, tr_output = None, tr_error = Some ''Tool execution error: ENOENT''\<rparr>, ())"
    using t [THEN conjunct1] by (simp add: blank_def grok_bash_call_def)
  from t [THEN conjunct2, THEN conjunct1] na obtain st' where
    "execute_tools ?E [grok_bash_call] blank = execute_tools ?E [] st'"
    "legacyMessages st' = legacyMessages blank @ [?gm]"
    by (auto simp add: grok_bash_call_def)
  then have b: "legacyMessages (tools_state (execute_tools ?E [grok_bash_call] blank)) = [?gm]"
    by (simp add: blank_def)
  have c: "\<exists>st4. agent_loop ?E 0 0 blank = agent_loop ?E 0 1 st4
          \<and> legacyMessages st4 =
               [\<lparr>gm_role = Assistant, gm_content = Some [], gm_tool_calls = Some [grok_bash_call],
                 gm_tool_call_id = None\<rparr>, ?gm]"
  proof -
    have pre: "0 < maxToolRounds \<and> \<not> aborted ?E (abort_checks blank)
               \<and> ?r = Completed ?acc True (stream_state ?r)
               \<and> accumulated_tool_calls ?acc =
                   [\<lparr>gtc_index = None, gtc_id = Some ''call_1'',
                     gtc_function = Some \<lparr>fd_name = Some ''bash'', fd_arguments = Some ?args\<rparr>\<rparr>]
               \<and> \<not> aborted ?E (abort_checks (stream_state ?r))"
      using h4 h5 na accumulated_call by (simp add: maxToolRounds_def grok_bash_call_def)
    have am: "assistant_message ?acc =
                \<lparr>gm_role = Assistant, gm_content = Some [], gm_tool_calls = Some [grok_bash_call],
                  gm_tool_call_id = None\<rparr>"
      by (simp add: assistant_message_def or_empty_def messageReducer_def call_chunk_def
            merge_text_def taken_over_def grok_bash_call_def)
    from t [THEN conjunct2, THEN conjunct2, THEN conjunct1, rule_format, OF pre]
    show ?thesis by (simp add: am blank_def)
  qed
  have d: "grok_requests (processUserMessageStreamLegacy ?E ''run ls'' blank)
       = [[user_message ''run ls''],
          [user_message ''run ls'',
           \<lparr>gm_role = Assistant, gm_content = Some [], gm_tool_calls = Some [grok_bash_call],
            gm_tool_call_id = None\<rparr>, ?gm]]"
    by code_simp
  from t [THEN conjunct2, THEN conjunct2, THEN conjunct2, THEN conjunct1] obtain su where
    "handleToolCalls (executeUniversalTool_grok ?E)
       [\<lparr>tc_id = ''call_1'', tc_function = \<lparr>fn_name = ''bash'', fn_arguments = ?args\<rparr>\<rparr>] blank
     = handleToolCalls (executeUniversalTool_grok ?E) [] su"
    "messages su = messages blank @
       [\<lparr>msg_role = Tool, msg_content = Some (''Tool execution error: '' @ ''ENOENT''),
         msg_tool_calls = None, msg_tool_call_id = Some ''call_1''\<rparr>]"
    by blast
  then have e: "messages (handleToolCalls (executeUniversalTool_grok ?E) [bash_call] blank)
       = [\<lparr>msg_role = Tool, msg_content = Some ''Tool execution error: ENOENT'',
           msg_tool_calls = None, msg_tool_call_id = Some ''call_1''\<rparr>]"
    by (simp add: bash_call_def blank_def)
  have f: "executeUniversalTool ?E bash_call ()
       = (\<lparr>tr_success = False,
           tr_output = Some (''Error executing tool '' @ [CHR 0x27] @ ''bash'' @ [CHR 0x27] @ '': EACCES''),
           tr_error = Some (''Error executing tool '' @ [CHR 0x27] @ ''bash'' @ [CHR 0x27] @ '': EACCES'')\<rparr>,
          ())"
    using t [THEN conjunct2, THEN conjunct2, THEN conjunct2, THEN conjunct2, THEN conjunct2]
      h6 h7 h8 by (simp add: bash_call_def blank_def)
  show ?thesis
    using h1 h2 h3 na a b c d e f h6 h7 h8 accumulated_call by (simp add: maxToolRounds_def)
qed

section \<open>The order of dispatch\<close>

lemma in_order_length:
  "in_order answers h ds new calls \<Longrightarrow> length ds = length calls"
proof (induction calls arbitrary: h ds new)
  case Nil
  then show ?case by simp
next
  case (Cons c calls)
  from Cons.prems obtain d ds' m new' where "ds = d # ds'" "new = m # new'"
    by (cases ds; cases new) auto
  with Cons.prems have "in_order answers (h @ [m]) ds' new' calls" by (cases d) simp
  from Cons.IH [OF this] show ?case using \<open>ds = d # ds'\<close> by simp
qed

lemma handle_tool_call_appends:
  "messages (handle_tool_call exec toolCall st) =
     messages st @ [tool_message toolCall (fst (exec toolCall (world st)))]"
  "dispatched (handle_tool_call exec toolCall st) = dispatched st @ [(toolCall, messages st)]"
  by (simp_all add: handle_tool_call_def Let_def split: prod.splits)

lemma handleToolCalls_in_order:
  "\<exists>ds new. dispatched (handleToolCalls exec calls st) = dispatched st @ ds
      \<and> messages (handleToolCalls exec calls st) = messages st @ new
      \<and> in_order answers (messages st) ds new calls"
proof (induction calls arbitrary: st)
  case Nil
  then show ?case by simp
next
  case (Cons c calls)
  let ?m = "tool_message c (fst (exec c (world st)))"
  let ?st1 = "handle_tool_call exec c st"
  from Cons.IH [of ?st1] obtain ds new where
    d: "dispatched (handleToolCalls exec calls ?st1) = dispatched ?st1 @ ds"
    and m: "messages (handleToolCalls exec calls ?st1) = messages ?st1 @ new"
    and o: "in_order answers (messages ?st1) ds new calls" by blast
  have a: "answers c ?m" by (simp add: answers_def tool_message_def)
  have "dispatched (handleToolCalls exec (c # calls) st) = dispatched st @ ((c, messages st) # ds)"
    using d by (simp add: handle_tool_call_appends)
  moreover have "messages (handleToolCalls exec (c # calls) st) = messages st @ (?m # new)"
    using m by (simp add: handle_tool_call_appends)
  moreover have "in_order answers (messages st) ((c, messages st) # ds) (?m # new) (c # calls)"
    using o a by (simp add: handle_tool_call_appends)
  ultimately show ?case by blast
qed

lemma execute_tools_in_order:
  "\<exists>ds new. dispatched_legacy (tools_state (execute_tools env calls st)) = dispatched_legacy st @ ds
      \<and> legacyMessages (tools_state (execute_tools env calls st)) = legacyMessages st @ new
      \<and> in_order answers_legacy (legacyMessages st) ds new (take (length ds) calls)
      \<and> ((\<exists>st'. execute_tools env calls st = ToolsDone st') \<longrightarrow> length ds = length calls)"
proof (induction calls arbitrary: st)
  case Nil
  then show ?case by simp
next
  case (Cons c calls)
  show ?case
  proof (cases "aborted env (abort_checks st)")
    case True
    then have "execute_tools env (c # calls) st
                 = ToolsCancelled (cancel (st\<lparr>abort_checks := Suc (abort_checks st)\<rparr>))"
      by (simp add: check_aborted_def)
    then show ?thesis by simp
  next
    case False
    let ?st0 = "st\<lparr>abort_checks := Suc (abort_checks st)\<rparr>"
    let ?m = "grok_tool_message c (fst (executeTool env c (world st)))"
    let ?st1 = "run_tool env c ?st0"
    have e: "execute_tools env (c # calls) st = execute_tools env calls ?st1"
      using False by (simp add: check_aborted_def)
    from Cons.IH [of ?st1] obtain ds new where
      d: "dispatched_legacy (tools_state (execute_tools env calls ?st1)) = dispatched_legacy ?st1 @ ds"
      and m: "legacyMessages (tools_state (execute_tools env calls ?st1)) = legacyMessages ?st1 @ new"
      and o: "in_order answers_legacy (legacyMessages ?st1) ds new (take (length ds) calls)"
      and n: "(\<exists>st'. execute_tools env calls ?st1 = ToolsDone st') \<longrightarrow> length ds = length calls"
      by blast
    have a: "answers_legacy c ?m" by (simp add: answers_legacy_def grok_tool_message_def)
    have "dispatched_legacy (tools_state (execute_tools env (c # calls) st))
            = dispatched_legacy st @ ((c, legacyMessages st) # ds)"
      unfolding e using d by (simp add: run_tool_appends)
    moreover have "legacyMessages (tools_state (execute_tools env (c # calls) st))
            = legacyMessages st @ (?m # new)"
      unfolding e using m by (simp add: run_tool_appends)
    moreover have "in_order answers_legacy (legacyMessages st) ((c, legacyMessages st) # ds) (?m # new)
                     (take (length ((c, legacyMessages st) # ds)) (c # calls))"
      using o a by (simp add: run_tool_appends)
    moreover have "(\<exists>st'. execute_tools env (c # calls) st = ToolsDone st')
                     \<longrightarrow> length ((c, legacyMessages st) # ds) = length (c # calls)"
      unfolding e using n by simp
    ultimately show ?thesis by blast
  qed
qed

lemma agent_loop_tools:
  assumes "toolRounds < maxToolRounds" and "\<not> aborted env (abort_checks st)"
    and "read_stream env it (grok_chatStream env (legacyMessages st))
           \<lparr>am_content = None, am_tool_calls = None\<rparr> [] False
           (request_grok (st\<lparr>abort_checks := Suc (abort_checks st)\<rparr>)) = Completed acc ty st2"
    and "accumulated_tool_calls acc \<noteq> []"
  shows "agent_loop env it toolRounds st =
           (case execute_tools env (accumulated_tool_calls acc)
                   (if ty then append_assistant acc st2
                    else yield_ui [UToolCalls (accumulated_tool_calls acc)] (append_assistant acc st2)) of
              ToolsCancelled st4 \<Rightarrow> Returned st4
            | ToolsDone st4 \<Rightarrow> agent_loop env it (toolRounds + 1) st4)"
  using assms by (subst agent_loop.simps) (simp add: check_aborted_def Let_def)

text \<open>
  Claim C3. On the universal path, when a chunk of tool calls arrives (in
  \<^verbatim>\<open>processUserMessageStream\<close> and in \<^verbatim>\<open>continueAfterToolExecution\<close>), the tools run from a
  state whose history ends with the assistant message that carries these calls, and in
  which nothing has been dispatched yet; from there the calls are dispatched one by one in
  the order received, each with a history that holds the result messages of all calls
  before it; the continuation request is made after that. On the legacy loop, when a
  response with tool calls has been read, the tools run from a state whose history ends
  with the assistant message that carries the calls; the calls are dispatched in the
  order received, each with a history that holds the result messages of all calls before
  it, up to the call at which a cancellation is detected, and all of them when there is
  none.
\<close>

theorem tool_calls_in_order:
  "process_chunks exec fuel (Item (ToolCalls calls) # chunks) current st =
     (case continueAfterToolExecution exec fuel
             (handleToolCalls exec calls
                (addMessage (current\<lparr>msg_tool_calls := Some calls\<rparr>) (yield (ToolCalls calls) st))) of
        Finished s \<Rightarrow> process_chunks exec fuel chunks empty_assistant s
      | OutOfFuel s \<Rightarrow> OutOfFuel s)
   \<and> continue_chunks exec fuel (Item (ToolCalls calls) # chunks) current st =
     (case continueAfterToolExecution exec fuel
             (handleToolCalls exec calls
                (yield (ToolCalls calls) (addMessage (current\<lparr>msg_tool_calls := Some calls\<rparr>) st))) of
        Finished s \<Rightarrow> continue_chunks exec fuel chunks empty_assistant s
      | OutOfFuel s \<Rightarrow> OutOfFuel s)
   \<and> (st0 = addMessage (current\<lparr>msg_tool_calls := Some calls\<rparr>) (yield (ToolCalls calls) st)
        \<or> st0 = yield (ToolCalls calls) (addMessage (current\<lparr>msg_tool_calls := Some calls\<rparr>) st)
      \<longrightarrow> messages st0 = messages st @ [current\<lparr>msg_tool_calls := Some calls\<rparr>]
          \<and> dispatched st0 = dispatched st
          \<and> (\<exists>ds new. dispatched (handleToolCalls exec calls st0) = dispatched st @ ds
                \<and> messages (handleToolCalls exec calls st0) =
                    messages st @ [current\<lparr>msg_tool_calls := Some calls\<rparr>] @ new
                \<and> length ds = length calls
                \<and> in_order answers (messages st @ [current\<lparr>msg_tool_calls := Some calls\<rparr>]) ds new
                     calls))
   \<and> (toolRounds < maxToolRounds \<and> \<not> aborted env (abort_checks lst)
        \<and> read_stream env inputTokens (grok_chatStream env (legacyMessages lst))
              \<lparr>am_content = None, am_tool_calls = None\<rparr> [] False
              (request_grok (lst\<lparr>abort_checks := Suc (abort_checks lst)\<rparr>))
            = Completed acc toolCallsYielded lst2
        \<and> accumulated_tool_calls acc \<noteq> []
      \<longrightarrow> (\<exists>lst3 ds new.
             agent_loop env inputTokens toolRounds lst =
               (case execute_tools env (accumulated_tool_calls acc) lst3 of
                  ToolsCancelled lst4 \<Rightarrow> Returned lst4
                | ToolsDone lst4 \<Rightarrow> agent_loop env inputTokens (toolRounds + 1) lst4)
             \<and> legacyMessages lst3 = legacyMessages lst @ [assistant_message acc]
             \<and> gm_tool_calls (assistant_message acc) = Some (accumulated_tool_calls acc)
             \<and> dispatched_legacy lst3 = dispatched_legacy lst
             \<and> dispatched_legacy (tools_state (execute_tools env (accumulated_tool_calls acc) lst3))
                 = dispatched_legacy lst @ ds
             \<and> legacyMessages (tools_state (execute_tools env (accumulated_tool_calls acc) lst3))
                 = legacyMessages lst @ [assistant_message acc] @ new
             \<and> in_order answers_legacy (legacyMessages lst @ [assistant_message acc]) ds new
                  (take (length ds) (accumulated_tool_calls acc))
             \<and> ((\<exists>lst4. execute_tools env (accumulated_tool_calls acc) lst3 = ToolsDone lst4)
                  \<longrightarrow> length ds = length (accumulated_tool_calls acc))))"
proof (intro conjI impI)
  show "process_chunks exec fuel (Item (ToolCalls calls) # chunks) current st =
     (case continueAfterToolExecution exec fuel
             (handleToolCalls exec calls
                (addMessage (current\<lparr>msg_tool_calls := Some calls\<rparr>) (yield (ToolCalls calls) st))) of
        Finished s \<Rightarrow> process_chunks exec fuel chunks empty_assistant s
      | OutOfFuel s \<Rightarrow> OutOfFuel s)" by simp
  show "continue_chunks exec fuel (Item (ToolCalls calls) # chunks) current st =
     (case continueAfterToolExecution exec fuel
             (handleToolCalls exec calls
                (yield (ToolCalls calls) (addMessage (current\<lparr>msg_tool_calls := Some calls\<rparr>) st))) of
        Finished s \<Rightarrow> continue_chunks exec fuel chunks empty_assistant s
      | OutOfFuel s \<Rightarrow> OutOfFuel s)" by simp
next
  assume s0: "st0 = addMessage (current\<lparr>msg_tool_calls := Some calls\<rparr>) (yield (ToolCalls calls) st)
        \<or> st0 = yield (ToolCalls calls) (addMessage (current\<lparr>msg_tool_calls := Some calls\<rparr>) st)"
  then show m0: "messages st0 = messages st @ [current\<lparr>msg_tool_calls := Some calls\<rparr>]" by auto
  from s0 show d0: "dispatched st0 = dispatched st" by auto
  from handleToolCalls_in_order [of exec calls st0] obtain ds new where
    d: "dispatched (handleToolCalls exec calls st0) = dispatched st0 @ ds"
    and m: "messages (handleToolCalls exec calls st0) = messages st0 @ new"
    and o: "in_order answers (messages st0) ds new calls" by blast
  from d m o in_order_length [OF o]
  show "\<exists>ds new. dispatched (handleToolCalls exec calls st0) = dispatched st @ ds
                \<and> messages (handleToolCalls exec calls st0) =
                    messages st @ [current\<lparr>msg_tool_calls := Some calls\<rparr>] @ new
                \<and> length ds = length calls
                \<and> in_order answers (messages st @ [current\<lparr>msg_tool_calls := Some calls\<rparr>]) ds new
                     calls"
    unfolding m0 d0 by auto
next
  assume h: "toolRounds < maxToolRounds \<and> \<not> aborted env (abort_checks lst)
        \<and> read_stream env inputTokens (grok_chatStream env (legacyMessages lst))
              \<lparr>am_content = None, am_tool_calls = None\<rparr> [] False
              (request_grok (lst\<lparr>abort_checks := Suc (abort_checks lst)\<rparr>))
            = Completed acc toolCallsYielded lst2
        \<and> accumulated_tool_calls acc \<noteq> []"
  let ?calls = "accumulated_tool_calls acc"
  let ?st0 = "request_grok (lst\<lparr>abort_checks := Suc (abort_checks lst)\<rparr>)"
  let ?st3 = "if toolCallsYielded then append_assistant acc lst2
              else yield_ui [UToolCalls ?calls] (append_assistant acc lst2)"
  from read_stream_frame [of env inputTokens "grok_chatStream env (legacyMessages lst)"
         "\<lparr>am_content = None, am_tool_calls = None\<rparr>" "[]" False ?st0] h
  have fr: "legacyMessages lst2 = legacyMessages lst" "dispatched_legacy lst2 = dispatched_legacy lst"
    by simp_all
  have l3: "legacyMessages ?st3 = legacyMessages lst @ [assistant_message acc]" using fr by simp
  have d3: "dispatched_legacy ?st3 = dispatched_legacy lst" using fr by simp
  have tc: "gm_tool_calls (assistant_message acc) = Some ?calls"
    using h by (auto simp: assistant_message_def accumulated_tool_calls_def split: option.splits)
  have loop: "agent_loop env inputTokens toolRounds lst =
               (case execute_tools env ?calls ?st3 of
                  ToolsCancelled lst4 \<Rightarrow> Returned lst4
                | ToolsDone lst4 \<Rightarrow> agent_loop env inputTokens (toolRounds + 1) lst4)"
    using h by (intro agent_loop_tools) simp_all
  from execute_tools_in_order [of env ?calls ?st3] obtain ds new where
    "dispatched_legacy (tools_state (execute_tools env ?calls ?st3)) = dispatched_legacy ?st3 @ ds"
    "legacyMessages (tools_state (execute_tools env ?calls ?st3)) = legacyMessages ?st3 @ new"
    "in_order answers_legacy (legacyMessages ?st3) ds new (take (length ds) ?calls)"
    "(\<exists>st'. execute_tools env ?calls ?st3 = ToolsDone st') \<longrightarrow> length ds = length ?calls"
    by blast
  with l3 d3 tc loop
  show "\<exists>lst3 ds new.
             agent_loop env inputTokens toolRounds lst =
               (case execute_tools env ?calls lst3 of
                  ToolsCancelled lst4 \<Rightarrow> Returned lst4
                | ToolsDone lst4 \<Rightarrow> agent_loop env inputTokens (toolRounds + 1) lst4)
             \<and> legacyMessages lst3 = legacyMessages lst @ [assistant_message acc]
             \<and> gm_tool_calls (assistant_message acc) = Some ?calls
             \<and> dispatched_legacy lst3 = dispatched_legacy lst
             \<and> dispatched_legacy (tools_state (execute_tools env ?calls lst3))
                 = dispatched_legacy lst @ ds
             \<and> legacyMessages (tools_state (execute_tools env ?calls lst3))
                 = legacyMessages lst @ [assistant_message acc] @ new
             \<and> in_order answers_legacy (legacyMessages lst @ [assistant_message acc]) ds new
                  (take (length ds) ?calls)
             \<and> ((\<exists>lst4. execute_tools env ?calls lst3 = ToolsDone lst4)
                  \<longrightarrow> length ds = length ?calls)"
    by (intro exI [of _ ?st3] exI [of _ ds] exI [of _ new]) (simp del: append_assoc)
qed

theorem tool_calls_in_order_witness:
  "messages (addMessage (empty_assistant\<lparr>msg_tool_calls := Some [bash_call, bash_call\<lparr>tc_id := ''call_2''\<rparr>]\<rparr>)
       (yield (ToolCalls [bash_call, bash_call\<lparr>tc_id := ''call_2''\<rparr>]) blank))
     = [empty_assistant\<lparr>msg_tool_calls := Some [bash_call, bash_call\<lparr>tc_id := ''call_2''\<rparr>]\<rparr>]
   \<and> length (dispatched (handleToolCalls (executeUniversalTool_grok quiet)
        [bash_call, bash_call\<lparr>tc_id := ''call_2''\<rparr>]
        (addMessage (empty_assistant\<lparr>msg_tool_calls := Some [bash_call, bash_call\<lparr>tc_id := ''call_2''\<rparr>]\<rparr>)
           (yield (ToolCalls [bash_call, bash_call\<lparr>tc_id := ''call_2''\<rparr>]) blank)))) = 2
   \<and> dispatched (handleToolCalls (executeUniversalTool_grok quiet)
        [bash_call, bash_call\<lparr>tc_id := ''call_2''\<rparr>]
        (addMessage (empty_assistant\<lparr>msg_tool_calls := Some [bash_call, bash_call\<lparr>tc_id := ''call_2''\<rparr>]\<rparr>)
           (yield (ToolCalls [bash_call, bash_call\<lparr>tc_id := ''call_2''\<rparr>]) blank)))
     = [(bash_call,
         [empty_assistant\<lparr>msg_tool_calls := Some [bash_call, bash_call\<lparr>tc_id := ''call_2''\<rparr>]\<rparr>]),
        (bash_call\<lparr>tc_id := ''call_2''\<rparr>,
         [empty_assistant\<lparr>msg_tool_calls := Some [bash_call, bash_call\<lparr>tc_id := ''call_2''\<rparr>]\<rparr>,
          \<lparr>msg_role = Tool, msg_content = Some ''ok'', msg_tool_calls = None,
           msg_tool_call_id = Some ''call_1''\<rparr>])]
   \<and> (0::nat) < maxToolRounds
   \<and> \<not> aborted (scripted call_then_text succeeds (\<lambda>k. False)) (abort_checks blank)
   \<and> read_stream (scripted call_then_text succeeds (\<lambda>k. False)) 0
        (grok_chatStream (scripted call_then_text succeeds (\<lambda>k. False)) (legacyMessages blank))
        \<lparr>am_content = None, am_tool_calls = None\<rparr> [] False
        (request_grok (blank\<lparr>abort_checks := Suc (abort_checks blank)\<rparr>))
      = Completed (messageReducer \<lparr>am_content = None, am_tool_calls = None\<rparr> (the call_chunk)) True
          (stream_state (read_stream (scripted call_then_text succeeds (\<lambda>k. False)) 0
             (grok_chatStream (scripted call_then_text succeeds (\<lambda>k. False)) (legacyMessages blank))
             \<lparr>am_content = None, am_tool_calls = None\<rparr> [] False
             (request_grok (blank\<lparr>abort_checks := Suc (abort_checks blank)\<rparr>))))
   \<and> accumulated_tool_calls
        (messageReducer \<lparr>am_content = None, am_tool_calls = None\<rparr> (the call_chunk)) \<noteq> []
   \<and> (\<exists>lst3 ds new.
         agent_loop (scripted call_then_text succeeds (\<lambda>k. False)) 0 0 blank =
           (case execute_tools (scripted call_then_text succeeds (\<lambda>k. False)) [grok_bash_call] lst3 of
              ToolsCancelled lst4 \<Rightarrow> Returned lst4
            | ToolsDone lst4 \<Rightarrow> agent_loop (scripted call_then_text succeeds (\<lambda>k. False)) 0 1 lst4)
         \<and> legacyMessages lst3 =
             [\<lparr>gm_role = Assistant, gm_content = Some [], gm_tool_calls = Some [grok_bash_call],
               gm_tool_call_id = None\<rparr>]
         \<and> dispatched_legacy lst3 = []
         \<and> dispatched_legacy
             (tools_state (execute_tools (scripted call_then_text succeeds (\<lambda>k. False))
                [grok_bash_call] lst3)) = ds
         \<and> in_order answers_legacy
             [\<lparr>gm_role = Assistant, gm_content = Some [], gm_tool_calls = Some [grok_bash_call],
               gm_tool_call_id = None\<rparr>] ds new (take (length ds) [grok_bash_call]))
   \<and> dispatched_legacy (processUserMessageStreamLegacy
        (scripted call_then_text succeeds (\<lambda>k. False)) ''run ls'' blank)
     = [(grok_bash_call,
         [user_message ''run ls'',
          \<lparr>gm_role = Assistant, gm_content = Some [], gm_tool_calls = Some [grok_bash_call],
           gm_tool_call_id = None\<rparr>])]"
proof -
  let ?E = "scripted call_then_text succeeds (\<lambda>k. False)"
  let ?exec = "executeUniversalTool_grok quiet"
  let ?calls = "[bash_call, bash_call\<lparr>tc_id := ''call_2''\<rparr>]"
  let ?a = "empty_assistant\<lparr>msg_tool_calls := Some ?calls\<rparr>"
  let ?st0 = "addMessage ?a (yield (ToolCalls ?calls) blank)"
  let ?acc = "messageReducer \<lparr>am_content = None, am_tool_calls = None\<rparr> (the call_chunk)"
  let ?r = "read_stream ?E 0 (grok_chatStream ?E (legacyMessages blank))
              \<lparr>am_content = None, am_tool_calls = None\<rparr> [] False
              (request_grok (blank\<lparr>abort_checks := Suc (abort_checks blank)\<rparr>))"
  let ?am = "\<lparr>gm_role = Assistant, gm_content = Some [], gm_tool_calls = Some [grok_bash_call],
               gm_tool_call_id = None\<rparr>"
  note t = tool_calls_in_order [of ?exec _ ?calls _ empty_assistant blank ?st0 0 ?E blank 0 ?acc True
             "stream_state ?r"]
  have u: "messages ?st0 = messages blank @ [?a] \<and> dispatched ?st0 = dispatched blank
          \<and> (\<exists>ds new. dispatched (handleToolCalls ?exec ?calls ?st0) = dispatched blank @ ds
                \<and> messages (handleToolCalls ?exec ?calls ?st0) = messages blank @ [?a] @ new
                \<and> length ds = length ?calls
                \<and> in_order answers (messages blank @ [?a]) ds new ?calls)"
    using t [THEN conjunct2, THEN conjunct2, THEN conjunct1] by blast
  have a: "messages ?st0 = [?a]" using u by (simp add: blank_def)
  from u obtain ds where "dispatched (handleToolCalls ?exec ?calls ?st0) = dispatched blank @ ds"
    "length ds = length ?calls" by blast
  then have b: "length (dispatched (handleToolCalls ?exec ?calls ?st0)) = 2"
    by (simp add: blank_def)
  have c: "dispatched (handleToolCalls ?exec ?calls ?st0)
     = [(bash_call, [?a]),
        (bash_call\<lparr>tc_id := ''call_2''\<rparr>,
         [?a, \<lparr>msg_role = Tool, msg_content = Some ''ok'', msg_tool_calls = None,
               msg_tool_call_id = Some ''call_1''\<rparr>])]"
    by code_simp
  have h1: "(0::nat) < maxToolRounds" by (simp add: maxToolRounds_def)
  have na: "\<not> aborted ?E (abort_checks blank)" by (simp add: scripted_def)
  have cc: "call_chunk = Some (the call_chunk)" by (simp add: call_chunk_def)
  have nt: "\<not> truthy (d_content (the call_chunk))" by (simp add: call_chunk_def truthy_def)
  have nm: "truthy (grok_name grok_bash_call)"
    by (simp add: grok_bash_call_def grok_name_def truthy_def)
  have st: "grok_chatStream ?E (legacyMessages blank) = [Item call_chunk]"
    by (simp add: scripted_def call_then_text_def blank_def)
  have h4: "?r = Completed ?acc True (stream_state ?r)"
    unfolding st
    by (subst (1 2) cc) (simp add: check_aborted_def Let_def nt nm accumulated_call scripted_def)
  have h5: "accumulated_tool_calls ?acc \<noteq> []" by (simp add: accumulated_call)
  have am: "assistant_message ?acc = ?am"
    by (simp add: assistant_message_def or_empty_def messageReducer_def call_chunk_def
          merge_text_def taken_over_def grok_bash_call_def)
  have pre: "0 < maxToolRounds \<and> \<not> aborted ?E (abort_checks blank)
             \<and> ?r = Completed ?acc True (stream_state ?r) \<and> accumulated_tool_calls ?acc \<noteq> []"
    using h1 na h4 h5 by blast
  have lb: "legacyMessages blank = []" "dispatched_legacy blank = []" by (simp_all add: blank_def)
  from t [THEN conjunct2, THEN conjunct2, THEN conjunct2, rule_format, OF pre]
  obtain lst3 ds new where
    f: "agent_loop ?E 0 0 blank =
       (case execute_tools ?E (accumulated_tool_calls ?acc) lst3 of
          ToolsCancelled lst4 \<Rightarrow> Returned lst4
        | ToolsDone lst4 \<Rightarrow> agent_loop ?E 0 (0 + 1) lst4)"
    "legacyMessages lst3 = legacyMessages blank @ [assistant_message ?acc]"
    "dispatched_legacy lst3 = dispatched_legacy blank"
    "dispatched_legacy (tools_state (execute_tools ?E (accumulated_tool_calls ?acc) lst3))
       = dispatched_legacy blank @ ds"
    "in_order answers_legacy (legacyMessages blank @ [assistant_message ?acc]) ds new
       (take (length ds) (accumulated_tool_calls ?acc))"
    by blast
  have d: "\<exists>lst3 ds new.
         agent_loop ?E 0 0 blank =
           (case execute_tools ?E [grok_bash_call] lst3 of
              ToolsCancelled lst4 \<Rightarrow> Returned lst4
            | ToolsDone lst4 \<Rightarrow> agent_loop ?E 0 1 lst4)
         \<and> legacyMessages lst3 = [?am]
         \<and> dispatched_legacy lst3 = []
         \<and> dispatched_legacy (tools_state (execute_tools ?E [grok_bash_call] lst3)) = ds
         \<and> in_order answers_legacy [?am] ds new (take (length ds) [grok_bash_call])"
    using f unfolding accumulated_call am lb append_Nil add_0 by blast
  have e: "dispatched_legacy (processUserMessageStreamLegacy ?E ''run ls'' blank)
     = [(grok_bash_call, [user_message ''run ls'', ?am])]"
    by code_simp
  show ?thesis
    using a b c h1 na h4 h5 d e by blast
qed

section \<open>The cap on the rounds of tool execution\<close>

lemma handleToolCalls_frame [simp]:
  "provider (handleToolCalls exec calls st) = provider st"
  "requests (handleToolCalls exec calls st) = requests st"
  by (induction calls arbitrary: st) simp_all

lemma handleToolCalls_dispatched:
  "length (dispatched (handleToolCalls exec calls st)) = length (dispatched st) + length calls"
  by (induction calls arbitrary: st) (simp_all add: handle_tool_call_appends)

lemma continue_runaway:
  "provider st = runaway call \<Longrightarrow>
   \<exists>st'. continueAfterToolExecution exec fuel st = OutOfFuel st'
     \<and> length (requests st') = length (requests st) + fuel
     \<and> length (dispatched st') = length (dispatched st) + fuel"
proof (induction fuel arbitrary: st)
  case 0
  then show ?case by simp
next
  case (Suc fuel)
  let ?st1 = "handleToolCalls exec [call]
                (yield (ToolCalls [call])
                   (addMessage (empty_assistant\<lparr>msg_tool_calls := Some [call]\<rparr>) (request_provider st)))"
  have p: "provider ?st1 = runaway call" using Suc.prems by simp
  have r: "length (requests ?st1) = Suc (length (requests st))" by simp
  have d: "length (dispatched ?st1) = Suc (length (dispatched st))"
    by (simp add: handle_tool_call_appends)
  from Suc.IH [OF p] obtain st' where
    "continueAfterToolExecution exec fuel ?st1 = OutOfFuel st'"
    "length (requests st') = length (requests ?st1) + fuel"
    "length (dispatched st') = length (dispatched ?st1) + fuel" by blast
  with r d have "continueAfterToolExecution exec (Suc fuel) st = OutOfFuel st'
     \<and> length (requests st') = length (requests st) + Suc fuel
     \<and> length (dispatched st') = length (dispatched st) + Suc fuel"
    using Suc.prems by (simp add: runaway_def)
  then show ?case by blast
qed

text \<open>
  Claim C1 on the universal path: the rounds have no cap. Against a provider that answers
  every request with one more tool call, \<^verbatim>\<open>processUserMessageStream\<close> does not finish within
  any depth of nested continuations: whatever the depth allowed, the run has made one
  request and executed one tool call more than that depth when it asks for the next
  round. With a depth of 30 that is 31 requests and 31 executions, and still no end.
\<close>

theorem universal_loop_unbounded:
  "\<exists>st'. processUserMessageStream exec fuel message (st\<lparr>provider := runaway call\<rparr>) = OutOfFuel st'
     \<and> length (requests st') = length (requests st) + fuel + 1
     \<and> length (dispatched st') = length (dispatched st) + fuel + 1"
proof -
  let ?user = "\<lparr>msg_role = User, msg_content = Some message, msg_tool_calls = None,
                 msg_tool_call_id = None\<rparr>"
  let ?st0 = "request_provider (addMessage ?user (st\<lparr>provider := runaway call\<rparr>))"
  let ?st1 = "handleToolCalls exec [call]
                (addMessage (empty_assistant\<lparr>msg_tool_calls := Some [call]\<rparr>)
                   (yield (ToolCalls [call]) ?st0))"
  have p: "provider ?st1 = runaway call" by simp
  have r: "length (requests ?st1) = Suc (length (requests st))" by simp
  have d: "length (dispatched ?st1) = Suc (length (dispatched st))"
    by (simp add: handle_tool_call_appends)
  from continue_runaway [OF p, of exec fuel] obtain st' where
    "continueAfterToolExecution exec fuel ?st1 = OutOfFuel st'"
    "length (requests st') = length (requests ?st1) + fuel"
    "length (dispatched st') = length (dispatched ?st1) + fuel" by blast
  with r d have "processUserMessageStream exec fuel message (st\<lparr>provider := runaway call\<rparr>)
                   = OutOfFuel st'
     \<and> length (requests st') = length (requests st) + fuel + 1
     \<and> length (dispatched st') = length (dispatched st) + fuel + 1"
    by (simp add: processUserMessageStream_def Let_def runaway_def addMessage_def)
  then show ?thesis by blast
qed

text \<open>
  The legacy loop has the cap. Against a Grok client that answers every request with a
  chunk of tool calls, and with no cancellation, it makes exactly 30 requests and then
  ends with the notice that the maximum was reached, followed by \<^verbatim>\<open>done\<close>.
\<close>

lemma execute_tools_done:
  "\<forall>k. \<not> aborted env k \<Longrightarrow>
   \<exists>st'. execute_tools env calls st = ToolsDone st' \<and> grok_requests st' = grok_requests st"
proof (induction calls arbitrary: st)
  case Nil
  then show ?case by simp
next
  case (Cons c calls)
  from Cons.IH [OF Cons.prems, of "run_tool env c (st\<lparr>abort_checks := Suc (abort_checks st)\<rparr>)"]
  show ?case using Cons.prems by (simp add: check_aborted_def)
qed

lemma read_one_chunk:
  "\<not> aborted env (abort_checks st) \<Longrightarrow>
   \<exists>ty' st'. read_stream env it [Item (Some d)] acc content ty st
               = Completed (messageReducer acc d) ty' st'"
  by (simp add: check_aborted_def Let_def)

lemma agent_loop_capped:
  assumes "\<forall>k. \<not> aborted env k" and "grok_chatStream env = (\<lambda>history. [Item (Some d)])"
    and "d_tool_calls d = Some (t # ts)"
  shows "k = maxToolRounds - n \<Longrightarrow> n \<le> maxToolRounds \<Longrightarrow>
         \<exists>st'. agent_loop env it n st = LoopEnded maxToolRounds st'
           \<and> length (grok_requests st') = length (grok_requests st) + k"
proof (induction k arbitrary: n st)
  case 0
  then have "n = maxToolRounds" by simp
  then show ?case by (subst agent_loop.simps) simp
next
  case (Suc k)
  then have n: "n < maxToolRounds" and k: "k = maxToolRounds - Suc n" and le: "Suc n \<le> maxToolRounds"
    by simp_all
  let ?empty = "\<lparr>am_content = None, am_tool_calls = None\<rparr>"
  let ?st1 = "request_grok (st\<lparr>abort_checks := Suc (abort_checks st)\<rparr>)"
  have na: "\<not> aborted env (abort_checks ?st1)" using assms(1) by blast
  from read_one_chunk [OF na, of it d ?empty "[]" False] obtain ty st2 where
    r: "read_stream env it [Item (Some d)] ?empty [] False ?st1
          = Completed (messageReducer ?empty d) ty st2" by blast
  let ?acc = "messageReducer ?empty d"
  have calls: "accumulated_tool_calls ?acc \<noteq> []"
    using assms(3) by (simp add: accumulated_tool_calls_def messageReducer_def)
  from read_stream_frame [of env it "[Item (Some d)]" ?empty "[]" False ?st1]
  have g2: "grok_requests st2 = grok_requests st @ [legacyMessages st]" unfolding r by simp
  let ?st3 = "if ty then append_assistant ?acc st2
              else yield_ui [UToolCalls (accumulated_tool_calls ?acc)] (append_assistant ?acc st2)"
  from execute_tools_done [OF assms(1), of "accumulated_tool_calls ?acc" ?st3] obtain st4 where
    e: "execute_tools env (accumulated_tool_calls ?acc) ?st3 = ToolsDone st4"
    and g4: "grok_requests st4 = grok_requests ?st3" by blast
  have g4': "length (grok_requests st4) = Suc (length (grok_requests st))"
    using g4 g2 by simp
  have "agent_loop env it n st = agent_loop env it (Suc n) st4"
    using n assms(1) r calls e
    by (intro agent_loop_continue [of _ _ _ _ ?acc ty st2]) (simp_all add: assms(2))
  moreover from Suc.IH [OF k le, of st4] obtain st' where
    "agent_loop env it (Suc n) st4 = LoopEnded maxToolRounds st'"
    "length (grok_requests st') = length (grok_requests st4) + k" by blast
  ultimately show ?case using g4' by simp
qed

lemma legacy_loop_capped:
  assumes "\<forall>k. \<not> aborted env k" and "grok_chatStream env = (\<lambda>history. [Item (Some d)])"
    and "d_tool_calls d = Some (t # ts)"
  shows "\<exists>ys. yielded_ui (processUserMessageStreamLegacy env message st)
                = ys @ [UContent round_cap_text, UDone]"
    and "length (grok_requests (processUserMessageStreamLegacy env message st))
           = length (grok_requests st) + 30"
proof -
  let ?st1 = "st\<lparr>abort_checks := 0, chatHistory := chatHistory st @ [user_entry message],
                 legacyMessages := legacyMessages st @ [user_message message]\<rparr>"
  let ?it = "countMessageTokens env (legacyMessages ?st1)"
  let ?st2 = "yield_ui [UTokenCount ?it] ?st1"
  from agent_loop_capped [OF assms, of maxToolRounds 0 ?it ?st2] obtain st' where
    l: "agent_loop env ?it 0 ?st2 = LoopEnded maxToolRounds st'"
    and g: "length (grok_requests st') = length (grok_requests ?st2) + maxToolRounds" by auto
  have p: "processUserMessageStreamLegacy env message st
             = yield_ui [UDone] (yield_ui [UContent round_cap_text] st')"
    using l by (simp add: processUserMessageStreamLegacy_def Let_def user_message_def user_entry_def)
  show "length (grok_requests (processUserMessageStreamLegacy env message st))
           = length (grok_requests st) + 30"
    using g by (simp add: p maxToolRounds_def)
  show "\<exists>ys. yielded_ui (processUserMessageStreamLegacy env message st)
                = ys @ [UContent round_cap_text, UDone]"
    by (simp add: p)
qed

section \<open>Switching the provider\<close>

lemma read_stream_requests:
  "requests (stream_state (read_stream env it items acc content ty st)) = requests st"
proof (induction items arbitrary: acc content ty st)
  case Nil
  then show ?case by simp
next
  case (Cons item rest)
  show ?case
  proof (cases item)
    case (Raise msg)
    then show ?thesis by simp
  next
    case (Item chunk)
    show ?thesis
    proof (cases "aborted env (abort_checks st)")
      case True
      then show ?thesis by (simp add: Item check_aborted_def)
    next
      case False
      then show ?thesis
        by (cases chunk) (simp_all add: Item check_aborted_def Let_def Cons.IH)
    qed
  qed
qed

lemma execute_tools_requests:
  "requests (tools_state (execute_tools env calls st)) = requests st
   \<and> grok_requests (tools_state (execute_tools env calls st)) = grok_requests st"
proof (induction calls arbitrary: st)
  case Nil
  then show ?case by simp
next
  case (Cons c calls)
  show ?case
  proof (cases "aborted env (abort_checks st)")
    case True
    then show ?thesis by (simp add: check_aborted_def)
  next
    case False
    then show ?thesis
      using Cons.IH [of "run_tool env c (st\<lparr>abort_checks := Suc (abort_checks st)\<rparr>)"]
      by (simp add: check_aborted_def)
  qed
qed

lemma agent_loop_requests:
  "k = maxToolRounds - n \<Longrightarrow>
   requests (loop_state (agent_loop env it n st)) = requests st
   \<and> (\<exists>more. grok_requests (loop_state (agent_loop env it n st)) = grok_requests st @ more
         \<and> (n < maxToolRounds \<and> \<not> aborted env (abort_checks st)
              \<longrightarrow> (\<exists>rest. more = legacyMessages st # rest)))"
proof (induction k arbitrary: n st)
  case 0
  then have nn: "\<not> n < maxToolRounds" by simp
  then have "agent_loop env it n st = LoopEnded n st" by (subst agent_loop.simps) simp
  then show ?case using nn by simp
next
  case (Suc k)
  then have n: "n < maxToolRounds" and k: "k = maxToolRounds - Suc n" by simp_all
  show ?case
  proof (cases "aborted env (abort_checks st)")
    case True
    then have "agent_loop env it n st = Returned (cancel (st\<lparr>abort_checks := Suc (abort_checks st)\<rparr>))"
      using n by (subst agent_loop.simps) (simp add: check_aborted_def)
    then show ?thesis using True by simp
  next
    case False
    let ?empty = "\<lparr>am_content = None, am_tool_calls = None\<rparr>"
    let ?st1 = "request_grok (st\<lparr>abort_checks := Suc (abort_checks st)\<rparr>)"
    let ?r = "read_stream env it (grok_chatStream env (legacyMessages st)) ?empty [] False ?st1"
    have fr: "requests (stream_state ?r) = requests st"
      "grok_requests (stream_state ?r) = grok_requests st @ [legacyMessages st]"
      using read_stream_requests [of env it "grok_chatStream env (legacyMessages st)" ?empty "[]" False ?st1]
        read_stream_frame [of env it "grok_chatStream env (legacyMessages st)" ?empty "[]" False ?st1]
      by simp_all
    have goal: "requests st' = requests st \<Longrightarrow>
               grok_requests st' = grok_requests st @ legacyMessages st # rest \<Longrightarrow>
               loop_state (agent_loop env it n st) = st' \<Longrightarrow> ?thesis" for st' rest
      by simp
    show ?thesis
    proof (cases ?r)
      case (StreamCancelled st2)
      then have "agent_loop env it n st = Returned st2"
        using n False by (subst agent_loop.simps) (simp add: check_aborted_def)
      then show ?thesis using fr StreamCancelled by (intro goal [of st2 "[]"]) simp_all
    next
      case (StreamFailed msg st2)
      then have "agent_loop env it n st = Thrown msg st2"
        using n False by (subst agent_loop.simps) (simp add: check_aborted_def)
      then show ?thesis using fr StreamFailed by (intro goal [of st2 "[]"]) simp_all
    next
      case (Completed acc ty st2)
      then have fr2: "requests st2 = requests st"
        "grok_requests st2 = grok_requests st @ [legacyMessages st]" using fr by simp_all
      show ?thesis
      proof (cases "accumulated_tool_calls acc = []")
        case True
        then have "agent_loop env it n st = LoopEnded n (append_assistant acc st2)"
          using n False Completed by (subst agent_loop.simps) (simp add: check_aborted_def Let_def)
        then show ?thesis using fr2 by (intro goal [of "append_assistant acc st2" "[]"]) simp_all
      next
        case calls: False
        let ?st3 = "if ty then append_assistant acc st2
                    else yield_ui [UToolCalls (accumulated_tool_calls acc)] (append_assistant acc st2)"
        let ?t = "execute_tools env (accumulated_tool_calls acc) ?st3"
        have loop: "agent_loop env it n st =
                      (case ?t of ToolsCancelled st4 \<Rightarrow> Returned st4
                       | ToolsDone st4 \<Rightarrow> agent_loop env it (n + 1) st4)"
          using n False Completed calls by (intro agent_loop_tools) simp_all
        have fr3: "requests (tools_state ?t) = requests st"
          "grok_requests (tools_state ?t) = grok_requests st @ [legacyMessages st]"
          using execute_tools_requests [of env "accumulated_tool_calls acc" ?st3] fr2 by simp_all
        show ?thesis
        proof (cases ?t)
          case (ToolsCancelled st4)
          then have "agent_loop env it n st = Returned st4" using loop by simp
          then show ?thesis using fr3 ToolsCancelled by (intro goal [of st4 "[]"]) simp_all
        next
          case (ToolsDone st4)
          then have l: "agent_loop env it n st = agent_loop env it (Suc n) st4" using loop by simp
          from Suc.IH [OF k, of st4] obtain more where
            "requests (loop_state (agent_loop env it (Suc n) st4)) = requests st4"
            "grok_requests (loop_state (agent_loop env it (Suc n) st4)) = grok_requests st4 @ more"
            by blast
          then show ?thesis using fr3 ToolsDone l
            by (intro goal [of "loop_state (agent_loop env it (Suc n) st4)" more]) simp_all
        qed
      qed
    qed
  qed
qed

lemma legacy_requests:
  "requests (processUserMessageStreamLegacy env message st) = requests st
   \<and> (\<not> aborted env 0 \<longrightarrow>
        (\<exists>rest. grok_requests (processUserMessageStreamLegacy env message st) =
                  grok_requests st @ (legacyMessages st @ [user_message message]) # rest))"
proof -
  let ?st1 = "st\<lparr>abort_checks := 0, chatHistory := chatHistory st @ [user_entry message],
                 legacyMessages := legacyMessages st @ [user_message message]\<rparr>"
  let ?it = "countMessageTokens env (legacyMessages ?st1)"
  let ?st2 = "yield_ui [UTokenCount ?it] ?st1"
  let ?l = "agent_loop env ?it 0 ?st2"
  from agent_loop_requests [of maxToolRounds 0 env ?it ?st2] obtain more where
    r: "requests (loop_state ?l) = requests st"
    and g: "grok_requests (loop_state ?l) = grok_requests st @ more"
    and f: "\<not> aborted env 0 \<longrightarrow> (\<exists>rest. more = (legacyMessages st @ [user_message message]) # rest)"
    by (auto simp: maxToolRounds_def)
  have p: "processUserMessageStreamLegacy env message st =
             (case ?l of
                Returned st2 \<Rightarrow> st2
              | LoopEnded toolRounds st2 \<Rightarrow>
                  yield_ui [UDone]
                    (if toolRounds \<ge> maxToolRounds then yield_ui [UContent round_cap_text] st2 else st2)
              | Thrown msg st2 \<Rightarrow>
                  (case check_aborted env st2 of
                     (True, st3) \<Rightarrow> cancel st3
                   | (False, st3) \<Rightarrow>
                       yield_ui [UContent (''Sorry, I encountered an error: '' @ msg), UDone]
                         (st3\<lparr>chatHistory := chatHistory st3 @
                            [\<lparr>ce_type = EntryAssistant,
                              ce_content = ''Sorry, I encountered an error: '' @ msg,
                              ce_toolCalls = None, ce_toolCall = None, ce_toolResult = None\<rparr>]\<rparr>)))"
    by (simp add: processUserMessageStreamLegacy_def Let_def user_message_def user_entry_def)
  have "requests (processUserMessageStreamLegacy env message st) = requests (loop_state ?l)
        \<and> grok_requests (processUserMessageStreamLegacy env message st) = grok_requests (loop_state ?l)"
    unfolding p by (cases ?l) (simp_all add: check_aborted_def split: bool.splits)
  with r g f show ?thesis by auto
qed

text \<open>
  Claim C9, as amended. Switching the provider changes none of the histories. The next
  submission through \<^verbatim>\<open>processUserMessageStream\<close> makes its request to the new adapter,
  with the whole history followed by the new user message, and reads the stream that
  adapter answers with. A submission through the legacy loop makes no request to a
  provider adapter, whichever is active: its requests go to the Grok client, the first
  with the whole legacy history followed by the new user message.
\<close>

theorem switch_keeps_history:
  "messages (switchProvider newProvider st) = messages st
   \<and> legacyMessages (switchProvider newProvider st) = legacyMessages st
   \<and> chatHistory (switchProvider newProvider st) = chatHistory st
   \<and> (\<exists>st1. processUserMessageStream exec fuel message (switchProvider newProvider st) =
               process_chunks exec fuel
                 (prov_chatStream newProvider
                    (messages st @ [\<lparr>msg_role = User, msg_content = Some message,
                                     msg_tool_calls = None, msg_tool_call_id = None\<rparr>]))
                 empty_assistant st1
          \<and> requests st1 = requests st @
               [(prov_name newProvider,
                 messages st @ [\<lparr>msg_role = User, msg_content = Some message,
                                  msg_tool_calls = None, msg_tool_call_id = None\<rparr>])]
          \<and> messages st1 = messages st @ [\<lparr>msg_role = User, msg_content = Some message,
                                            msg_tool_calls = None, msg_tool_call_id = None\<rparr>])
   \<and> requests (processUserMessageStreamLegacy env message (switchProvider newProvider st)) = requests st
   \<and> (\<not> aborted env 0 \<longrightarrow>
        (\<exists>rest. grok_requests (processUserMessageStreamLegacy env message (switchProvider newProvider st))
                  = grok_requests st @ (legacyMessages st @ [user_message message]) # rest))"
proof -
  let ?user = "\<lparr>msg_role = User, msg_content = Some message, msg_tool_calls = None,
                 msg_tool_call_id = None\<rparr>"
  let ?st1 = "request_provider (addMessage ?user (switchProvider newProvider st))"
  have a: "messages (switchProvider newProvider st) = messages st"
    "legacyMessages (switchProvider newProvider st) = legacyMessages st"
    "chatHistory (switchProvider newProvider st) = chatHistory st"
    "requests (switchProvider newProvider st) = requests st"
    "grok_requests (switchProvider newProvider st) = grok_requests st"
    "provider (switchProvider newProvider st) = newProvider"
    by (simp_all add: switchProvider_def)
  have "processUserMessageStream exec fuel message (switchProvider newProvider st) =
          process_chunks exec fuel (prov_chatStream newProvider (messages st @ [?user]))
            empty_assistant ?st1
        \<and> requests ?st1 = requests st @ [(prov_name newProvider, messages st @ [?user])]
        \<and> messages ?st1 = messages st @ [?user]"
    by (simp add: processUserMessageStream_def Let_def a)
  then have b: "\<exists>st1. processUserMessageStream exec fuel message (switchProvider newProvider st) =
          process_chunks exec fuel (prov_chatStream newProvider (messages st @ [?user]))
            empty_assistant st1
        \<and> requests st1 = requests st @ [(prov_name newProvider, messages st @ [?user])]
        \<and> messages st1 = messages st @ [?user]" by blast
  from legacy_requests [of env message "switchProvider newProvider st"] a b
  show ?thesis by simp
qed

theorem switch_keeps_history_witness:
  "messages (switchProvider (OpenAIProvider (\<lambda>history. [])) mid_session) = messages mid_session
   \<and> legacyMessages (switchProvider (OpenAIProvider (\<lambda>history. [])) mid_session)
       = legacyMessages mid_session
   \<and> requests (run_state (processUserMessageStream (executeUniversalTool_grok quiet) 0 ''next''
        (switchProvider (OpenAIProvider (\<lambda>history. [])) mid_session)))
       = [(''openai'',
           messages mid_session @ [\<lparr>msg_role = User, msg_content = Some ''next'',
                                    msg_tool_calls = None, msg_tool_call_id = None\<rparr>])]
   \<and> \<not> aborted quiet 0
   \<and> requests (processUserMessageStreamLegacy quiet ''next''
        (switchProvider (OpenAIProvider (\<lambda>history. [])) mid_session)) = []
   \<and> hd (grok_requests (processUserMessageStreamLegacy quiet ''next''
        (switchProvider (OpenAIProvider (\<lambda>history. [])) mid_session)))
       = legacyMessages mid_session @ [user_message ''next'']"
proof -
  let ?p = "OpenAIProvider (\<lambda>history. [])"
  let ?exec = "executeUniversalTool_grok quiet"
  let ?user = "\<lparr>msg_role = User, msg_content = Some ''next'', msg_tool_calls = None,
                 msg_tool_call_id = None\<rparr>"
  note t = switch_keeps_history [of ?p mid_session ?exec 0 "''next''" quiet]
  have na: "\<not> aborted quiet 0" by (simp add: quiet_def scripted_def)
  have a: "messages (switchProvider ?p mid_session) = messages mid_session"
    "legacyMessages (switchProvider ?p mid_session) = legacyMessages mid_session"
    using t by simp_all
  from t obtain st1 where
    "processUserMessageStream ?exec 0 ''next'' (switchProvider ?p mid_session) =
       process_chunks ?exec 0 (prov_chatStream ?p (messages mid_session @ [?user])) empty_assistant st1"
    "requests st1 = requests mid_session @ [(prov_name ?p, messages mid_session @ [?user])]"
    by blast
  moreover have "prov_chatStream ?p (messages mid_session @ [?user]) = []"
    by (simp add: OpenAIProvider_def openai_chatStream_def)
  ultimately have b: "requests (run_state (processUserMessageStream ?exec 0 ''next''
        (switchProvider ?p mid_session))) = [(''openai'', messages mid_session @ [?user])]"
    by (simp add: run_state_def mid_session_def blank_def OpenAIProvider_def)
  have c: "requests (processUserMessageStreamLegacy quiet ''next'' (switchProvider ?p mid_session)) = []"
    using t by (simp add: mid_session_def blank_def)
  from t na obtain rest where
    "grok_requests (processUserMessageStreamLegacy quiet ''next'' (switchProvider ?p mid_session))
       = grok_requests mid_session @ (legacyMessages mid_session @ [user_message ''next'']) # rest"
    by blast
  then have d: "hd (grok_requests (processUserMessageStreamLegacy quiet ''next''
        (switchProvider ?p mid_session))) = legacyMessages mid_session @ [user_message ''next'']"
    by (simp add: mid_session_def blank_def)
  show ?thesis using a b c d na by simp
qed

text \<open>
  The claim as stated fails on the legacy loop: after a switch to the OpenAI adapter, a
  submission makes no request to that adapter; the history, with its tool message, goes to
  the Grok client.
\<close>

theorem switch_counterexample:
  "prov_name (provider (switchProvider (OpenAIProvider (\<lambda>history. [])) mid_session)) = ''openai''
   \<and> requests (processUserMessageStreamLegacy quiet ''next''
        (switchProvider (OpenAIProvider (\<lambda>history. [])) mid_session)) = []
   \<and> grok_requests (processUserMessageStreamLegacy quiet ''next''
        (switchProvider (OpenAIProvider (\<lambda>history. [])) mid_session))
       = [[user_message ''run ls'',
           \<lparr>gm_role = Assistant, gm_content = Some [], gm_tool_calls = Some [grok_bash_call],
            gm_tool_call_id = None\<rparr>,
           \<lparr>gm_role = Tool, gm_content = Some ''ok'', gm_tool_calls = None,
            gm_tool_call_id = Some ''call_1''\<rparr>,
           user_message ''next'']]"
  by code_simp

section \<open>The example stream\<close>

lemma scenario_chunks:
  "openai_chatStream scenario =
     [Content ''Hello'',
      ToolCalls [\<lparr>tc_id = [], tc_function = \<lparr>fn_name = ''bash'',
                   fn_arguments = ''{\"command\":\"ls\"}''\<rparr>\<rparr>],
      Done ''stop'']"
  by code_simp

text \<open>
  Claim C4. For the vendor stream of the example the OpenAI adapter yields the text
  \<^verbatim>\<open>Hello\<close>, then one chunk of tool calls that holds exactly one call, of \<^verbatim>\<open>bash\<close> with the
  arguments \<^verbatim>\<open>{"command":"ls"}\<close>, then \<^verbatim>\<open>done\<close>. When this is the answer to a submission,
  the agent appends one assistant message with the content \<^verbatim>\<open>Hello\<close> and exactly this tool
  call to the history, after the user's message, before it runs the tool and asks the
  provider to continue.
\<close>

theorem scenario_turn:
  "openai_chatStream scenario =
     [Content ''Hello'',
      ToolCalls [\<lparr>tc_id = [], tc_function = \<lparr>fn_name = ''bash'',
                   fn_arguments = ''{\"command\":\"ls\"}''\<rparr>\<rparr>],
      Done ''stop'']
   \<and> (vendor (messages st @ [\<lparr>msg_role = User, msg_content = Some message, msg_tool_calls = None,
                               msg_tool_call_id = None\<rparr>]) = scenario
      \<longrightarrow> (\<exists>st0. processUserMessageStream exec fuel message (st\<lparr>provider := OpenAIProvider vendor\<rparr>) =
                  (case continueAfterToolExecution exec fuel
                          (handleToolCalls exec
                             [\<lparr>tc_id = [], tc_function = \<lparr>fn_name = ''bash'',
                                fn_arguments = ''{\"command\":\"ls\"}''\<rparr>\<rparr>] st0) of
                     Finished s \<Rightarrow> Finished (yield (Done ''stop'') (addMessage empty_assistant s))
                   | OutOfFuel s \<Rightarrow> OutOfFuel s)
             \<and> messages st0 = messages st @
                  [\<lparr>msg_role = User, msg_content = Some message, msg_tool_calls = None,
                    msg_tool_call_id = None\<rparr>,
                   \<lparr>msg_role = Assistant, msg_content = Some ''Hello'',
                    msg_tool_calls = Some [\<lparr>tc_id = [], tc_function = \<lparr>fn_name = ''bash'',
                      fn_arguments = ''{\"command\":\"ls\"}''\<rparr>\<rparr>],
                    msg_tool_call_id = None\<rparr>]
             \<and> yielded st0 = yielded st @
                  [Content ''Hello'',
                   ToolCalls [\<lparr>tc_id = [], tc_function = \<lparr>fn_name = ''bash'',
                      fn_arguments = ''{\"command\":\"ls\"}''\<rparr>\<rparr>]]
             \<and> dispatched st0 = dispatched st))"
proof (intro conjI impI)
  show "openai_chatStream scenario =
     [Content ''Hello'',
      ToolCalls [\<lparr>tc_id = [], tc_function = \<lparr>fn_name = ''bash'',
                   fn_arguments = ''{\"command\":\"ls\"}''\<rparr>\<rparr>],
      Done ''stop'']" by (rule scenario_chunks)
next
  let ?user = "\<lparr>msg_role = User, msg_content = Some message, msg_tool_calls = None,
                 msg_tool_call_id = None\<rparr>"
  let ?call = "\<lparr>tc_id = [], tc_function = \<lparr>fn_name = ''bash'',
                 fn_arguments = ''{\"command\":\"ls\"}''\<rparr>\<rparr>"
  let ?turn = "\<lparr>msg_role = Assistant, msg_content = Some ''Hello'', msg_tool_calls = Some [?call],
                 msg_tool_call_id = None\<rparr>"
  assume v: "vendor (messages st @ [?user]) = scenario"
  let ?st1 = "request_provider (addMessage ?user (st\<lparr>provider := OpenAIProvider vendor\<rparr>))"
  let ?st0 = "addMessage ?turn (yield (ToolCalls [?call]) (yield (Content ''Hello'') ?st1))"
  have s: "prov_chatStream (OpenAIProvider vendor) (messages st @ [?user]) =
             [Item (Content ''Hello''), Item (ToolCalls [?call]), Item (Done ''stop'')]"
    by (simp add: OpenAIProvider_def v scenario_chunks)
  have ac: "append_content empty_assistant ''Hello''\<lparr>msg_tool_calls := Some [?call]\<rparr> = ?turn"
    by (simp add: append_content_def empty_assistant_def or_empty_def)
  have "processUserMessageStream exec fuel message (st\<lparr>provider := OpenAIProvider vendor\<rparr>) =
          (case continueAfterToolExecution exec fuel (handleToolCalls exec [?call] ?st0) of
             Finished s \<Rightarrow> Finished (yield (Done ''stop'') (addMessage empty_assistant s))
           | OutOfFuel s \<Rightarrow> OutOfFuel s)"
    unfolding processUserMessageStream_def Let_def
    by (simp add: s ac del: handleToolCalls.simps split: run.splits)
  moreover have "messages ?st0 = messages st @ [?user, ?turn]" by simp
  moreover have "yielded ?st0 = yielded st @ [Content ''Hello'', ToolCalls [?call]]" by simp
  moreover have "dispatched ?st0 = dispatched st" by simp
  ultimately show "\<exists>st0. processUserMessageStream exec fuel message (st\<lparr>provider := OpenAIProvider vendor\<rparr>) =
                  (case continueAfterToolExecution exec fuel (handleToolCalls exec [?call] st0) of
                     Finished s \<Rightarrow> Finished (yield (Done ''stop'') (addMessage empty_assistant s))
                   | OutOfFuel s \<Rightarrow> OutOfFuel s)
             \<and> messages st0 = messages st @ [?user, ?turn]
             \<and> yielded st0 = yielded st @ [Content ''Hello'', ToolCalls [?call]]
             \<and> dispatched st0 = dispatched st"
    by (intro exI [of _ ?st0]) simp
qed

theorem scenario_turn_witness:
  "scenario_vendor (messages blank @ [\<lparr>msg_role = User, msg_content = Some ''list the files'',
       msg_tool_calls = None, msg_tool_call_id = None\<rparr>]) = scenario
   \<and> openai_chatStream scenario =
       [Content ''Hello'',
        ToolCalls [\<lparr>tc_id = [], tc_function = \<lparr>fn_name = ''bash'',
                     fn_arguments = ''{\"command\":\"ls\"}''\<rparr>\<rparr>],
        Done ''stop'']
   \<and> (\<exists>st0. processUserMessageStream (executeUniversalTool_grok quiet) 1 ''list the files''
               (blank\<lparr>provider := OpenAIProvider scenario_vendor\<rparr>) =
               (case continueAfterToolExecution (executeUniversalTool_grok quiet) 1
                       (handleToolCalls (executeUniversalTool_grok quiet)
                          [\<lparr>tc_id = [], tc_function = \<lparr>fn_name = ''bash'',
                             fn_arguments = ''{\"command\":\"ls\"}''\<rparr>\<rparr>] st0) of
                  Finished s \<Rightarrow> Finished (yield (Done ''stop'') (addMessage empty_assistant s))
                | OutOfFuel s \<Rightarrow> OutOfFuel s)
          \<and> messages st0 =
               [\<lparr>msg_role = User, msg_content = Some ''list the files'', msg_tool_calls = None,
                 msg_tool_call_id = None\<rparr>,
                \<lparr>msg_role = Assistant, msg_content = Some ''Hello'',
                 msg_tool_calls = Some [\<lparr>tc_id = [], tc_function = \<lparr>fn_name = ''bash'',
                    fn_arguments = ''{\"command\":\"ls\"}''\<rparr>\<rparr>],
                 msg_tool_call_id = None\<rparr>])
   \<and> messages (run_state (processUserMessageStream (executeUniversalTool_grok quiet) 1
        ''list the files'' (blank\<lparr>provider := OpenAIProvider scenario_vendor\<rparr>)))
       = [\<lparr>msg_role = User, msg_content = Some ''list the files'', msg_tool_calls = None,
           msg_tool_call_id = None\<rparr>,
          \<lparr>msg_role = Assistant, msg_content = Some ''Hello'',
           msg_tool_calls = Some [\<lparr>tc_id = [], tc_function = \<lparr>fn_name = ''bash'',
              fn_arguments = ''{\"command\":\"ls\"}''\<rparr>\<rparr>],
           msg_tool_call_id = None\<rparr>,
          \<lparr>msg_role = Tool, msg_content = Some ''ok'', msg_tool_calls = None,
           msg_tool_call_id = Some []\<rparr>,
          \<lparr>msg_role = Assistant, msg_content = Some [], msg_tool_calls = None,
           msg_tool_call_id = None\<rparr>]"
proof -
  let ?user = "\<lparr>msg_role = User, msg_content = Some ''list the files'', msg_tool_calls = None,
                 msg_tool_call_id = None\<rparr>"
  let ?call = "\<lparr>tc_id = [], tc_function = \<lparr>fn_name = ''bash'',
                 fn_arguments = ''{\"command\":\"ls\"}''\<rparr>\<rparr>"
  let ?turn = "\<lparr>msg_role = Assistant, msg_content = Some ''Hello'', msg_tool_calls = Some [?call],
                 msg_tool_call_id = None\<rparr>"
  let ?exec = "executeUniversalTool_grok quiet"
  let ?run = "processUserMessageStream ?exec 1 ''list the files''
                (blank\<lparr>provider := OpenAIProvider scenario_vendor\<rparr>)"
  have v: "scenario_vendor (messages blank @ [?user]) = scenario"
    by (simp add: scenario_vendor_def blank_def)
  note t = scenario_turn [of scenario_vendor blank "''list the files''" ?exec 1]
  have a: "openai_chatStream scenario = [Content ''Hello'', ToolCalls [?call], Done ''stop'']"
    using t by simp
  have full: "messages (run_state ?run) =
                [?user, ?turn,
                 \<lparr>msg_role = Tool, msg_content = Some ''ok'', msg_tool_calls = None,
                  msg_tool_call_id = Some []\<rparr>,
                 \<lparr>msg_role = Assistant, msg_content = Some [], msg_tool_calls = None,
                  msg_tool_call_id = None\<rparr>]"
    by code_simp
  from t v obtain st0 where
    "?run = (case continueAfterToolExecution ?exec 1 (handleToolCalls ?exec [?call] st0) of
               Finished s \<Rightarrow> Finished (yield (Done ''stop'') (addMessage empty_assistant s))
             | OutOfFuel s \<Rightarrow> OutOfFuel s)"
    "messages st0 = messages blank @ [?user, ?turn]" by blast
  then have b: "\<exists>st0. ?run =
            (case continueAfterToolExecution ?exec 1 (handleToolCalls ?exec [?call] st0) of
               Finished s \<Rightarrow> Finished (yield (Done ''stop'') (addMessage empty_assistant s))
             | OutOfFuel s \<Rightarrow> OutOfFuel s)
          \<and> messages st0 = [?user, ?turn]"
    by (intro exI [of _ st0]) (simp only: blank_def agent.simps append_Nil simp_thms)
  show ?thesis using v a b full by blast
qed

end
